theory Spec2Isabelle
  imports Main "HOL-Library.Multiset"
begin

section \<open>Mark-compact collector of src/heap/mark-compact.cc\<close>

text \<open>
  A shallow embedding of the parts of the full mark-compact collector that the
  specification makes claims about.  Heap objects and pages are addresses
  (natural numbers); the C++ members the functions read and write are fields of
  records that are passed in and returned; \<open>FatalProcessOutOfMemory\<close> and failed
  \<open>CHECK\<close>s are error values.
\<close>

subsection \<open>Heap objects and mark bits\<close>

text \<open>
  A heap object is its address.  The marking state gives every object one of the three
  colours of the mark-bit pair.
\<close>

type_synonym heap_object = nat

datatype colour = White | Grey | Black

definition IsBlackOrGrey :: "(heap_object \<Rightarrow> colour) \<Rightarrow> heap_object \<Rightarrow> bool" where
  "IsBlackOrGrey bits obj = (bits obj = Grey \<or> bits obj = Black)"

definition IsWhite :: "(heap_object \<Rightarrow> colour) \<Rightarrow> heap_object \<Rightarrow> bool" where
  "IsWhite bits obj = (bits obj = White)"

definition IsBlack :: "(heap_object \<Rightarrow> colour) \<Rightarrow> heap_object \<Rightarrow> bool" where
  "IsBlack bits obj = (bits obj = Black)"

text \<open>The two ways the collector ends the process: a failed \<open>CHECK\<close> and
  \<open>FatalProcessOutOfMemory\<close>.\<close>

datatype gc_error = CheckFailed | FatalProcessOutOfMemory

subsection \<open>Pages\<close>

text \<open>
  A page (a \<open>MemoryChunk\<close>) is named by its address.  The chunk header is a record;
  the fields are the ones this file reads or writes.  \<open>live_bytes\<close> is the counter
  the marking state keeps for the chunk (an \<open>intptr_t\<close>).  \<open>CanAllocate\<close> and
  \<open>SweepingDone\<close> are computed by code outside this file and are taken as given.
\<close>

type_synonym page = nat

datatype chunk_flag =
    EVACUATION_CANDIDATE
  | NEVER_EVACUATE
  | PINNED
  | FORCE_EVACUATION_CANDIDATE_FOR_TESTING
  | COMPACTION_WAS_ABORTED
  | PAGE_NEW_OLD_PROMOTION
  | PAGE_NEW_NEW_PROMOTION
  | NEW_SPACE_BELOW_AGE_MARK
  | LARGE_PAGE
  | IS_EXECUTABLE
  | FROM_PAGE
  | TO_PAGE

datatype AllocationSpace =
  NEW_SPACE | OLD_SPACE | CODE_SPACE | MAP_SPACE | LO_SPACE | CODE_LO_SPACE | NEW_LO_SPACE

record memory_chunk =
  flags :: "chunk_flag set"
  live_bytes :: int
  allocated_bytes :: nat
  area_start :: nat
  owner_identity :: AllocationSpace
  CanAllocate :: bool
  SweepingDone :: bool

type_synonym chunk_store = "page \<Rightarrow> memory_chunk"

definition IsFlagSet :: "memory_chunk \<Rightarrow> chunk_flag \<Rightarrow> bool" where
  "IsFlagSet c f = (f \<in> flags c)"

definition SetFlag :: "chunk_flag \<Rightarrow> memory_chunk \<Rightarrow> memory_chunk" where
  "SetFlag f c = c\<lparr>flags := insert f (flags c)\<rparr>"

definition ClearFlag :: "chunk_flag \<Rightarrow> memory_chunk \<Rightarrow> memory_chunk" where
  "ClearFlag f c = c\<lparr>flags := flags c - {f}\<rparr>"

definition IsEvacuationCandidate :: "memory_chunk \<Rightarrow> bool" where
  "IsEvacuationCandidate c = IsFlagSet c EVACUATION_CANDIDATE"

definition NeverEvacuate :: "memory_chunk \<Rightarrow> bool" where
  "NeverEvacuate c = IsFlagSet c NEVER_EVACUATE"

definition IsPinned :: "memory_chunk \<Rightarrow> bool" where
  "IsPinned c = IsFlagSet c PINNED"

text \<open>A chunk header with no flag set and nothing allocated, to build examples from.\<close>

definition empty_chunk :: memory_chunk where
  "empty_chunk =
     \<lparr>flags = {}, live_bytes = 0, allocated_bytes = 0, area_start = 0,
      owner_identity = OLD_SPACE, CanAllocate = True, SweepingDone = True\<rparr>"

subsection \<open>Marking: the state\<close>

text \<open>
  What marking reads and does not change: which objects are free space or fillers, and
  the flag that bounds the fixpoint iteration.  The marking visitor is declared outside
  this file; the heap gives, for each object, what the visitor finds in it: the objects
  its slots refer to, the ephemerons (key, value) it holds if it is an ephemeron hash
  table, and the size the visit returns.  The model is of a collection without an
  embedder heap tracer and without concurrent marking threads: \<open>IsWrapperEmpty\<close> and
  \<open>IsRemoteTracingDone\<close> are fixed answers, and per-context mode is off.
\<close>

type_synonym Ephemeron = "heap_object \<times> heap_object"

record marking_heap =
  IsFreeSpaceOrFiller :: "heap_object \<Rightarrow> bool"
  pointers_of :: "heap_object \<Rightarrow> heap_object list"
  ephemerons_of :: "heap_object \<Rightarrow> Ephemeron list"
  visited_size_of :: "heap_object \<Rightarrow> nat"
  FLAG_ephemeron_fixpoint_iterations :: int
  IsWrapperEmpty :: bool
  IsRemoteTracingDone :: bool
  concurrent_marking_IsStopped :: bool

text \<open>
  The state of the marker: the mark bits, the marking worklist with its on-hold part,
  the three ephemeron worklists, the flag that concurrent marking sets when another
  ephemeron iteration is needed, and the buffer of newly discovered objects of the linear
  algorithm.  Each worklist is one list (the local buffer and the global pool together);
  \<open>Push\<close> adds at the front, \<open>Pop\<close> takes from the front.
\<close>

record marking_state =
  markbits :: "heap_object \<Rightarrow> colour"
  marking_worklist :: "heap_object list"
  on_hold_worklist :: "heap_object list"
  current_ephemerons :: "Ephemeron list"
  discovered_ephemerons :: "Ephemeron list"
  next_ephemerons :: "Ephemeron list"
  another_ephemeron_iteration :: bool
  newly_discovered :: "heap_object list"
  newly_discovered_limit :: nat
  newly_discovered_overflowed :: bool

text \<open>
  \<open>WhiteToGrey\<close> succeeds exactly on a white object.  The result is the success
  and the new state.
\<close>

definition WhiteToGrey :: "heap_object \<Rightarrow> marking_state \<Rightarrow> bool \<times> marking_state" where
  "WhiteToGrey obj s =
     (if IsWhite (markbits s) obj then (True, s\<lparr>markbits := (markbits s)(obj := Grey)\<rparr>)
      else (False, s))"

definition Push :: "heap_object \<Rightarrow> marking_state \<Rightarrow> marking_state" where
  "Push obj s = s\<lparr>marking_worklist := obj # marking_worklist s\<rparr>"

text \<open>
  \<open>ProcessEphemeron\<close>.  The result says whether the value was newly marked.
\<close>

definition ProcessEphemeron ::
  "heap_object \<Rightarrow> heap_object \<Rightarrow> marking_state \<Rightarrow> bool \<times> marking_state" where
  "ProcessEphemeron key v s =
     (if IsBlackOrGrey (markbits s) key then
        (case WhiteToGrey v s of
           (True, s1) \<Rightarrow> (True, Push v s1)
         | (False, s1) \<Rightarrow> (False, s1))
      else if IsWhite (markbits s) v then
        (False, s\<lparr>next_ephemerons := (key, v) # next_ephemerons s\<rparr>)
      else (False, s))"

text \<open>
  Modelled from the spec: the marking visitor's \<open>Visit\<close> is declared outside this
  file.  Following the spec, the target of each visited slot is marked grey if it is white
  (and pushed), ephemerons discovered in the object are appended to
  \<open>discovered_ephemerons\<close>, and the object itself ends up black.  The result carries
  the visited size.
\<close>

definition MarkObject :: "heap_object \<Rightarrow> marking_state \<Rightarrow> marking_state" where
  "MarkObject obj s =
     (case WhiteToGrey obj s of (True, s1) \<Rightarrow> Push obj s1 | (False, s1) \<Rightarrow> s1)"

definition Visit_object :: "marking_heap \<Rightarrow> heap_object \<Rightarrow> marking_state \<Rightarrow> nat \<times> marking_state" where
  "Visit_object h obj s =
     (let s1 = s\<lparr>markbits := (markbits s)(obj := Black)\<rparr>;
          s2 = fold MarkObject (pointers_of h obj) s1
      in (visited_size_of h obj,
          s2\<lparr>discovered_ephemerons := ephemerons_of h obj @ discovered_ephemerons s2\<rparr>))"

text \<open>
  Modelled from the spec: \<open>AddNewlyDiscovered\<close> and \<open>ResetNewlyDiscovered\<close> are
  declared outside this file; the buffer of newly discovered objects is bounded by the
  limit and remembers that it overflowed.
\<close>

definition AddNewlyDiscovered :: "heap_object \<Rightarrow> marking_state \<Rightarrow> marking_state" where
  "AddNewlyDiscovered obj s =
     (if newly_discovered_overflowed s then s
      else if length (newly_discovered s) < newly_discovered_limit s
      then s\<lparr>newly_discovered := newly_discovered s @ [obj]\<rparr>
      else s\<lparr>newly_discovered_overflowed := True\<rparr>)"


subsection \<open>Marking: draining the worklist (ProcessMarkingWorklist)\<close>

datatype MarkingWorklistProcessingMode = kDefault | kTrackNewlyDiscoveredObjects

text \<open>
  The loop condition \<open>Pop(&object) || PopOnHold(&object)\<close>: take from the regular
  worklist, and from the on-hold worklist when the regular one is empty.
\<close>

definition Pop_or_PopOnHold :: "marking_state \<Rightarrow> (heap_object \<times> marking_state) option" where
  "Pop_or_PopOnHold s =
     (case marking_worklist s of
        obj # rest \<Rightarrow> Some (obj, s\<lparr>marking_worklist := rest\<rparr>)
      | [] \<Rightarrow>
          (case on_hold_worklist s of
             obj # rest \<Rightarrow> Some (obj, s\<lparr>on_hold_worklist := rest\<rparr>)
           | [] \<Rightarrow> None))"

text \<open>
  The loop, with the two counters as arguments.  It need not terminate for every graph of
  objects, so it is a partial function: \<open>None\<close> stands for a loop that runs forever.
  \<open>bytes_processed\<close> is a \<open>size_t\<close>.
\<close>

partial_function (option) ProcessMarkingWorklist_loop ::
  "marking_heap \<Rightarrow> MarkingWorklistProcessingMode \<Rightarrow> nat \<Rightarrow> nat \<Rightarrow> nat \<Rightarrow> marking_state \<Rightarrow>
   (nat \<times> nat \<times> marking_state) option" where
  "ProcessMarkingWorklist_loop h mode bytes_to_process bytes_processed objects_processed s =
     (case Pop_or_PopOnHold s of
        None \<Rightarrow> Some (bytes_processed, objects_processed, s)
      | Some (obj, s1) \<Rightarrow>
          if IsFreeSpaceOrFiller h obj then
            ProcessMarkingWorklist_loop h mode bytes_to_process bytes_processed objects_processed s1
          else
            (let s2 = (if mode = kTrackNewlyDiscoveredObjects then AddNewlyDiscovered obj s1 else s1);
                 bytes = (bytes_processed + fst (Visit_object h obj s2)) mod 2 ^ 64;
                 objects = objects_processed + 1;
                 s3 = snd (Visit_object h obj s2)
             in if bytes_to_process \<noteq> 0 \<and> bytes \<ge> bytes_to_process
                then Some (bytes, objects, s3)
                else ProcessMarkingWorklist_loop h mode bytes_to_process bytes objects s3))"

definition ProcessMarkingWorklist ::
  "marking_heap \<Rightarrow> MarkingWorklistProcessingMode \<Rightarrow> nat \<Rightarrow> marking_state \<Rightarrow>
   (nat \<times> nat \<times> marking_state) option" where
  "ProcessMarkingWorklist h mode bytes_to_process s =
     ProcessMarkingWorklist_loop h mode bytes_to_process 0 0 s"


subsection \<open>Marking: the ephemeron fixpoint\<close>

text \<open>
  The two draining loops of \<open>ProcessEphemerons\<close> pop one ephemeron after the other and
  hand it to \<open>ProcessEphemeron\<close>, which pushes to \<open>next_ephemerons\<close> only: the
  drained list is taken off the state first and then walked.
\<close>

fun ProcessEphemerons_drain :: "Ephemeron list \<Rightarrow> bool \<Rightarrow> marking_state \<Rightarrow> bool \<times> marking_state" where
  "ProcessEphemerons_drain [] another s = (another, s)"
| "ProcessEphemerons_drain (e # es) another s =
     (case ProcessEphemeron (fst e) (snd e) s of
        (marked, s1) \<Rightarrow> ProcessEphemerons_drain es (another \<or> marked) s1)"

definition ProcessEphemerons :: "marking_heap \<Rightarrow> marking_state \<Rightarrow> (bool \<times> marking_state) option" where
  "ProcessEphemerons h s =
     (case ProcessEphemerons_drain (current_ephemerons s) False (s\<lparr>current_ephemerons := []\<rparr>) of
        (another1, s1) \<Rightarrow>
          (case ProcessMarkingWorklist h kDefault 0 s1 of
             None \<Rightarrow> None
           | Some (bytes_processed, objects_processed, s2) \<Rightarrow>
               Some (ProcessEphemerons_drain (discovered_ephemerons s2)
                       (another1 \<or> objects_processed > 0) (s2\<lparr>discovered_ephemerons := []\<rparr>))))"

text \<open>
  \<open>PerformWrapperTracing\<close> does nothing when the embedder heap tracer is not in use,
  which is the case modelled.
\<close>

definition PerformWrapperTracing :: "marking_heap \<Rightarrow> marking_state \<Rightarrow> marking_state" where
  "PerformWrapperTracing h s = s"

definition Swap_current_next :: "marking_state \<Rightarrow> marking_state" where
  "Swap_current_next s =
     s\<lparr>current_ephemerons := next_ephemerons s, next_ephemerons := current_ephemerons s\<rparr>"

text \<open>
  The \<open>do ... while\<close> loop of \<open>MarkTransitiveClosureUntilFixpoint\<close>, with the
  counter \<open>iterations\<close> as argument.  The result is the returned flag, the value of
  \<open>iterations\<close> at the return, and the state; a failed \<open>CHECK\<close> is an error, and
  \<open>None\<close> is a drain of the worklist that never ends.
\<close>

function MarkTransitiveClosureUntilFixpoint_loop ::
  "marking_heap \<Rightarrow> int \<Rightarrow> marking_state \<Rightarrow> (gc_error + bool \<times> int \<times> marking_state) option" where
  "MarkTransitiveClosureUntilFixpoint_loop h iterations s =
     (let s0 = PerformWrapperTracing h s in
      if iterations \<ge> FLAG_ephemeron_fixpoint_iterations h then Some (Inr (False, iterations, s0))
      else
        (case ProcessEphemerons h ((Swap_current_next s0)\<lparr>another_ephemeron_iteration := False\<rparr>) of
           None \<Rightarrow> None
         | Some (another_main_thread, s1) \<Rightarrow>
             if current_ephemerons s1 \<noteq> [] \<or> discovered_ephemerons s1 \<noteq> []
             then Some (Inl CheckFailed)
             else if another_main_thread \<or> another_ephemeron_iteration s1 \<or>
                     marking_worklist s1 \<noteq> [] \<or> \<not> IsWrapperEmpty h \<or> \<not> IsRemoteTracingDone h
             then MarkTransitiveClosureUntilFixpoint_loop h (iterations + 1) s1
             else Some (Inr (True, iterations + 1, s1))))"
  by pat_completeness auto
termination
  by (relation "measure (\<lambda>(h, iterations, s). nat (FLAG_ephemeron_fixpoint_iterations h - iterations))")
     auto

declare MarkTransitiveClosureUntilFixpoint_loop.simps [simp del]


subsection \<open>Marking: the linear algorithm\<close>

text \<open>
  \<open>key_to_values\<close> is a multimap; it is a list of pairs here, and the range of a key is
  the pairs with that key.
\<close>

fun Linear_drain ::
  "Ephemeron list \<Rightarrow> Ephemeron list \<Rightarrow> marking_state \<Rightarrow> Ephemeron list \<times> marking_state" where
  "Linear_drain [] key_to_values s = (key_to_values, s)"
| "Linear_drain (e # es) key_to_values s =
     (let s1 = snd (ProcessEphemeron (fst e) (snd e) s)
      in Linear_drain es
           (if IsWhite (markbits s1) (snd e) then key_to_values @ [e] else key_to_values) s1)"






subsection \<open>Draining the worklist terminates and leaves it empty\<close>









lemma ProcessMarkingWorklist_loop_empty:
  "Pop_or_PopOnHold s = None \<Longrightarrow>
   ProcessMarkingWorklist_loop h mode bytes_to_process bytes_processed objects_processed s
     = Some (bytes_processed, objects_processed, s)"
  by (subst ProcessMarkingWorklist_loop.simps) simp

lemma ProcessMarkingWorklist_loop_filler:
  "Pop_or_PopOnHold s = Some (obj, s1) \<Longrightarrow> IsFreeSpaceOrFiller h obj \<Longrightarrow>
   ProcessMarkingWorklist_loop h mode bytes_to_process bytes_processed objects_processed s
     = ProcessMarkingWorklist_loop h mode bytes_to_process bytes_processed objects_processed s1"
  by (subst ProcessMarkingWorklist_loop.simps) simp

definition visit_popped ::
  "marking_heap \<Rightarrow> MarkingWorklistProcessingMode \<Rightarrow> heap_object \<Rightarrow> marking_state \<Rightarrow> nat \<times> marking_state" where
  "visit_popped h mode obj s1 =
     Visit_object h obj (if mode = kTrackNewlyDiscoveredObjects then AddNewlyDiscovered obj s1 else s1)"

lemma ProcessMarkingWorklist_loop_visit:
  "Pop_or_PopOnHold s = Some (obj, s1) \<Longrightarrow> \<not> IsFreeSpaceOrFiller h obj \<Longrightarrow>
   ProcessMarkingWorklist_loop h mode bytes_to_process bytes_processed objects_processed s
     = (if bytes_to_process \<noteq> 0 \<and>
           (bytes_processed + fst (visit_popped h mode obj s1)) mod 2 ^ 64 \<ge> bytes_to_process
        then Some ((bytes_processed + fst (visit_popped h mode obj s1)) mod 2 ^ 64,
                   objects_processed + 1, snd (visit_popped h mode obj s1))
        else ProcessMarkingWorklist_loop h mode bytes_to_process
               ((bytes_processed + fst (visit_popped h mode obj s1)) mod 2 ^ 64)
               (objects_processed + 1) (snd (visit_popped h mode obj s1)))"
  by (subst ProcessMarkingWorklist_loop.simps) (simp add: Let_def visit_popped_def)



























text \<open>
  An example: object 1 waits on the worklist and object 8 on the on-hold worklist; object 1
  refers to object 2 and to the filler 7, object 2 refers to object 4, and object 1 holds
  the ephemerons (2, 3) and (5, 6).
\<close>

definition marking_example_heap :: marking_heap where
  "marking_example_heap =
     \<lparr>IsFreeSpaceOrFiller = (\<lambda>obj. obj = 7),
      pointers_of = (\<lambda>obj. if obj = 1 then [2, 7] else if obj = 2 then [4] else []),
      ephemerons_of = (\<lambda>obj. if obj = 1 then [(2, 3), (5, 6)] else []),
      visited_size_of = (\<lambda>obj. 16),
      FLAG_ephemeron_fixpoint_iterations = 10,
      IsWrapperEmpty = True,
      IsRemoteTracingDone = True,
      concurrent_marking_IsStopped = True\<rparr>"

definition marking_example_bits :: "heap_object \<Rightarrow> colour" where
  "marking_example_bits =
     (\<lambda>obj. if obj = 1 \<or> obj = 8 then Grey else if 2 \<le> obj \<and> obj \<le> 7 then White else Black)"

definition marking_example_state :: marking_state where
  "marking_example_state =
     \<lparr>markbits = marking_example_bits,
      marking_worklist = [1],
      on_hold_worklist = [8],
      current_ephemerons = [],
      discovered_ephemerons = [],
      next_ephemerons = [],
      another_ephemeron_iteration = False,
      newly_discovered = [],
      newly_discovered_limit = 0,
      newly_discovered_overflowed = False\<rparr>"


lemma marking_example_heap_fields [simp]:
  "IsFreeSpaceOrFiller marking_example_heap = (\<lambda>obj. obj = 7)"
  "pointers_of marking_example_heap = (\<lambda>obj. if obj = 1 then [2, 7] else if obj = 2 then [4] else [])"
  "ephemerons_of marking_example_heap = (\<lambda>obj. if obj = 1 then [(2, 3), (5, 6)] else [])"
  "visited_size_of marking_example_heap = (\<lambda>obj. 16)"
  "FLAG_ephemeron_fixpoint_iterations marking_example_heap = 10"
  "IsWrapperEmpty marking_example_heap"
  "IsRemoteTracingDone marking_example_heap"
  "concurrent_marking_IsStopped marking_example_heap"
  by (simp_all add: marking_example_heap_def)

lemmas marking_eval =
  ProcessMarkingWorklist_def ProcessMarkingWorklist_loop_empty ProcessMarkingWorklist_loop_filler
  ProcessMarkingWorklist_loop_visit Pop_or_PopOnHold_def visit_popped_def Visit_object_def
  MarkObject_def WhiteToGrey_def Push_def IsWhite_def IsBlackOrGrey_def Let_def
  marking_example_bits_def AddNewlyDiscovered_def

lemma ProcessMarkingWorklist_budget_example:
  "map_option (\<lambda>r. (fst r, fst (snd r), marking_worklist (snd (snd r)), on_hold_worklist (snd (snd r))))
     (ProcessMarkingWorklist marking_example_heap kDefault 16 marking_example_state)
   = Some (16, 1, [7, 2], [8])"
  by (simp add: marking_eval marking_example_state_def)

lemma ProcessMarkingWorklist_zero_example:
  "map_option (\<lambda>r. (fst r, fst (snd r), marking_worklist (snd (snd r)), on_hold_worklist (snd (snd r)),
                    map (markbits (snd (snd r))) [1, 2, 3, 4, 5, 6, 7, 8]))
     (ProcessMarkingWorklist marking_example_heap kDefault 0 marking_example_state)
   = Some (64, 4, [], [], [Black, Black, White, Black, White, White, Grey, Black])"
  by (simp add: marking_eval marking_example_state_def)



subsection \<open>The ephemeron fixpoint: what one step changes\<close>





lemma ProcessEphemeron_fields:
  "on_hold_worklist (snd (ProcessEphemeron key v s)) = on_hold_worklist s"
  "current_ephemerons (snd (ProcessEphemeron key v s)) = current_ephemerons s"
  "discovered_ephemerons (snd (ProcessEphemeron key v s)) = discovered_ephemerons s"
  "another_ephemeron_iteration (snd (ProcessEphemeron key v s)) = another_ephemeron_iteration s"
  "newly_discovered (snd (ProcessEphemeron key v s)) = newly_discovered s"
  "newly_discovered_limit (snd (ProcessEphemeron key v s)) = newly_discovered_limit s"
  "newly_discovered_overflowed (snd (ProcessEphemeron key v s)) = newly_discovered_overflowed s"
  by (cases "markbits s key";
      simp add: ProcessEphemeron_def WhiteToGrey_def IsWhite_def IsBlackOrGrey_def Push_def)+









subsection \<open>The fixpoint iteration returns\<close>










subsection \<open>The linear algorithm returns\<close>




lemma Linear_drain_fields:
  "newly_discovered (snd (Linear_drain es key_to_values s)) = newly_discovered s"
  "newly_discovered_overflowed (snd (Linear_drain es key_to_values s)) = newly_discovered_overflowed s"
  by (induction es arbitrary: key_to_values s; simp add: Let_def ProcessEphemeron_fields)+






lemma MarkTransitiveClosureUntilFixpoint_loop_fixpoint_empty:
  "MarkTransitiveClosureUntilFixpoint_loop h iterations s = Some (Inr (True, n, s')) \<Longrightarrow>
   marking_worklist s' = [] \<and> current_ephemerons s' = [] \<and> discovered_ephemerons s' = []"
proof (induction h iterations s rule: MarkTransitiveClosureUntilFixpoint_loop.induct)
  case (1 h iterations s)
  let ?s0 = "(Swap_current_next (PerformWrapperTracing h s))\<lparr>another_ephemeron_iteration := False\<rparr>"
  from "1.prems" have nb: "\<not> FLAG_ephemeron_fixpoint_iterations h \<le> iterations"
    by (subst (asm) MarkTransitiveClosureUntilFixpoint_loop.simps) (auto simp: Let_def)
  from "1.prems" nb obtain another s1 where pe: "ProcessEphemerons h ?s0 = Some (another, s1)"
    by (subst (asm) MarkTransitiveClosureUntilFixpoint_loop.simps)
       (auto simp: Let_def split: option.splits)
  from "1.prems" nb pe have ok: "current_ephemerons s1 = []" "discovered_ephemerons s1 = []"
    by (subst (asm) MarkTransitiveClosureUntilFixpoint_loop.simps; auto simp: Let_def split: if_splits)+
  show ?case
  proof (cases "another \<or> another_ephemeron_iteration s1 \<or>
                     marking_worklist s1 \<noteq> [] \<or> \<not> IsWrapperEmpty h \<or> \<not> IsRemoteTracingDone h")
    case True
    with "1.prems" nb pe ok
    have rec: "MarkTransitiveClosureUntilFixpoint_loop h (iterations + 1) s1 = Some (Inr (True, n, s'))"
      by (subst (asm) MarkTransitiveClosureUntilFixpoint_loop.simps) (simp add: Let_def)
    have nc: "\<not> (current_ephemerons s1 \<noteq> [] \<or> discovered_ephemerons s1 \<noteq> [])"
      using ok by simp
    show ?thesis by (rule "1.IH" [OF refl nb pe refl nc True rec])
  next
    case False
    with "1.prems" nb pe ok have "s' = s1"
      by (subst (asm) MarkTransitiveClosureUntilFixpoint_loop.simps) (simp add: Let_def)
    with False ok show ?thesis by simp
  qed
qed

subsection \<open>The fixpoint iteration on an example\<close>

text \<open>
  The example of the drain again, once with the flag at 10 and once at 2: the fixpoint
  needs three rounds there, so with the flag at 2 the iteration gives up.
\<close>

definition marking_example_heap_2 :: marking_heap where
  "marking_example_heap_2 = marking_example_heap\<lparr>FLAG_ephemeron_fixpoint_iterations := 2\<rparr>"

lemma marking_example_heap_2_fields [simp]:
  "IsFreeSpaceOrFiller marking_example_heap_2 = (\<lambda>obj. obj = 7)"
  "pointers_of marking_example_heap_2 = (\<lambda>obj. if obj = 1 then [2, 7] else if obj = 2 then [4] else [])"
  "ephemerons_of marking_example_heap_2 = (\<lambda>obj. if obj = 1 then [(2, 3), (5, 6)] else [])"
  "visited_size_of marking_example_heap_2 = (\<lambda>obj. 16)"
  "FLAG_ephemeron_fixpoint_iterations marking_example_heap_2 = 2"
  "IsWrapperEmpty marking_example_heap_2"
  "IsRemoteTracingDone marking_example_heap_2"
  "concurrent_marking_IsStopped marking_example_heap_2"
  by (simp_all add: marking_example_heap_2_def)





subsection \<open>Ephemerons at the fixpoint\<close>

text \<open>
  Two invariants of marking.  An ephemeron is covered when it waits in one of the three
  ephemeron worklists (or in the list that is being drained) or its value is marked; the
  ephemerons to cover are those of a given set and those held by black objects.  And
  every grey object that is not a filler waits on the marking worklist.
\<close>

definition pending :: "marking_state \<Rightarrow> Ephemeron set" where
  "pending s = set (current_ephemerons s) \<union> set (discovered_ephemerons s) \<union> set (next_ephemerons s)"


























subsection \<open>The linear algorithm completes marking\<close>

text \<open>
  A step that only marks: every object keeps its colour or turns from white to grey and
  is then on the marking worklist; the worklist and \<open>next_ephemerons\<close> only grow, and
  the other lists and the buffer of newly discovered objects stay as they are.
\<close>

definition marks_more :: "marking_state \<Rightarrow> marking_state \<Rightarrow> bool" where
  "marks_more s s' \<longleftrightarrow>
     (\<forall>x. markbits s' x = markbits s x \<or>
          (markbits s x = White \<and> markbits s' x = Grey \<and> x \<in> set (marking_worklist s'))) \<and>
     set (marking_worklist s) \<subseteq> set (marking_worklist s') \<and>
     on_hold_worklist s' = on_hold_worklist s \<and>
     current_ephemerons s' = current_ephemerons s \<and>
     discovered_ephemerons s' = discovered_ephemerons s \<and>
     set (next_ephemerons s) \<subseteq> set (next_ephemerons s') \<and>
     newly_discovered s' = newly_discovered s \<and>
     newly_discovered_overflowed s' = newly_discovered_overflowed s"











definition black_keys_done :: "marking_state \<Rightarrow> bool" where
  "black_keys_done s \<longleftrightarrow>
     (\<forall>e \<in> set (next_ephemerons s). markbits s (fst e) = Black \<longrightarrow> markbits s (snd e) \<noteq> White)"

lemma marks_more_colour:
  "marks_more s s' \<Longrightarrow>
   markbits s' x = markbits s x \<or> (markbits s x = White \<and> markbits s' x = Grey)"
  by (auto simp: marks_more_def)

lemma marks_more_Black:
  "marks_more s s' \<Longrightarrow> markbits s' x = Black \<longleftrightarrow> markbits s x = Black"
  using marks_more_colour [of s s' x] by auto

lemma marks_more_marked:
  "marks_more s s' \<Longrightarrow> markbits s x \<noteq> White \<Longrightarrow> markbits s' x \<noteq> White"
  using marks_more_colour [of s s' x] by auto






















text \<open>
  The objects that marking may reach from a state: the objects that are marked or wait on
  a worklist, the objects they refer to, and the values of ephemerons whose key is
  reached, for the ephemerons in the three ephemeron worklists and those held by reached
  objects.
\<close>

inductive_set reachable :: "marking_heap \<Rightarrow> marking_state \<Rightarrow> heap_object set"
  for h :: marking_heap and s :: marking_state where
  marked: "markbits s x \<noteq> White \<Longrightarrow> x \<in> reachable h s"
| waiting: "x \<in> set (marking_worklist s) \<union> set (on_hold_worklist s) \<Longrightarrow> x \<in> reachable h s"
| pointer: "t \<in> reachable h s \<Longrightarrow> c \<in> set (pointers_of h t) \<Longrightarrow> c \<in> reachable h s"
| pending: "(k, w) \<in> pending s \<Longrightarrow> k \<in> reachable h s \<Longrightarrow> w \<in> reachable h s"
| held: "t \<in> reachable h s \<Longrightarrow> (k, w) \<in> set (ephemerons_of h t) \<Longrightarrow> k \<in> reachable h s \<Longrightarrow>
         w \<in> reachable h s"


















lemma marks_more_black_keys_done:
  assumes mm: "marks_more s s'" and bkd: "black_keys_done s"
    and new: "\<forall>e \<in> set (next_ephemerons s'). e \<in> set (next_ephemerons s) \<or> markbits s' (fst e) \<noteq> Black"
  shows "black_keys_done s'"
  unfolding black_keys_done_def
proof (intro ballI impI)
  fix e assume e: "e \<in> set (next_ephemerons s')" and k: "markbits s' (fst e) = Black"
  with new have "e \<in> set (next_ephemerons s)" by blast
  moreover from k have "markbits s (fst e) = Black" using marks_more_Black [OF mm] by simp
  ultimately have "markbits s (snd e) \<noteq> White" using bkd by (auto simp: black_keys_done_def)
  then show "markbits s' (snd e) \<noteq> White" by (rule marks_more_marked [OF mm])
qed











subsection \<open>The fixpoint iteration is bounded\<close>





text \<open>
  Claim C4 as written says that the collector completes marking with the linear
  algorithm once the bound is reached.  On the same heap with concurrent marking not
  stopped, the fixpoint iteration gives up at the bound and the \<open>CHECK\<close> at the start
  of \<open>MarkTransitiveClosureLinear\<close> fails.
\<close>

definition marking_example_heap_3 :: marking_heap where
  "marking_example_heap_3 = marking_example_heap_2\<lparr>concurrent_marking_IsStopped := False\<rparr>"

lemma marking_example_heap_3_fields [simp]:
  "IsFreeSpaceOrFiller marking_example_heap_3 = (\<lambda>obj. obj = 7)"
  "pointers_of marking_example_heap_3 = (\<lambda>obj. if obj = 1 then [2, 7] else if obj = 2 then [4] else [])"
  "ephemerons_of marking_example_heap_3 = (\<lambda>obj. if obj = 1 then [(2, 3), (5, 6)] else [])"
  "visited_size_of marking_example_heap_3 = (\<lambda>obj. 16)"
  "FLAG_ephemeron_fixpoint_iterations marking_example_heap_3 = 2"
  "IsWrapperEmpty marking_example_heap_3"
  "IsRemoteTracingDone marking_example_heap_3"
  "\<not> concurrent_marking_IsStopped marking_example_heap_3"
  by (simp_all add: marking_example_heap_3_def)


subsection \<open>Clearing weak collections (ClearWeakCollections)\<close>

text \<open>
  What \<open>ClearWeakCollections\<close> reads and does not change: the collector's
  \<open>is_shared_heap_\<close> member, whether an object lies in the shared heap, the mark
  bits left by marking, and the hole value that a removed entry holds.
\<close>

record clearing_heap =
  is_shared_heap :: bool
  InSharedHeap :: "heap_object \<Rightarrow> bool"
  mark_bits :: "heap_object \<Rightarrow> colour"
  the_hole :: heap_object

text \<open>
  An \<open>EphemeronHashTable\<close> is the list of its (key, value) entries, indexed by
  \<open>InternalIndex\<close>.  The state holds the worklist of tables found by marking, the
  contents of every table, and the heap's ephemeron remembered set.
\<close>

type_synonym ephemeron_entries = "(heap_object \<times> heap_object) list"

record weak_collections =
  ephemeron_hash_tables_local :: "heap_object list"
  table_entries :: "heap_object \<Rightarrow> ephemeron_entries"
  ephemeron_remembered_set :: "(heap_object \<times> nat list) list"

text \<open>
  Modelled from the spec: \<open>EphemeronHashTable::RemoveEntry\<close> is declared outside
  this file; the spec only says that the entry is removed.  The model overwrites key and
  value of the entry with the hole and leaves every other entry alone.
\<close>

definition RemoveEntry :: "clearing_heap \<Rightarrow> nat \<Rightarrow> ephemeron_entries \<Rightarrow> ephemeron_entries" where
  "RemoveEntry h i entries = entries[i := (the_hole h, the_hole h)]"

text \<open>
  The inner \<open>for\<close> loop over the entries of one table.  The \<open>CHECK_IMPLIES\<close>
  that exists only in \<open>VERIFY_HEAP\<close> builds is not part of the model.
\<close>

fun ClearWeakCollections_entries ::
  "clearing_heap \<Rightarrow> nat list \<Rightarrow> ephemeron_entries \<Rightarrow> ephemeron_entries" where
  "ClearWeakCollections_entries h [] entries = entries"
| "ClearWeakCollections_entries h (i # rest) entries =
     (let key = fst (entries ! i) in
      if \<not> is_shared_heap h \<and> InSharedHeap h key then
        ClearWeakCollections_entries h rest entries
      else if \<not> IsBlackOrGrey (mark_bits h) key then
        ClearWeakCollections_entries h rest (RemoveEntry h i entries)
      else ClearWeakCollections_entries h rest entries)"

definition IterateEntries :: "ephemeron_entries \<Rightarrow> nat list" where
  "IterateEntries entries = [0 ..< length entries]"

text \<open>The outer loop pops tables until the worklist is empty.\<close>

function ClearWeakCollections_tables :: "clearing_heap \<Rightarrow> weak_collections \<Rightarrow> weak_collections" where
  "ClearWeakCollections_tables h s =
     (case ephemeron_hash_tables_local s of
        [] \<Rightarrow> s
      | table # rest \<Rightarrow>
          ClearWeakCollections_tables h
            (s\<lparr>ephemeron_hash_tables_local := rest,
               table_entries := (table_entries s)
                 (table := ClearWeakCollections_entries h
                             (IterateEntries (table_entries s table)) (table_entries s table))\<rparr>))"
  by pat_completeness auto
termination
  by (relation "measure (\<lambda>(h, s). length (ephemeron_hash_tables_local s))") auto

declare ClearWeakCollections_tables.simps [simp del]

text \<open>
  After the tables, the entries of the ephemeron remembered set whose table is neither
  black nor grey are erased.
\<close>

definition ClearWeakCollections :: "clearing_heap \<Rightarrow> weak_collections \<Rightarrow> weak_collections" where
  "ClearWeakCollections h s =
     (let s1 = ClearWeakCollections_tables h s in
      s1\<lparr>ephemeron_remembered_set :=
           filter (\<lambda>it. IsBlackOrGrey (mark_bits h) (fst it)) (ephemeron_remembered_set s1)\<rparr>)"

text \<open>What the loop body does to one entry, as a function of the entry alone.\<close>

definition cleared_entry :: "clearing_heap \<Rightarrow> heap_object \<times> heap_object \<Rightarrow> heap_object \<times> heap_object" where
  "cleared_entry h e =
     (if \<not> is_shared_heap h \<and> InSharedHeap h (fst e) then e
      else if \<not> IsBlackOrGrey (mark_bits h) (fst e) then (the_hole h, the_hole h)
      else e)"

lemma ClearWeakCollections_entries_length [simp]:
  "length (ClearWeakCollections_entries h is entries) = length entries"
  by (induction "is" arbitrary: entries) (auto simp: Let_def RemoveEntry_def)

definition ClearWeakCollections_step :: "clearing_heap \<Rightarrow> nat \<Rightarrow> ephemeron_entries \<Rightarrow> ephemeron_entries" where
  "ClearWeakCollections_step h i entries =
     (if \<not> is_shared_heap h \<and> InSharedHeap h (fst (entries ! i)) then entries
      else if \<not> IsBlackOrGrey (mark_bits h) (fst (entries ! i)) then RemoveEntry h i entries
      else entries)"

lemma ClearWeakCollections_entries_step:
  "ClearWeakCollections_entries h (i # rest) entries =
     ClearWeakCollections_entries h rest (ClearWeakCollections_step h i entries)"
  by (simp add: ClearWeakCollections_step_def Let_def)

lemma ClearWeakCollections_step_nth:
  "j < length entries \<Longrightarrow>
   ClearWeakCollections_step h i entries ! j =
     (if j = i then cleared_entry h (entries ! j) else entries ! j)"
  by (simp add: ClearWeakCollections_step_def RemoveEntry_def cleared_entry_def)

lemma ClearWeakCollections_step_length [simp]:
  "length (ClearWeakCollections_step h i entries) = length entries"
  by (simp add: ClearWeakCollections_step_def RemoveEntry_def)

lemma ClearWeakCollections_entries_nth:
  "distinct is \<Longrightarrow> j < length entries \<Longrightarrow>
   ClearWeakCollections_entries h is entries ! j =
     (if j \<in> set is then cleared_entry h (entries ! j) else entries ! j)"
proof (induction "is" arbitrary: entries)
  case Nil then show ?case by simp
next
  case (Cons i rest)
  have d: "distinct rest" and n: "i \<notin> set rest" using Cons.prems by auto
  have l: "j < length (ClearWeakCollections_step h i entries)" using Cons.prems by simp
  show ?case
    unfolding ClearWeakCollections_entries_step Cons.IH[OF d l]
    using n Cons.prems(2) by (auto simp: ClearWeakCollections_step_nth)
qed

lemma ClearWeakCollections_entries_map:
  "ClearWeakCollections_entries h (IterateEntries entries) entries = map (cleared_entry h) entries"
  by (rule nth_equalityI) (auto simp: ClearWeakCollections_entries_nth IterateEntries_def)

lemma ClearWeakCollections_cleared_idem: "cleared_entry h (cleared_entry h e) = cleared_entry h e"
  by (auto simp: cleared_entry_def)

lemma ClearWeakCollections_tables_entries:
  "table_entries (ClearWeakCollections_tables h s) t =
     (if t \<in> set (ephemeron_hash_tables_local s) then map (cleared_entry h) (table_entries s t)
      else table_entries s t)"
proof (induction h s rule: ClearWeakCollections_tables.induct)
  case (1 h s)
  show ?case
  proof (cases "ephemeron_hash_tables_local s")
    case Nil
    then show ?thesis by (subst ClearWeakCollections_tables.simps) simp
  next
    case (Cons table rest)
    from "1.IH"[OF Cons] Cons show ?thesis
      by (subst ClearWeakCollections_tables.simps) (auto simp: ClearWeakCollections_entries_map ClearWeakCollections_cleared_idem)
  qed
qed

lemma ClearWeakCollections_tables_drained:
  "ephemeron_hash_tables_local (ClearWeakCollections_tables h s) = []"
proof (induction h s rule: ClearWeakCollections_tables.induct)
  case (1 h s)
  show ?case
  proof (cases "ephemeron_hash_tables_local s")
    case Nil
    then show ?thesis by (subst ClearWeakCollections_tables.simps) simp
  next
    case (Cons table rest)
    from "1.IH"[OF Cons] Cons show ?thesis
      by (subst ClearWeakCollections_tables.simps) simp
  qed
qed


text \<open>
  An example: object 10 lies in the shared heap and is white, object 20 is black,
  object 30 is white; the table at 100 has one entry for each of them as key.
\<close>

definition clearing_example :: clearing_heap where
  "clearing_example =
     \<lparr>is_shared_heap = False, InSharedHeap = (\<lambda>obj. obj = 10),
      mark_bits = (\<lambda>obj. if obj = 20 then Black else White), the_hole = 0\<rparr>"

definition weak_collections_example :: weak_collections where
  "weak_collections_example =
     \<lparr>ephemeron_hash_tables_local = [100],
      table_entries = (\<lambda>t. if t = 100 then [(10, 11), (20, 21), (30, 31)] else []),
      ephemeron_remembered_set = [(100, [2]), (20, [0])]\<rparr>"

text \<open>
  Claim C10.  In a collection of a heap that is not the shared heap, an entry of an
  ephemeron hash table whose key lies in the shared heap is left unchanged, whatever the
  mark bits of the key say.  An entry changes only if its table was on the worklist and
  its key is outside the shared heap and neither black nor grey; such an entry of a table
  on the worklist is removed.
\<close>

theorem ClearWeakCollections_skips_shared_keys:
  assumes "\<not> is_shared_heap h" and "i < length (table_entries s t)"
  shows "length (table_entries (ClearWeakCollections h s) t) = length (table_entries s t)
     \<and> (InSharedHeap h (fst (table_entries s t ! i)) \<longrightarrow>
          table_entries (ClearWeakCollections h s) t ! i = table_entries s t ! i)
     \<and> (table_entries (ClearWeakCollections h s) t ! i \<noteq> table_entries s t ! i \<longrightarrow>
          t \<in> set (ephemeron_hash_tables_local s)
          \<and> \<not> InSharedHeap h (fst (table_entries s t ! i))
          \<and> \<not> IsBlackOrGrey (mark_bits h) (fst (table_entries s t ! i)))
     \<and> (t \<in> set (ephemeron_hash_tables_local s)
          \<and> \<not> InSharedHeap h (fst (table_entries s t ! i))
          \<and> \<not> IsBlackOrGrey (mark_bits h) (fst (table_entries s t ! i)) \<longrightarrow>
          table_entries (ClearWeakCollections h s) t ! i = (the_hole h, the_hole h))"
proof -
  have e: "table_entries (ClearWeakCollections h s) t =
     (if t \<in> set (ephemeron_hash_tables_local s) then map (cleared_entry h) (table_entries s t)
      else table_entries s t)"
    by (simp add: ClearWeakCollections_def Let_def ClearWeakCollections_tables_entries)
  show ?thesis
  proof (cases "t \<in> set (ephemeron_hash_tables_local s)")
    case True
    then have "table_entries (ClearWeakCollections h s) t ! i = cleared_entry h (table_entries s t ! i)"
      using e assms(2) by simp
    then show ?thesis using e True assms(1) by (auto simp: cleared_entry_def)
  next
    case False
    then show ?thesis using e by simp
  qed
qed

theorem ClearWeakCollections_skips_shared_keys_witness:
  "\<not> is_shared_heap clearing_example
   \<and> 0 < length (table_entries weak_collections_example 100)
   \<and> InSharedHeap clearing_example (fst (table_entries weak_collections_example 100 ! 0))
   \<and> \<not> IsBlackOrGrey (mark_bits clearing_example) (fst (table_entries weak_collections_example 100 ! 0))
   \<and> table_entries (ClearWeakCollections clearing_example weak_collections_example) 100 ! 0 = (10, 11)
   \<and> table_entries (ClearWeakCollections clearing_example weak_collections_example) 100
       = [(10, 11), (20, 21), (0, 0)]"
proof -
  have v: "table_entries (ClearWeakCollections clearing_example weak_collections_example) 100
       = [(10, 11), (20, 21), (0, 0)]"
    by (simp add: clearing_example_def weak_collections_example_def ClearWeakCollections_def
      Let_def ClearWeakCollections_tables_entries cleared_entry_def IsBlackOrGrey_def)
  have h: "\<not> is_shared_heap clearing_example"
    by (simp add: clearing_example_def)
  have l: "0 < length (table_entries weak_collections_example 100)"
    by (simp add: weak_collections_example_def)
  show ?thesis
    using ClearWeakCollections_skips_shared_keys[OF h l] v h l
    by (simp add: clearing_example_def weak_collections_example_def IsBlackOrGrey_def)
qed

subsection \<open>Selecting evacuation candidates (CollectEvacuationCandidates)\<close>

text \<open>
  \<open>size_t\<close> is an unsigned 64-bit integer; sums and differences wrap.  An \<open>int\<close>
  obtained by \<open>static_cast\<close> from a \<open>size_t\<close> keeps the low 32 bits, read as a
  signed number.
\<close>

definition size_t_add :: "nat \<Rightarrow> nat \<Rightarrow> nat" where
  "size_t_add a b = (a + b) mod 2 ^ 64"

definition size_t_sub :: "nat \<Rightarrow> nat \<Rightarrow> nat" where
  "size_t_sub a b = (a + 2 ^ 64 - b mod 2 ^ 64) mod 2 ^ 64"

definition size_t_of_int :: "int \<Rightarrow> nat" where
  "size_t_of_int i = nat (i mod 2 ^ 64)"

definition static_cast_int :: "nat \<Rightarrow> int" where
  "static_cast_int n =
     (let m = int (n mod 2 ^ 32) in if m < 2 ^ 31 then m else m - 2 ^ 32)"

definition MB :: nat where
  "MB = 1024 * 1024"

text \<open>
  The heap state that \<open>ComputeEvacuationHeuristics\<close> reads.  The compaction speed is
  a \<open>double\<close>; the model is given whether it is zero and the integer that the
  floating-point expression \<open>100 - 100 * kTargetMsPerArea / estimated_ms_per_area\<close>
  is cast to.
\<close>

record heap_heuristics =
  ShouldReduceMemory :: bool
  ShouldOptimizeForMemoryUsage :: bool
  CompactionSpeed_is_zero :: bool
  speed_based_fragmentation_percent :: int

definition kTargetFragmentationPercentForReduceMemory :: int where
  "kTargetFragmentationPercentForReduceMemory = 20"

definition kMaxEvacuatedBytesForReduceMemory :: nat where
  "kMaxEvacuatedBytesForReduceMemory = 12 * MB"

definition kTargetFragmentationPercentForOptimizeMemory :: int where
  "kTargetFragmentationPercentForOptimizeMemory = 20"

definition kMaxEvacuatedBytesForOptimizeMemory :: nat where
  "kMaxEvacuatedBytesForOptimizeMemory = 6 * MB"

definition kTargetFragmentationPercent :: int where
  "kTargetFragmentationPercent = 70"

definition kMaxEvacuatedBytes :: nat where
  "kMaxEvacuatedBytes = 4 * MB"

text \<open>The result is the pair (target fragmentation percent, max evacuated bytes).\<close>

definition ComputeEvacuationHeuristics :: "heap_heuristics \<Rightarrow> int \<times> nat" where
  "ComputeEvacuationHeuristics heap =
     (if ShouldReduceMemory heap then
        (kTargetFragmentationPercentForReduceMemory, kMaxEvacuatedBytesForReduceMemory)
      else if ShouldOptimizeForMemoryUsage heap then
        (kTargetFragmentationPercentForOptimizeMemory, kMaxEvacuatedBytesForOptimizeMemory)
      else
        (if \<not> CompactionSpeed_is_zero heap then
           (if speed_based_fragmentation_percent heap < kTargetFragmentationPercentForReduceMemory
            then kTargetFragmentationPercentForReduceMemory
            else speed_based_fragmentation_percent heap)
         else kTargetFragmentationPercent,
         kMaxEvacuatedBytes))"

text \<open>The flags that choose the selection path.\<close>

record selection_flags =
  FLAG_manual_evacuation_candidates_selection :: bool
  FLAG_stress_compaction_random :: bool
  FLAG_stress_compaction :: bool
  FLAG_compact_on_every_full_gc :: bool

definition in_standard_path :: "selection_flags \<Rightarrow> bool" where
  "in_standard_path fl =
     (\<not> (FLAG_manual_evacuation_candidates_selection fl \<or> FLAG_stress_compaction_random fl
         \<or> FLAG_stress_compaction fl \<or> FLAG_compact_on_every_full_gc fl))"

text \<open>
  The paged space as the function reads it: its pages in iteration order, its area size,
  the page that backs the linear allocation area (none when \<open>top() == limit()\<close>), and
  whether a page still has an \<open>OLD_TO_OLD\<close> slot set or typed slot set.  The sample
  of page indices that the fuzzer's random number generator returns is an input too.
\<close>

record paged_space =
  space_pages :: "page list"
  AreaSize :: nat
  owner_of_linear_allocation_area :: "page option"
  has_old_to_old_slot_set :: "page \<Rightarrow> bool"
  has_old_to_old_typed_slot_set :: "page \<Rightarrow> bool"
  fuzzer_sample :: "nat list"

text \<open>The collector state the function changes: the chunk headers and the candidate list.\<close>

record candidates_state =
  chunks :: chunk_store
  evacuation_candidates :: "page list"

definition AddEvacuationCandidate :: "page \<Rightarrow> candidates_state \<Rightarrow> candidates_state" where
  "AddEvacuationCandidate p s =
     s\<lparr>chunks := (chunks s)(p := SetFlag EVACUATION_CANDIDATE (chunks s p)),
       evacuation_candidates := evacuation_candidates s @ [p]\<rparr>"

text \<open>
  The first loop collects the pairs (allocated bytes, page) of the pages that qualify.
  On the standard path a page qualifies when its free bytes reach the threshold.  A failed
  \<open>CHECK\<close> ends the function with an error.
\<close>

fun collect_pages ::
  "bool \<Rightarrow> nat \<Rightarrow> paged_space \<Rightarrow> page list \<Rightarrow> chunk_store \<Rightarrow> (nat \<times> page) list \<Rightarrow>
   gc_error + chunk_store \<times> (nat \<times> page) list" where
  "collect_pages standard free_bytes_threshold space [] cs pages = Inr (cs, pages)"
| "collect_pages standard free_bytes_threshold space (p # rest) cs pages =
     (if NeverEvacuate (cs p) \<or> owner_of_linear_allocation_area space = Some p
         \<or> \<not> CanAllocate (cs p) then
        collect_pages standard free_bytes_threshold space rest cs pages
      else if IsPinned (cs p) then
        collect_pages standard free_bytes_threshold space rest cs pages
      else if IsEvacuationCandidate (cs p) \<or> has_old_to_old_slot_set space p
           \<or> has_old_to_old_typed_slot_set space p \<or> \<not> SweepingDone (cs p) then
        Inl CheckFailed
      else
        (let pages' =
           (if standard then
              (if size_t_sub (AreaSize space) (allocated_bytes (cs p)) \<ge> free_bytes_threshold
               then pages @ [(allocated_bytes (cs p), p)] else pages)
            else pages @ [(allocated_bytes (cs p), p)]);
             cs' = (if IsFlagSet (cs p) PINNED then cs(p := ClearFlag PINNED (cs p)) else cs)
         in collect_pages standard free_bytes_threshold space rest cs' pages'))"

text \<open>
  The counting loop of the last branch.  It runs over every collected page and does not
  stop at the first page that exceeds the quota.
\<close>

fun count_candidates ::
  "bool \<Rightarrow> nat \<Rightarrow> (nat \<times> page) list \<Rightarrow> int \<times> nat \<Rightarrow> int \<times> nat" where
  "count_candidates every_gc max_evacuated_bytes [] acc = acc"
| "count_candidates every_gc max_evacuated_bytes ((live, p) # rest) (candidate_count, total_live_bytes) =
     (if every_gc \<or> size_t_add total_live_bytes live \<le> max_evacuated_bytes then
        count_candidates every_gc max_evacuated_bytes rest
          (candidate_count + 1, size_t_add total_live_bytes live)
      else
        count_candidates every_gc max_evacuated_bytes rest (candidate_count, total_live_bytes))"

text \<open>
  The last branch after \<open>std::sort\<close>: count, estimate the released pages, and
  return the pages that \<open>AddEvacuationCandidate\<close> is called on, in order.
\<close>

definition select_sorted_pages ::
  "bool \<Rightarrow> nat \<Rightarrow> nat \<Rightarrow> (nat \<times> page) list \<Rightarrow> page list" where
  "select_sorted_pages every_gc area_size max_evacuated_bytes pages =
     (let (candidate_count, total_live_bytes) =
            count_candidates every_gc max_evacuated_bytes pages (0, 0);
          estimated_new_pages =
            static_cast_int (size_t_sub (size_t_add total_live_bytes area_size) 1 div area_size);
          estimated_released_pages = candidate_count - estimated_new_pages;
          candidate_count' =
            (if estimated_released_pages = 0 \<and> \<not> every_gc then 0 else candidate_count)
      in map snd (take (nat candidate_count') pages))"

text \<open>
  \<open>std::sort\<close> with the comparison \<open>a.first < b.first\<close> leaves the pages in
  ascending order of allocated bytes.  It is not a stable sort: the order it leaves
  between pages with equal allocated bytes is not specified.  The sort is therefore an
  argument \<open>std_sort\<close> of the model, and \<open>std_sort_result\<close> says what is known
  of its result on a list: it is a permutation of the list, in ascending order of the
  first components.
\<close>

type_synonym page_sort = "(nat \<times> page) list \<Rightarrow> (nat \<times> page) list"

definition std_sort_result :: "page_sort \<Rightarrow> (nat \<times> page) list \<Rightarrow> bool" where
  "std_sort_result std_sort pages \<longleftrightarrow>
     mset (std_sort pages) = mset pages \<and> sorted (map fst (std_sort pages))"

text \<open>The pages chosen by each test-only mode.\<close>

definition select_manual :: "chunk_store \<Rightarrow> (nat \<times> page) list \<Rightarrow> page list" where
  "select_manual cs pages =
     map snd (filter (\<lambda>lp. IsFlagSet (cs (snd lp)) FORCE_EVACUATION_CANDIDATE_FOR_TESTING) pages)"

definition select_random :: "nat list \<Rightarrow> (nat \<times> page) list \<Rightarrow> page list" where
  "select_random sample pages = map (\<lambda>i. snd (pages ! i)) (filter (\<lambda>i. i < length pages) sample)"

definition select_stress :: "(nat \<times> page) list \<Rightarrow> page list" where
  "select_stress pages =
     map (\<lambda>i. snd (pages ! i)) (filter (\<lambda>i. i mod 2 = 0) [0 ..< length pages])"

definition CollectEvacuationCandidates ::
  "page_sort \<Rightarrow> selection_flags \<Rightarrow> heap_heuristics \<Rightarrow> paged_space \<Rightarrow> candidates_state \<Rightarrow>
   gc_error + candidates_state" where
  "CollectEvacuationCandidates std_sort fl heap space s =
     (let area_size = AreaSize space;
          (target_fragmentation_percent, max_evacuated_bytes) = ComputeEvacuationHeuristics heap;
          free_bytes_threshold =
            (size_t_of_int target_fragmentation_percent * (area_size div 100)) mod 2 ^ 64
      in case collect_pages (in_standard_path fl) free_bytes_threshold space
                (space_pages space) (chunks s) [] of
           Inl e \<Rightarrow> Inl e
         | Inr (cs, pages) \<Rightarrow>
             (let s1 = s\<lparr>chunks := cs\<rparr> in
              if FLAG_manual_evacuation_candidates_selection fl then
                Inr (fold AddEvacuationCandidate (select_manual cs pages)
                       (s1\<lparr>chunks := (\<lambda>p. if p \<in> set (select_manual cs pages)
                                         then ClearFlag FORCE_EVACUATION_CANDIDATE_FOR_TESTING (cs p)
                                         else cs p)\<rparr>))
              else if FLAG_stress_compaction_random fl then
                Inr (fold AddEvacuationCandidate (select_random (fuzzer_sample space) pages) s1)
              else if FLAG_stress_compaction fl then
                Inr (fold AddEvacuationCandidate (select_stress pages) s1)
              else
                Inr (fold AddEvacuationCandidate
                       (select_sorted_pages (FLAG_compact_on_every_full_gc fl) area_size
                          max_evacuated_bytes (std_sort pages)) s1)))"

text \<open>
  The selection as the specification words it: walk the sorted pages and accept each
  while the running total of live bytes stays within the quota; add nothing when the
  accepted pages would not release a page.  The arithmetic is that of natural numbers.
\<close>

fun accept_greedily :: "nat \<Rightarrow> nat \<Rightarrow> (nat \<times> page) list \<Rightarrow> (nat \<times> page) list" where
  "accept_greedily quota running_total [] = []"
| "accept_greedily quota running_total ((live, p) # rest) =
     (if running_total + live \<le> quota
      then (live, p) # accept_greedily quota (running_total + live) rest
      else [])"

definition estimated_released_pages_spec :: "nat \<Rightarrow> (nat \<times> page) list \<Rightarrow> int" where
  "estimated_released_pages_spec area_size accepted =
     int (length accepted) - int ((sum_list (map fst accepted) + area_size - 1) div area_size)"

definition greedy_candidates :: "nat \<Rightarrow> nat \<Rightarrow> (nat \<times> page) list \<Rightarrow> page list" where
  "greedy_candidates area_size quota sorted_pages =
     (let accepted = accept_greedily quota 0 sorted_pages in
      if estimated_released_pages_spec area_size accepted = 0 then []
      else map snd accepted)"

lemma size_t_add_exact: "a + b < 2 ^ 64 \<Longrightarrow> size_t_add a b = a + b"
  by (simp add: size_t_add_def)

lemma wrap_sub_exact:
  fixes a b N :: nat
  assumes "b \<le> a" and "a < N"
  shows "(a + N - b mod N) mod N = a - b"
proof -
  have b: "b mod N = b" using assms by simp
  have "a + N - b = (a - b) + N" using assms by simp
  then have "(a + N - b) mod N = (a - b) mod N" by (metis mod_add_self2)
  then show ?thesis using b assms by simp
qed

lemma size_t_sub_exact: "b \<le> a \<Longrightarrow> a < 2 ^ 64 \<Longrightarrow> size_t_sub a b = a - b"
  unfolding size_t_sub_def by (rule wrap_sub_exact)

lemma static_cast_int_exact: "n < 2 ^ 31 \<Longrightarrow> static_cast_int n = int n"
proof -
  assume h: "n < 2 ^ 31"
  then have "n mod 2 ^ 32 = n" by simp
  then show ?thesis using h by (simp add: static_cast_int_def Let_def)
qed

text \<open>
  On a sorted list the counting loop accepts a prefix: once a page does not fit, no
  later page fits either.
\<close>

lemma count_candidates_none:
  "\<forall>lp \<in> set ps. max_bytes < t + fst lp \<and> t + fst lp < 2 ^ 64 \<Longrightarrow>
   count_candidates False max_bytes ps (c, t) = (c, t)"
proof (induction ps)
  case Nil then show ?case by simp
next
  case (Cons lp ps)
  obtain l p where lp: "lp = (l, p)" by (cases lp)
  have "size_t_add t l = t + l" using Cons.prems lp by (simp add: size_t_add_exact)
  then show ?case using Cons lp by simp
qed

lemma count_candidates_greedy:
  assumes "sorted (map fst ps)" and "\<forall>lp \<in> set ps. fst lp \<le> area"
    and "area + max_bytes < 2 ^ 64" and "t \<le> max_bytes"
  shows "count_candidates False max_bytes ps (c, t) =
           (c + int (length (accept_greedily max_bytes t ps)),
            t + sum_list (map fst (accept_greedily max_bytes t ps)))"
  using assms
proof (induction ps arbitrary: c t)
  case Nil then show ?case by simp
next
  case (Cons lp ps)
  obtain l p where lp: "lp = (l, p)" by (cases lp)
  have l: "l \<le> area" using Cons.prems lp by simp
  have ex: "size_t_add t l = t + l"
    using l Cons.prems(3,4) by (simp add: size_t_add_exact)
  show ?case
  proof (cases "t + l \<le> max_bytes")
    case True
    have "count_candidates False max_bytes ps (c + 1, t + l) =
           (c + 1 + int (length (accept_greedily max_bytes (t + l) ps)),
            t + l + sum_list (map fst (accept_greedily max_bytes (t + l) ps)))"
      using Cons.prems True by (intro Cons.IH) auto
    then show ?thesis using True lp ex by simp
  next
    case False
    have "\<forall>lp' \<in> set ps. max_bytes < t + fst lp' \<and> t + fst lp' < 2 ^ 64"
    proof
      fix lp' assume m: "lp' \<in> set ps"
      then have "l \<le> fst lp'" using Cons.prems(1) lp by auto
      moreover have "fst lp' \<le> area" using Cons.prems(2) m by simp
      ultimately show "max_bytes < t + fst lp' \<and> t + fst lp' < 2 ^ 64"
        using False Cons.prems(3,4) by simp
    qed
    then have "count_candidates False max_bytes ps (c, t) = (c, t)"
      by (rule count_candidates_none)
    then show ?thesis using False lp ex by simp
  qed
qed

lemma accept_greedily_prefix:
  "take (length (accept_greedily quota t ps)) ps = accept_greedily quota t ps"
  by (induction quota t ps rule: accept_greedily.induct) auto

lemma accept_greedily_length: "length (accept_greedily quota t ps) \<le> length ps"
  by (induction quota t ps rule: accept_greedily.induct) auto

lemma accept_greedily_subset: "set (accept_greedily quota t ps) \<subseteq> set ps"
  by (induction quota t ps rule: accept_greedily.induct) auto

lemma accept_greedily_quota:
  "t \<le> quota \<Longrightarrow> t + sum_list (map fst (accept_greedily quota t ps)) \<le> quota"
  by (induction quota t ps rule: accept_greedily.induct) auto

lemma sum_list_bounded: "\<forall>x \<in> set xs. x \<le> (b::nat) \<Longrightarrow> sum_list xs \<le> length xs * b"
  by (induction xs) auto

lemma select_sorted_pages_greedy:
  assumes "sorted (map fst ps)" and "\<forall>lp \<in> set ps. fst lp \<le> area" and "0 < area"
    and "area + max_bytes < 2 ^ 64" and "length ps < 2 ^ 31"
  shows "select_sorted_pages False area max_bytes ps = greedy_candidates area max_bytes ps"
proof -
  let ?acc = "accept_greedily max_bytes 0 ps"
  let ?total = "sum_list (map fst ?acc)"
  have cnt: "count_candidates False max_bytes ps (0, 0) = (int (length ?acc), ?total)"
    using count_candidates_greedy[OF assms(1,2,4), of 0 0] by simp
  have tq: "?total \<le> max_bytes" using accept_greedily_quota[of 0 max_bytes ps] by simp
  have a1: "size_t_add ?total area = ?total + area"
    using tq assms(4) by (simp add: size_t_add_exact)
  have a2: "size_t_sub (?total + area) 1 = ?total + area - 1"
    using tq assms(3,4) by (simp add: size_t_sub_exact)
  have "\<forall>x \<in> set (map fst ?acc). x \<le> area"
    using assms(2) accept_greedily_subset[of max_bytes 0 ps] by auto
  then have tb: "?total \<le> length ?acc * area"
    using sum_list_bounded[of "map fst ?acc" area] by simp
  have "(?total + area - 1) div area \<le> length ?acc"
  proof -
    have "?total + area - 1 < (length ?acc + 1) * area" using tb assms(3) by simp
    then have "(?total + area - 1) div area < length ?acc + 1"
      using assms(3) by (simp add: less_mult_imp_div_less)
    then show ?thesis by simp
  qed
  moreover have "length ?acc < 2 ^ 31"
    using accept_greedily_length[of max_bytes 0 ps] assms(5) by simp
  ultimately have a3: "static_cast_int ((?total + area - 1) div area) = int ((?total + area - 1) div area)"
    by (intro static_cast_int_exact) simp
  have en: "static_cast_int (size_t_sub (size_t_add ?total area) 1 div area)
              = int ((?total + area - 1) div area)"
    using a1 a2 a3 by simp
  have "select_sorted_pages False area max_bytes ps =
          map snd (take (nat (if int (length ?acc) - int ((?total + area - 1) div area) = 0
                              then 0 else int (length ?acc))) ps)"
    by (simp only: select_sorted_pages_def cnt Let_def split_conv en simp_thms)
  also have "\<dots> = greedy_candidates area max_bytes ps"
    by (simp add: greedy_candidates_def estimated_released_pages_spec_def Let_def
        accept_greedily_prefix del: One_nat_def)
  finally show ?thesis .
qed


text \<open>
  The eligible pages: the pairs that the first loop collects (none when a \<open>CHECK\<close>
  fails).
\<close>

definition eligible_pages ::
  "selection_flags \<Rightarrow> heap_heuristics \<Rightarrow> paged_space \<Rightarrow> candidates_state \<Rightarrow> (nat \<times> page) list" where
  "eligible_pages fl heap space s =
     (case collect_pages (in_standard_path fl)
             ((size_t_of_int (fst (ComputeEvacuationHeuristics heap)) * (AreaSize space div 100)) mod 2 ^ 64)
             space (space_pages space) (chunks s) [] of
        Inl e \<Rightarrow> []
      | Inr (cs, pages) \<Rightarrow> pages)"

lemma collect_pages_bounds:
  "collect_pages std th space ps cs acc = Inr (cs', pages) \<Longrightarrow>
   (\<forall>p. allocated_bytes (cs' p) = allocated_bytes (cs p))
   \<and> set pages \<subseteq> set acc \<union> (\<lambda>p. (allocated_bytes (cs p), p)) ` set ps
   \<and> length pages \<le> length acc + length ps"
proof (induction ps arbitrary: cs acc)
  case Nil then show ?case by simp
next
  case (Cons p ps)
  show ?case
  proof (cases "NeverEvacuate (cs p) \<or> owner_of_linear_allocation_area space = Some p
         \<or> \<not> CanAllocate (cs p) \<or> IsPinned (cs p)")
    case True
    then have "collect_pages std th space ps cs acc = Inr (cs', pages)"
      using Cons.prems by (auto split: if_splits)
    from Cons.IH[OF this] show ?thesis by auto
  next
    case False
    then have nc: "\<not> (IsEvacuationCandidate (cs p) \<or> has_old_to_old_slot_set space p
           \<or> has_old_to_old_typed_slot_set space p \<or> \<not> SweepingDone (cs p))"
      using Cons.prems by (auto split: if_splits)
    define acc' where "acc' =
           (if std then
              (if size_t_sub (AreaSize space) (allocated_bytes (cs p)) \<ge> th
               then acc @ [(allocated_bytes (cs p), p)] else acc)
            else acc @ [(allocated_bytes (cs p), p)])"
    define cs1 where "cs1 = (if IsFlagSet (cs p) PINNED then cs(p := ClearFlag PINNED (cs p)) else cs)"
    have "collect_pages std th space ps cs1 acc' = Inr (cs', pages)"
      using Cons.prems False nc by (simp add: acc'_def cs1_def Let_def)
    from Cons.IH[OF this]
    have ih: "(\<forall>q. allocated_bytes (cs' q) = allocated_bytes (cs1 q))
       \<and> set pages \<subseteq> set acc' \<union> (\<lambda>q. (allocated_bytes (cs1 q), q)) ` set ps
       \<and> length pages \<le> length acc' + length ps" .
    have ab: "\<And>q. allocated_bytes (cs1 q) = allocated_bytes (cs q)"
      by (simp add: cs1_def ClearFlag_def)
    have sa: "set acc' \<subseteq> set acc \<union> {(allocated_bytes (cs p), p)}"
      and la: "length acc' \<le> length acc + 1"
      by (auto simp: acc'_def)
    show ?thesis using ih ab sa la by auto
  qed
qed

lemma fold_AddEvacuationCandidate:
  "evacuation_candidates (fold AddEvacuationCandidate ps s) = evacuation_candidates s @ ps"
  by (induction ps arbitrary: s) (auto simp: AddEvacuationCandidate_def)

lemma fold_AddEvacuationCandidate_flag:
  "p \<in> set ps \<Longrightarrow> IsEvacuationCandidate (chunks (fold AddEvacuationCandidate ps s) p)"
proof (induction ps arbitrary: s rule: rev_induct)
  case Nil then show ?case by simp
next
  case (snoc x xs)
  then show ?case
    by (cases "p = x")
       (auto simp: AddEvacuationCandidate_def IsEvacuationCandidate_def IsFlagSet_def SetFlag_def)
qed

lemma max_evacuated_bytes_bound: "snd (ComputeEvacuationHeuristics heap) \<le> 12 * MB"
  by (simp add: ComputeEvacuationHeuristics_def kMaxEvacuatedBytesForReduceMemory_def
      kMaxEvacuatedBytesForOptimizeMemory_def kMaxEvacuatedBytes_def)

lemma CollectEvacuationCandidates_standard:
  assumes "in_standard_path fl"
  shows "CollectEvacuationCandidates std_sort fl heap space s =
     (case collect_pages True
             ((size_t_of_int (fst (ComputeEvacuationHeuristics heap)) * (AreaSize space div 100)) mod 2 ^ 64)
             space (space_pages space) (chunks s) [] of
        Inl e \<Rightarrow> Inl e
      | Inr r \<Rightarrow>
          Inr (fold AddEvacuationCandidate
                 (select_sorted_pages False (AreaSize space) (snd (ComputeEvacuationHeuristics heap))
                    (std_sort (snd r)))
                 (s\<lparr>chunks := fst r\<rparr>)))"
proof -
  have fl: "\<not> FLAG_manual_evacuation_candidates_selection fl" "\<not> FLAG_stress_compaction_random fl"
    "\<not> FLAG_stress_compaction fl" "\<not> FLAG_compact_on_every_full_gc fl"
    using assms by (auto simp: in_standard_path_def)
  show ?thesis
    unfolding CollectEvacuationCandidates_def Let_def case_prod_beta
    using assms fl by (simp split: sum.split)
qed

text \<open>
  Claim C5.  On the standard path (none of the four test flags set), when the function
  returns, the pages appended to the candidate list, each flagged as evacuation
  candidate, are exactly the ones the specification's greedy selection gives on the
  eligible pages as \<open>std::sort\<close> left them, in ascending order of allocated bytes:
  the longest prefix of the sorted pages whose running total of live bytes stays within
  \<open>max_evacuated_bytes\<close>, or no page at all when candidate count minus
  \<open>ceil(total live bytes / area size)\<close> is zero.  This holds for every result of the
  sort, whatever order it leaves between pages with equal allocated bytes.  The
  hypotheses say that the area size is positive, that no page has more allocated bytes
  than the area size, and that the sums fit \<open>size_t\<close> and the page count fits
  \<open>int\<close>.
\<close>

theorem CollectEvacuationCandidates_standard_path:
  assumes "in_standard_path fl"
    and "0 < AreaSize space" and "AreaSize space + 12 * MB < 2 ^ 64"
    and "\<forall>p \<in> set (space_pages space). allocated_bytes (chunks s p) \<le> AreaSize space"
    and "length (space_pages space) < 2 ^ 31"
    and "std_sort_result std_sort (eligible_pages fl heap space s)"
    and "CollectEvacuationCandidates std_sort fl heap space s = Inr s'"
  shows "sorted (map fst (std_sort (eligible_pages fl heap space s)))
       \<and> mset (std_sort (eligible_pages fl heap space s)) = mset (eligible_pages fl heap space s)
       \<and> evacuation_candidates s' =
           evacuation_candidates s @
             greedy_candidates (AreaSize space) (snd (ComputeEvacuationHeuristics heap))
               (std_sort (eligible_pages fl heap space s))
       \<and> (\<forall>p \<in> set (greedy_candidates (AreaSize space) (snd (ComputeEvacuationHeuristics heap))
               (std_sort (eligible_pages fl heap space s))).
            IsEvacuationCandidate (chunks s' p))"
proof -
  let ?th = "(size_t_of_int (fst (ComputeEvacuationHeuristics heap)) * (AreaSize space div 100)) mod 2 ^ 64"
  let ?mx = "snd (ComputeEvacuationHeuristics heap)"
  note std = CollectEvacuationCandidates_standard[OF assms(1), of std_sort heap space s]
  obtain cs pages where cp:
    "collect_pages True ?th space (space_pages space) (chunks s) [] = Inr (cs, pages)"
    using assms(7) unfolding std by (auto split: sum.splits)
  have el: "eligible_pages fl heap space s = pages"
    using cp assms(1) by (simp add: eligible_pages_def)
  have s': "s' = fold AddEvacuationCandidate
                  (select_sorted_pages False (AreaSize space) ?mx (std_sort pages))
                  (s\<lparr>chunks := cs\<rparr>)"
    using assms(7) unfolding std cp by simp
  from collect_pages_bounds[OF cp]
  have sub: "set pages \<subseteq> (\<lambda>p. (allocated_bytes (chunks s p), p)) ` set (space_pages space)"
    and len: "length pages \<le> length (space_pages space)" by auto
  have srt: "sorted (map fst (std_sort pages))"
    and ms: "mset (std_sort pages) = mset pages"
    using assms(6) unfolding el by (simp_all add: std_sort_result_def)
  have st: "set (std_sort pages) = set pages" using ms by (rule mset_eq_setD)
  have bnd: "\<forall>lp \<in> set (std_sort pages). fst lp \<le> AreaSize space"
    using sub assms(4) unfolding st by auto
  have "AreaSize space + ?mx < 2 ^ 64"
    using max_evacuated_bytes_bound[of heap] assms(3) by simp
  moreover have "length (std_sort pages) < 2 ^ 31"
    using len assms(5) mset_eq_length [OF ms] by simp
  ultimately have sel: "select_sorted_pages False (AreaSize space) ?mx (std_sort pages)
      = greedy_candidates (AreaSize space) ?mx (std_sort pages)"
    using select_sorted_pages_greedy[OF srt bnd assms(2)] by simp
  show ?thesis
    unfolding el using srt ms
    by (simp add: s' sel fold_AddEvacuationCandidate fold_AddEvacuationCandidate_flag)
qed


text \<open>
  An example on the standard path, in memory-reducing mode (quota 12 MB), with an area
  of 10 MB and four pages with 1, 8, 2 and 7 MB allocated.  All four are eligible; in
  sorted order the first three fit the quota (10 MB in total) and they would release two
  pages, so pages 1, 3 and 4 become candidates.
\<close>

definition selection_example_flags :: selection_flags where
  "selection_example_flags =
     \<lparr>FLAG_manual_evacuation_candidates_selection = False, FLAG_stress_compaction_random = False,
      FLAG_stress_compaction = False, FLAG_compact_on_every_full_gc = False\<rparr>"

definition selection_example_heap :: heap_heuristics where
  "selection_example_heap =
     \<lparr>ShouldReduceMemory = True, ShouldOptimizeForMemoryUsage = False,
      CompactionSpeed_is_zero = True, speed_based_fragmentation_percent = 0\<rparr>"

definition selection_example_space :: paged_space where
  "selection_example_space =
     \<lparr>space_pages = [1, 2, 3, 4], AreaSize = 10 * MB,
      owner_of_linear_allocation_area = None,
      has_old_to_old_slot_set = (\<lambda>p. False), has_old_to_old_typed_slot_set = (\<lambda>p. False),
      fuzzer_sample = []\<rparr>"

definition selection_example_state :: candidates_state where
  "selection_example_state =
     \<lparr>chunks = (\<lambda>p. empty_chunk\<lparr>allocated_bytes :=
                  (if p = 1 then 1 * MB else if p = 2 then 8 * MB
                   else if p = 3 then 2 * MB else 7 * MB)\<rparr>),
      evacuation_candidates = []\<rparr>"

lemma selection_example_eligible:
  "collect_pages True 2097140 selection_example_space [1, 2, 3, 4] (chunks selection_example_state) []
     = Inr (chunks selection_example_state, [(1 * MB, 1), (8 * MB, 2), (2 * MB, 3), (7 * MB, 4)])"
  by (simp add: selection_example_space_def selection_example_state_def empty_chunk_def MB_def
      NeverEvacuate_def IsPinned_def IsEvacuationCandidate_def IsFlagSet_def size_t_sub_def)


lemma selection_example_threshold:
  "(size_t_of_int (fst (ComputeEvacuationHeuristics selection_example_heap))
      * (AreaSize selection_example_space div 100)) mod 2 ^ 64 = 2097140"
  by (simp add: ComputeEvacuationHeuristics_def selection_example_heap_def
      selection_example_space_def kTargetFragmentationPercentForReduceMemory_def
      size_t_of_int_def MB_def)

text \<open>
  Two sorts for the examples: one keeps the order of pages with equal allocated bytes,
  the other reverses it.  Both leave a sorted permutation.
\<close>

definition sort_keeping_ties :: page_sort where
  "sort_keeping_ties pages = sort_key fst pages"

definition sort_reversing_ties :: page_sort where
  "sort_reversing_ties pages = sort_key fst (rev pages)"

lemma sort_keeping_ties_result: "std_sort_result sort_keeping_ties pages"
  by (simp add: std_sort_result_def sort_keeping_ties_def)

lemma sort_reversing_ties_result: "std_sort_result sort_reversing_ties pages"
  by (simp add: std_sort_result_def sort_reversing_ties_def)

lemma selection_example_sorted:
  "sort_reversing_ties [(1 * MB, 1), (8 * MB, 2), (2 * MB, 3), (7 * MB, 4)]
     = [(1 * MB, 1), (2 * MB, 3), (7 * MB, 4), (8 * MB, 2)]"
  by (simp add: sort_reversing_ties_def MB_def)

lemma selection_example_greedy:
  "greedy_candidates (10 * MB) (12 * MB) [(1 * MB, 1), (2 * MB, 3), (7 * MB, 4), (8 * MB, 2)]
     = [1, 3, 4]"
  by (simp add: greedy_candidates_def estimated_released_pages_spec_def MB_def Let_def)

theorem CollectEvacuationCandidates_standard_path_witness:
  "in_standard_path selection_example_flags
   \<and> 0 < AreaSize selection_example_space
   \<and> AreaSize selection_example_space + 12 * MB < 2 ^ 64
   \<and> space_pages selection_example_space = [1, 2, 3, 4]
   \<and> allocated_bytes (chunks selection_example_state 1) \<le> AreaSize selection_example_space
   \<and> allocated_bytes (chunks selection_example_state 2) \<le> AreaSize selection_example_space
   \<and> allocated_bytes (chunks selection_example_state 3) \<le> AreaSize selection_example_space
   \<and> allocated_bytes (chunks selection_example_state 4) \<le> AreaSize selection_example_space
   \<and> length (space_pages selection_example_space) < 2 ^ 31
   \<and> std_sort_result sort_reversing_ties
         (eligible_pages selection_example_flags selection_example_heap
            selection_example_space selection_example_state)
   \<and> (\<exists>s'. CollectEvacuationCandidates sort_reversing_ties selection_example_flags selection_example_heap
               selection_example_space selection_example_state = Inr s'
            \<and> evacuation_candidates s' = [1, 3, 4]
            \<and> IsEvacuationCandidate (chunks s' 4))"
proof -
  have f: "in_standard_path selection_example_flags"
    by (simp add: in_standard_path_def selection_example_flags_def)
  have a: "0 < AreaSize selection_example_space"
    and b: "AreaSize selection_example_space + 12 * MB < 2 ^ 64"
    and l: "length (space_pages selection_example_space) < 2 ^ 31"
    by (simp_all add: selection_example_space_def MB_def)
  have c: "\<forall>p \<in> set (space_pages selection_example_space).
         allocated_bytes (chunks selection_example_state p) \<le> AreaSize selection_example_space"
    by (simp add: selection_example_space_def selection_example_state_def MB_def)
  have sp: "space_pages selection_example_space = [1, 2, 3, 4]"
    by (simp add: selection_example_space_def)
  have el: "eligible_pages selection_example_flags selection_example_heap
              selection_example_space selection_example_state
            = [(1 * MB, 1), (8 * MB, 2), (2 * MB, 3), (7 * MB, 4)]"
    using f
    by (simp only: eligible_pages_def selection_example_threshold sp selection_example_eligible
        sum.case prod.case simp_thms)
  have mx: "snd (ComputeEvacuationHeuristics selection_example_heap) = 12 * MB"
    by (simp add: ComputeEvacuationHeuristics_def selection_example_heap_def
        kMaxEvacuatedBytesForReduceMemory_def)
  have ar: "AreaSize selection_example_space = 10 * MB"
    by (simp add: selection_example_space_def)
  obtain s' where s': "CollectEvacuationCandidates sort_reversing_ties selection_example_flags selection_example_heap
               selection_example_space selection_example_state = Inr s'"
    unfolding CollectEvacuationCandidates_standard[OF f] selection_example_threshold sp
      selection_example_eligible
    by simp
  have g: "greedy_candidates (AreaSize selection_example_space)
             (snd (ComputeEvacuationHeuristics selection_example_heap))
             (sort_reversing_ties (eligible_pages selection_example_flags selection_example_heap
              selection_example_space selection_example_state)) = [1, 3, 4]"
    unfolding el mx ar selection_example_sorted selection_example_greedy ..
  have e0: "evacuation_candidates selection_example_state = []"
    by (simp add: selection_example_state_def)
  have c': "allocated_bytes (chunks selection_example_state 1) \<le> AreaSize selection_example_space
      \<and> allocated_bytes (chunks selection_example_state 2) \<le> AreaSize selection_example_space
      \<and> allocated_bytes (chunks selection_example_state 3) \<le> AreaSize selection_example_space
      \<and> allocated_bytes (chunks selection_example_state 4) \<le> AreaSize selection_example_space"
    using c unfolding sp by simp
  have "evacuation_candidates s' = [1, 3, 4] \<and> IsEvacuationCandidate (chunks s' 4)"
    using CollectEvacuationCandidates_standard_path[OF f a b c l sort_reversing_ties_result s'] e0
    unfolding g by simp
  then have "\<exists>s'. CollectEvacuationCandidates sort_reversing_ties selection_example_flags selection_example_heap
               selection_example_space selection_example_state = Inr s'
            \<and> evacuation_candidates s' = [1, 3, 4]
            \<and> IsEvacuationCandidate (chunks s' 4)"
    using s' by blast
  then show ?thesis using f a b c' l sp sort_reversing_ties_result by blast
qed


text \<open>
  With 5, 6 and 7 MB allocated in an area of 10 MB, two pages fit the quota of 12 MB, but
  their 11 MB would need two new pages: nothing would be released and no page is added.
\<close>

lemma select_sorted_pages_no_release_example:
  "select_sorted_pages False (10 * MB) (12 * MB) [(5 * MB, 1), (6 * MB, 2), (7 * MB, 3)] = []"
proof -
  have "select_sorted_pages False (10 * MB) (12 * MB) [(5 * MB, 1), (6 * MB, 2), (7 * MB, 3)]
      = greedy_candidates (10 * MB) (12 * MB) [(5 * MB, 1), (6 * MB, 2), (7 * MB, 3)]"
    by (rule select_sorted_pages_greedy) (simp_all add: MB_def)
  also have "\<dots> = []"
    by (simp add: greedy_candidates_def estimated_released_pages_spec_def MB_def Let_def)
  finally show ?thesis .
qed


text \<open>
  Pages with equal allocated bytes: three pages of 5 MB in an area of 12 MB, quota 12 MB.
  Two of them fit, and which two depends on the order the sort leaves them in.
\<close>

lemma select_sorted_pages_ties_example:
  "select_sorted_pages False (12 * MB) (12 * MB)
     (sort_keeping_ties [(5 * MB, 1), (5 * MB, 2), (5 * MB, 3)]) = [1, 2] \<and>
   select_sorted_pages False (12 * MB) (12 * MB)
     (sort_reversing_ties [(5 * MB, 1), (5 * MB, 2), (5 * MB, 3)]) = [3, 2]"
proof -
  have k: "sort_keeping_ties [(5 * MB, 1), (5 * MB, 2), (5 * MB, 3)]
             = [(5 * MB, 1), (5 * MB, 2), (5 * MB, 3)]"
    and r: "sort_reversing_ties [(5 * MB, 1), (5 * MB, 2), (5 * MB, 3)]
             = [(5 * MB, 3), (5 * MB, 2), (5 * MB, 1)]"
    by (simp_all add: sort_keeping_ties_def sort_reversing_ties_def MB_def)
  have "select_sorted_pages False (12 * MB) (12 * MB) [(5 * MB, 1), (5 * MB, 2), (5 * MB, 3)]
      = greedy_candidates (12 * MB) (12 * MB) [(5 * MB, 1), (5 * MB, 2), (5 * MB, 3)]"
    by (rule select_sorted_pages_greedy) (simp_all add: MB_def)
  moreover have "select_sorted_pages False (12 * MB) (12 * MB) [(5 * MB, 3), (5 * MB, 2), (5 * MB, 1)]
      = greedy_candidates (12 * MB) (12 * MB) [(5 * MB, 3), (5 * MB, 2), (5 * MB, 1)]"
    by (rule select_sorted_pages_greedy) (simp_all add: MB_def)
  ultimately show ?thesis
    unfolding k r
    by (simp add: greedy_candidates_def estimated_released_pages_spec_def MB_def Let_def)
qed
subsection \<open>Evacuation: the state and the visitors\<close>

text \<open>
  A map word holds the pointer to the object's map or, after the object has been copied,
  the forwarding address.  A tagged slot holds a small integer, a strong or weak
  reference, or the cleared weak reference.
\<close>

datatype map_word = MapPointer heap_object | ForwardingAddress heap_object

datatype tagged = Smi | StrongRef heap_object | WeakRef heap_object | ClearedWeakRef

datatype RememberedSetType = OLD_TO_NEW | OLD_TO_OLD | OLD_TO_CODE | OLD_TO_SHARED

datatype AlwaysPromoteYoung = kYes | kNo

datatype EvacuationMode = kObjectsNewToOld | kPageNewToOld | kObjectsOldToOld | kPageNewToNew

text \<open>
  What the evacuator is given and does not change: the page of an address, the objects
  of a page in address order (what \<open>LiveObjectRange\<close> walks), the size of an object,
  properties of an object's map, the answers of \<open>Heap\<close> queries, and the flags.
  \<open>Rebalance_succeeds\<close> is the result of \<open>NewSpace::Rebalance\<close>.
\<close>

record evacuation_heap =
  page_of :: "nat \<Rightarrow> page"
  objects_on :: "page \<Rightarrow> heap_object list"
  object_size :: "heap_object \<Rightarrow> int"
  IsThinString :: "heap_object \<Rightarrow> bool"
  ThinString_actual :: "heap_object \<Rightarrow> heap_object"
  IsInPlaceInternalizable :: "heap_object \<Rightarrow> bool"
  ShouldBePromoted :: "heap_object \<Rightarrow> bool"
  heap_ShouldReduceMemory :: bool
  CanExpandOldGeneration :: "int \<Rightarrow> bool"
  Contains_age_mark :: "page \<Rightarrow> bool"
  AllocatableMemoryInDataPage :: nat
  kTaggedSize :: nat
  IsGCWithoutStack :: bool
  Rebalance_succeeds :: bool
  V8_EXTERNAL_CODE_SPACE_BOOL :: bool
  is_incremental_marking :: bool
  shared_string_table :: bool
  FLAG_page_promotion :: bool
  FLAG_page_promotion_threshold :: int
  FLAG_crash_on_aborted_evacuation :: bool
  FLAG_compact_with_stack :: bool
  FLAG_compact_code_space_with_stack :: bool
  FLAG_minor_mc :: bool
  FLAG_minor_mc_sweeping :: bool

text \<open>
  The state that evacuation changes, on top of the chunk headers and the candidate list:
  the mark bits, the map words, the tagged slots of each object and the contents of
  memory at slot addresses, the slot sets and typed slot sets of each chunk (absent when
  \<open>None\<close>), the invalidated objects of each chunk, the pretenuring feedback, the
  evacuator's counters, the collector's page lists, the pages handed to the sweeper, the
  pages released, and the chunk list of each space.

  The allocators are outside this file.  Each allocation request takes the next answer
  from \<open>allocation_answers\<close>: the address of the new object, or \<open>None\<close> when the
  allocation fails (also when no answer is left).  The evacuators run one page after
  the other.
\<close>

record evacuation_state = candidates_state +
  bitmap :: "heap_object \<Rightarrow> colour"
  map_words :: "heap_object \<Rightarrow> map_word"
  object_slots :: "heap_object \<Rightarrow> nat list"
  memory :: "nat \<Rightarrow> tagged"
  slot_set :: "page \<Rightarrow> RememberedSetType \<Rightarrow> nat list option"
  typed_slot_set :: "page \<Rightarrow> RememberedSetType \<Rightarrow> nat list option"
  invalidated_slots :: "page \<Rightarrow> RememberedSetType \<Rightarrow> heap_object list option"
  allocation_answers :: "heap_object option list"
  pretenuring_feedback :: "heap_object list"
  promoted_size :: int
  semispace_copied_size :: int
  new_to_old_moved_bytes :: int
  new_to_new_moved_bytes :: int
  new_space_evacuation_pages :: "page list"
  old_space_evacuation_pages :: "page list"
  new_lo_space :: "page list"
  promoted_large_pages :: "page list"
  aborted_evacuation_candidates_due_to_oom :: "(nat \<times> page) list"
  aborted_evacuation_candidates_due_to_flags :: "(nat \<times> page) list"
  sweeper_added :: "(AllocationSpace \<times> page) list"
  ReleasePage_calls :: "page list"
  owner_memory_chunk_list :: "AllocationSpace \<Rightarrow> page list"

definition InYoungGeneration :: "memory_chunk \<Rightarrow> bool" where
  "InYoungGeneration c = (IsFlagSet c FROM_PAGE \<or> IsFlagSet c TO_PAGE)"

definition IsLargePage :: "memory_chunk \<Rightarrow> bool" where
  "IsLargePage c = IsFlagSet c LARGE_PAGE"

definition update_chunk ::
  "page \<Rightarrow> (memory_chunk \<Rightarrow> memory_chunk) \<Rightarrow> 'a candidates_state_scheme \<Rightarrow> 'a candidates_state_scheme" where
  "update_chunk p f s = s\<lparr>chunks := (chunks s)(p := f (chunks s p))\<rparr>"

text \<open>The allocator protocol: take the next answer.\<close>

definition Allocate ::
  "'a evacuation_state_scheme \<Rightarrow> heap_object option \<times> 'a evacuation_state_scheme" where
  "Allocate s =
     (case allocation_answers s of
        [] \<Rightarrow> (None, s)
      | answer # rest \<Rightarrow> (answer, s\<lparr>allocation_answers := rest\<rparr>))"

text \<open>
  Modelled from the spec: \<open>RememberedSet::Insert\<close>, \<open>RemoveRange\<close> and
  \<open>RemoveRangeTyped\<close> are declared outside this file.  A slot set stores slots by
  address (here as a list without repetitions); inserting into an absent set allocates
  it; removing a range drops the slots with \<open>start \<le> address < end\<close>.
\<close>

definition RememberedSet_Insert ::
  "RememberedSetType \<Rightarrow> page \<Rightarrow> nat \<Rightarrow> 'a evacuation_state_scheme \<Rightarrow> 'a evacuation_state_scheme" where
  "RememberedSet_Insert t chunk slot s =
     s\<lparr>slot_set := (slot_set s)(chunk := (slot_set s chunk)
          (t := Some (List.insert slot (case slot_set s chunk t of None \<Rightarrow> [] | Some slots \<Rightarrow> slots))))\<rparr>"

definition RememberedSet_RemoveRange ::
  "RememberedSetType \<Rightarrow> page \<Rightarrow> nat \<Rightarrow> nat \<Rightarrow> 'a evacuation_state_scheme \<Rightarrow> 'a evacuation_state_scheme" where
  "RememberedSet_RemoveRange t chunk start end s =
     s\<lparr>slot_set := (slot_set s)(chunk := (slot_set s chunk)
          (t := map_option (filter (\<lambda>a. \<not> (start \<le> a \<and> a < end))) (slot_set s chunk t)))\<rparr>"

definition RememberedSet_RemoveRangeTyped ::
  "RememberedSetType \<Rightarrow> page \<Rightarrow> nat \<Rightarrow> nat \<Rightarrow> 'a evacuation_state_scheme \<Rightarrow> 'a evacuation_state_scheme" where
  "RememberedSet_RemoveRangeTyped t chunk start end s =
     s\<lparr>typed_slot_set := (typed_slot_set s)(chunk := (typed_slot_set s chunk)
          (t := map_option (filter (\<lambda>a. \<not> (start \<le> a \<and> a < end))) (typed_slot_set s chunk t)))\<rparr>"

text \<open>
  Modelled from the spec: \<open>InvalidatedSlotsCleanup::Free\<close> is declared outside this
  file; it forgets the invalidated objects that lie in the freed range.
\<close>

definition InvalidatedSlotsCleanup_Free ::
  "RememberedSetType \<Rightarrow> page \<Rightarrow> nat \<Rightarrow> nat \<Rightarrow> 'a evacuation_state_scheme \<Rightarrow> 'a evacuation_state_scheme" where
  "InvalidatedSlotsCleanup_Free t chunk start end s =
     s\<lparr>invalidated_slots := (invalidated_slots s)(chunk := (invalidated_slots s chunk)
          (t := map_option (filter (\<lambda>a. \<not> (start \<le> a \<and> a < end))) (invalidated_slots s chunk t)))\<rparr>"

text \<open>
  The record visitor.  \<open>RecordMigratedSlot\<close> is virtual: the young-generation
  evacuator overrides it and records a slot into an evacuation candidate only for a host
  that the full collector has marked black.  Objects in this model have plain tagged
  slots; the visitor's cases for ephemeron hash tables and for relocation information of
  code objects are not modelled.
\<close>

datatype record_visitor = RecordMigratedSlotVisitor | YoungGenerationRecordMigratedSlotVisitor

definition RecordMigratedSlot_target ::
  "evacuation_heap \<Rightarrow> record_visitor \<Rightarrow> heap_object \<Rightarrow> heap_object \<Rightarrow> nat \<Rightarrow>
   'a evacuation_state_scheme \<Rightarrow> 'a evacuation_state_scheme" where
  "RecordMigratedSlot_target h rv host target slot s =
     (let p = chunks s (page_of h target); chunk = page_of h host in
      if InYoungGeneration p then RememberedSet_Insert OLD_TO_NEW chunk slot s
      else if IsEvacuationCandidate p
              \<and> (rv = YoungGenerationRecordMigratedSlotVisitor \<longrightarrow> IsBlack (bitmap s) host) then
        (if V8_EXTERNAL_CODE_SPACE_BOOL h \<and> IsFlagSet p IS_EXECUTABLE
         then RememberedSet_Insert OLD_TO_CODE chunk slot s
         else RememberedSet_Insert OLD_TO_OLD chunk slot s)
      else s)"

definition RecordMigratedSlot ::
  "evacuation_heap \<Rightarrow> record_visitor \<Rightarrow> heap_object \<Rightarrow> tagged \<Rightarrow> nat \<Rightarrow>
   'a evacuation_state_scheme \<Rightarrow> 'a evacuation_state_scheme" where
  "RecordMigratedSlot h rv host v slot s =
     (case v of
        StrongRef target \<Rightarrow> RecordMigratedSlot_target h rv host target slot s
      | WeakRef target \<Rightarrow> RecordMigratedSlot_target h rv host target slot s
      | _ \<Rightarrow> s)"

text \<open>
  \<open>IterateBodyFast\<close> visits the tagged slots of the body; \<open>IterateFast\<close> visits
  the map slot (at the object's address) first.
\<close>

definition IterateBodyFast ::
  "evacuation_heap \<Rightarrow> record_visitor \<Rightarrow> heap_object \<Rightarrow>
   'a evacuation_state_scheme \<Rightarrow> 'a evacuation_state_scheme" where
  "IterateBodyFast h rv obj s =
     fold (\<lambda>slot s'. RecordMigratedSlot h rv obj (memory s' slot) slot s') (object_slots s obj) s"

definition IterateFast ::
  "evacuation_heap \<Rightarrow> record_visitor \<Rightarrow> heap_object \<Rightarrow>
   'a evacuation_state_scheme \<Rightarrow> 'a evacuation_state_scheme" where
  "IterateFast h rv obj s =
     IterateBodyFast h rv obj
       (case map_words s obj of
          MapPointer m \<Rightarrow> RecordMigratedSlot h rv obj (StrongRef m) obj s
        | ForwardingAddress a \<Rightarrow> s)"

text \<open>
  \<open>Heap::CopyBlock\<close> copies the words of the object: the copy has the source's map
  word and the source's slots, each at the same offset, with the same contents.
\<close>

definition CopyBlock ::
  "heap_object \<Rightarrow> heap_object \<Rightarrow> 'a evacuation_state_scheme \<Rightarrow> 'a evacuation_state_scheme" where
  "CopyBlock dst src s =
     (let dst_slots = map (\<lambda>a. a - src + dst) (object_slots s src) in
      s\<lparr>map_words := (map_words s)(dst := map_words s src),
        object_slots := (object_slots s)(dst := dst_slots),
        memory := (\<lambda>a. if a \<in> set dst_slots then memory s (a - dst + src) else memory s a)\<rparr>)"

text \<open>
  \<open>RawMigrateObject\<close>.  The migration observers and the relocation of code are not
  modelled.  The last statement installs the forwarding address in the source.
\<close>

definition MigrateObject ::
  "evacuation_heap \<Rightarrow> record_visitor \<Rightarrow> heap_object \<Rightarrow> heap_object \<Rightarrow> int \<Rightarrow> AllocationSpace \<Rightarrow>
   'a evacuation_state_scheme \<Rightarrow> 'a evacuation_state_scheme" where
  "MigrateObject h rv dst src sz dest s =
     (let s1 = CopyBlock dst src s;
          s2 = (if dest = OLD_SPACE \<or> dest = MAP_SPACE \<or> dest = CODE_SPACE
                then IterateFast h rv dst s1 else s1)
      in s2\<lparr>map_words := (map_words s2)(src := ForwardingAddress dst)\<rparr>)"

text \<open>
  \<open>TryEvacuateObject\<close>.  Both the shared-old allocator and the local allocator take
  the next allocation answer.  The test hook that exists only in debug builds
  (\<open>AbortCompactionForTesting\<close>) is not modelled.
\<close>

definition ShouldPromoteIntoSharedHeap :: "evacuation_heap \<Rightarrow> heap_object \<Rightarrow> bool" where
  "ShouldPromoteIntoSharedHeap h obj =
     (if shared_string_table h then IsInPlaceInternalizable h obj else False)"

definition TryEvacuateObject ::
  "evacuation_heap \<Rightarrow> record_visitor \<Rightarrow> AllocationSpace \<Rightarrow> heap_object \<Rightarrow> int \<Rightarrow>
   'a evacuation_state_scheme \<Rightarrow> bool \<times> 'a evacuation_state_scheme" where
  "TryEvacuateObject h rv target_space obj sz s =
     (case Allocate s of
        (Some target_object, s1) \<Rightarrow> (True, MigrateObject h rv target_object obj sz target_space s1)
      | (None, s1) \<Rightarrow> (False, s1))"

definition UpdateAllocationSite ::
  "heap_object \<Rightarrow> 'a evacuation_state_scheme \<Rightarrow> 'a evacuation_state_scheme" where
  "UpdateAllocationSite obj s = s\<lparr>pretenuring_feedback := pretenuring_feedback s @ [obj]\<rparr>"

definition IsOnEvacuationCandidate ::
  "evacuation_heap \<Rightarrow> 'a evacuation_state_scheme \<Rightarrow> heap_object \<Rightarrow> bool" where
  "IsOnEvacuationCandidate h s obj = IsEvacuationCandidate (chunks s (page_of h obj))"

definition TryEvacuateWithoutCopy ::
  "evacuation_heap \<Rightarrow> heap_object \<Rightarrow> 'a evacuation_state_scheme \<Rightarrow> bool \<times> 'a evacuation_state_scheme" where
  "TryEvacuateWithoutCopy h obj s =
     (if is_incremental_marking h then (False, s)
      else if IsThinString h obj then
        (let actual = ThinString_actual h obj in
         if IsOnEvacuationCandidate h s actual then (False, s)
         else (True, s\<lparr>map_words := (map_words s)(obj := ForwardingAddress actual)\<rparr>))
      else (False, s))"

text \<open>
  An evacuator is built with the promotion policy and the record visitor:
  \<open>FullEvacuator\<close> with \<open>kYes\<close> and \<open>RecordMigratedSlotVisitor\<close>,
  \<open>YoungGenerationEvacuator\<close> with \<open>kNo\<close> and the young-generation visitor.
\<close>

record evacuator =
  always_promote_young :: AlwaysPromoteYoung
  the_record_visitor :: record_visitor

definition FullEvacuator :: evacuator where
  "FullEvacuator = \<lparr>always_promote_young = kYes, the_record_visitor = RecordMigratedSlotVisitor\<rparr>"

definition YoungGenerationEvacuator :: evacuator where
  "YoungGenerationEvacuator =
     \<lparr>always_promote_young = kNo, the_record_visitor = YoungGenerationRecordMigratedSlotVisitor\<rparr>"

text \<open>
  \<open>AllocateTargetObject\<close> with \<open>AllocateInOldSpace\<close>: try new space, fall back to
  old space, and die when that fails too.  The result is the space allocated in and the
  target.
\<close>

definition AllocateTargetObject ::
  "'a evacuation_state_scheme \<Rightarrow> gc_error + (AllocationSpace \<times> heap_object) \<times> 'a evacuation_state_scheme" where
  "AllocateTargetObject s =
     (case Allocate s of
        (Some target, s1) \<Rightarrow> Inr ((NEW_SPACE, target), s1)
      | (None, s1) \<Rightarrow>
          (case Allocate s1 of
             (Some target, s2) \<Rightarrow> Inr ((OLD_SPACE, target), s2)
           | (None, s2) \<Rightarrow> Inl FatalProcessOutOfMemory))"

text \<open>
  \<open>EvacuateNewSpaceVisitor::Visit\<close>.  The result is an error when the process dies,
  and otherwise the value returned (always \<open>true\<close>) with the new state.
\<close>

definition semispace_copy ::
  "evacuation_heap \<Rightarrow> evacuator \<Rightarrow> heap_object \<Rightarrow> int \<Rightarrow>
   'a evacuation_state_scheme \<Rightarrow> gc_error + bool \<times> 'a evacuation_state_scheme" where
  "semispace_copy h ev obj sz s =
     (case AllocateTargetObject (UpdateAllocationSite obj s) of
        Inl e \<Rightarrow> Inl e
      | Inr ((space, target), s1) \<Rightarrow>
          (let s2 = MigrateObject h (the_record_visitor ev) target obj sz space s1
           in Inr (True, s2\<lparr>semispace_copied_size := semispace_copied_size s2 + sz\<rparr>)))"

definition EvacuateNewSpaceVisitor_Visit ::
  "evacuation_heap \<Rightarrow> evacuator \<Rightarrow> heap_object \<Rightarrow> int \<Rightarrow>
   'a evacuation_state_scheme \<Rightarrow> gc_error + bool \<times> 'a evacuation_state_scheme" where
  "EvacuateNewSpaceVisitor_Visit h ev obj sz s =
     (case TryEvacuateWithoutCopy h obj s of
        (True, s0) \<Rightarrow> Inr (True, s0)
      | (False, s0) \<Rightarrow>
          if always_promote_young ev = kYes then
            (case TryEvacuateObject h (the_record_visitor ev) OLD_SPACE obj sz
                    (UpdateAllocationSite obj s0) of
               (False, s1) \<Rightarrow> Inl FatalProcessOutOfMemory
             | (True, s1) \<Rightarrow> Inr (True, s1\<lparr>promoted_size := promoted_size s1 + sz\<rparr>))
          else if ShouldBePromoted h obj then
            (case TryEvacuateObject h (the_record_visitor ev) OLD_SPACE obj sz s0 of
               (True, s1) \<Rightarrow> Inr (True, s1\<lparr>promoted_size := promoted_size s1 + sz\<rparr>)
             | (False, s1) \<Rightarrow> semispace_copy h ev obj sz s1)
          else semispace_copy h ev obj sz s0)"

text \<open>
  \<open>EvacuateNewSpacePageVisitor\<close>, for a page that is promoted as a whole.
  \<open>Move\<close> is modelled from the spec (only the page ownership flips):
  \<open>MovePageFromSpaceToSpace\<close> makes a from-page a to-page, and
  \<open>ConvertNewToOld\<close> takes the page out of the young generation and gives it to
  old space.  \<open>Visit\<close> is the source's.
\<close>

datatype PageEvacuationMode = NEW_TO_NEW | NEW_TO_OLD

definition Move ::
  "PageEvacuationMode \<Rightarrow> page \<Rightarrow> 'a evacuation_state_scheme \<Rightarrow> 'a evacuation_state_scheme" where
  "Move mode p s =
     (case mode of
        NEW_TO_NEW \<Rightarrow>
          update_chunk p (SetFlag PAGE_NEW_NEW_PROMOTION)
            (update_chunk p (\<lambda>c. SetFlag TO_PAGE (ClearFlag FROM_PAGE c)) s)
      | NEW_TO_OLD \<Rightarrow>
          update_chunk p (SetFlag PAGE_NEW_OLD_PROMOTION)
            (update_chunk p (\<lambda>c. (ClearFlag TO_PAGE (ClearFlag FROM_PAGE c))\<lparr>owner_identity := OLD_SPACE\<rparr>)
               (s\<lparr>owner_memory_chunk_list := (owner_memory_chunk_list s)
                     (NEW_SPACE := remove1 p (owner_memory_chunk_list s NEW_SPACE),
                      OLD_SPACE := owner_memory_chunk_list s OLD_SPACE @ [p])\<rparr>)))"

definition EvacuateNewSpacePageVisitor_Visit ::
  "evacuation_heap \<Rightarrow> evacuator \<Rightarrow> PageEvacuationMode \<Rightarrow> heap_object \<Rightarrow> int \<Rightarrow>
   'a evacuation_state_scheme \<Rightarrow> gc_error + bool \<times> 'a evacuation_state_scheme" where
  "EvacuateNewSpacePageVisitor_Visit h ev mode obj sz s =
     (case mode of
        NEW_TO_NEW \<Rightarrow> Inr (True, UpdateAllocationSite obj s)
      | NEW_TO_OLD \<Rightarrow> Inr (True, IterateFast h (the_record_visitor ev) obj s))"

definition EvacuateOldSpaceVisitor_Visit ::
  "evacuation_heap \<Rightarrow> evacuator \<Rightarrow> heap_object \<Rightarrow> int \<Rightarrow>
   'a evacuation_state_scheme \<Rightarrow> gc_error + bool \<times> 'a evacuation_state_scheme" where
  "EvacuateOldSpaceVisitor_Visit h ev obj sz s =
     Inr (TryEvacuateObject h (the_record_visitor ev)
            (owner_identity (chunks s (page_of h obj))) obj sz s)"

definition EvacuateRecordOnlyVisitor_Visit ::
  "evacuation_heap \<Rightarrow> heap_object \<Rightarrow> int \<Rightarrow>
   'a evacuation_state_scheme \<Rightarrow> gc_error + bool \<times> 'a evacuation_state_scheme" where
  "EvacuateRecordOnlyVisitor_Visit h obj sz s =
     Inr (True, IterateBodyFast h RecordMigratedSlotVisitor obj s)"

datatype visitor =
    EvacuateNewSpaceVisitor
  | EvacuateNewSpacePageVisitor PageEvacuationMode
  | EvacuateOldSpaceVisitor
  | EvacuateRecordOnlyVisitor

definition Visit ::
  "evacuation_heap \<Rightarrow> evacuator \<Rightarrow> visitor \<Rightarrow> heap_object \<Rightarrow> int \<Rightarrow>
   'a evacuation_state_scheme \<Rightarrow> gc_error + bool \<times> 'a evacuation_state_scheme" where
  "Visit h ev v obj sz s =
     (case v of
        EvacuateNewSpaceVisitor \<Rightarrow> EvacuateNewSpaceVisitor_Visit h ev obj sz s
      | EvacuateNewSpacePageVisitor mode \<Rightarrow> EvacuateNewSpacePageVisitor_Visit h ev mode obj sz s
      | EvacuateOldSpaceVisitor \<Rightarrow> EvacuateOldSpaceVisitor_Visit h ev obj sz s
      | EvacuateRecordOnlyVisitor \<Rightarrow> EvacuateRecordOnlyVisitor_Visit h obj sz s)"

subsection \<open>Evacuation: visiting the live objects of a page\<close>

datatype IterationMode = kKeepMarking | kClearMarkbits

text \<open>
  Modelled from the spec: the marking state's \<open>ClearLiveness\<close> and the bitmap's
  \<open>ClearRange\<close> are declared outside this file.  \<open>ClearLiveness\<close> makes every
  object of the chunk white and sets the chunk's live bytes to zero; \<open>ClearRange\<close>
  makes the objects of the chunk in an address range white.
\<close>

definition ClearLiveness ::
  "evacuation_heap \<Rightarrow> page \<Rightarrow> 'a evacuation_state_scheme \<Rightarrow> 'a evacuation_state_scheme" where
  "ClearLiveness h chunk s =
     update_chunk chunk (\<lambda>c. c\<lparr>live_bytes := 0\<rparr>)
       (s\<lparr>bitmap := (\<lambda>obj. if page_of h obj = chunk then White else bitmap s obj)\<rparr>)"

definition ClearRange ::
  "evacuation_heap \<Rightarrow> page \<Rightarrow> nat \<Rightarrow> nat \<Rightarrow> 'a evacuation_state_scheme \<Rightarrow> 'a evacuation_state_scheme" where
  "ClearRange h chunk start end s =
     s\<lparr>bitmap := (\<lambda>obj. if page_of h obj = chunk \<and> start \<le> obj \<and> obj < end
                        then White else bitmap s obj)\<rparr>"

text \<open>
  The loop of \<open>VisitBlackObjects\<close> over \<open>LiveObjectRange<kBlackObjects>\<close>: the
  objects of the page in address order, each visited if it is black when the iteration
  reaches it.  The result names the object whose visit returned \<open>false\<close>, if any.
\<close>

fun VisitBlackObjects_loop ::
  "evacuation_heap \<Rightarrow> evacuator \<Rightarrow> visitor \<Rightarrow> heap_object list \<Rightarrow>
   'a evacuation_state_scheme \<Rightarrow> gc_error + heap_object option \<times> 'a evacuation_state_scheme" where
  "VisitBlackObjects_loop h ev v [] s = Inr (None, s)"
| "VisitBlackObjects_loop h ev v (obj # rest) s =
     (if IsBlack (bitmap s) obj then
        (case Visit h ev v obj (object_size h obj) s of
           Inl e \<Rightarrow> Inl e
         | Inr (True, s1) \<Rightarrow> VisitBlackObjects_loop h ev v rest s1
         | Inr (False, s1) \<Rightarrow> Inr (Some obj, s1))
      else VisitBlackObjects_loop h ev v rest s)"

text \<open>The result is (success, failed object, state).\<close>

definition VisitBlackObjects ::
  "evacuation_heap \<Rightarrow> evacuator \<Rightarrow> page \<Rightarrow> visitor \<Rightarrow> IterationMode \<Rightarrow>
   'a evacuation_state_scheme \<Rightarrow>
   gc_error + bool \<times> heap_object option \<times> 'a evacuation_state_scheme" where
  "VisitBlackObjects h ev chunk v iteration_mode s =
     (case VisitBlackObjects_loop h ev v (objects_on h chunk) s of
        Inl e \<Rightarrow> Inl e
      | Inr (Some obj, s1) \<Rightarrow>
          (if iteration_mode = kClearMarkbits
           then Inr (False, Some obj, ClearRange h chunk (area_start (chunks s1 chunk)) obj s1)
           else Inr (False, None, s1))
      | Inr (None, s1) \<Rightarrow>
          Inr (True, None,
               if iteration_mode = kClearMarkbits then ClearLiveness h chunk s1 else s1))"

text \<open>
  \<open>VisitBlackObjectsNoFail\<close> ignores the value a visit returns (it is only checked by
  a \<open>DCHECK\<close>).  A large page holds one object.
\<close>

fun VisitBlackObjectsNoFail_loop ::
  "evacuation_heap \<Rightarrow> evacuator \<Rightarrow> visitor \<Rightarrow> heap_object list \<Rightarrow>
   'a evacuation_state_scheme \<Rightarrow> gc_error + 'a evacuation_state_scheme" where
  "VisitBlackObjectsNoFail_loop h ev v [] s = Inr s"
| "VisitBlackObjectsNoFail_loop h ev v (obj # rest) s =
     (if IsBlack (bitmap s) obj then
        (case Visit h ev v obj (object_size h obj) s of
           Inl e \<Rightarrow> Inl e
         | Inr (success, s1) \<Rightarrow> VisitBlackObjectsNoFail_loop h ev v rest s1)
      else VisitBlackObjectsNoFail_loop h ev v rest s)"

definition VisitBlackObjectsNoFail ::
  "evacuation_heap \<Rightarrow> evacuator \<Rightarrow> page \<Rightarrow> visitor \<Rightarrow> IterationMode \<Rightarrow>
   'a evacuation_state_scheme \<Rightarrow> gc_error + 'a evacuation_state_scheme" where
  "VisitBlackObjectsNoFail h ev chunk v iteration_mode s =
     (case VisitBlackObjectsNoFail_loop h ev v
             (if IsLargePage (chunks s chunk) then take 1 (objects_on h chunk)
              else objects_on h chunk) s of
        Inl e \<Rightarrow> Inl e
      | Inr s1 \<Rightarrow>
          Inr (if iteration_mode = kClearMarkbits then ClearLiveness h chunk s1 else s1))"

text \<open>
  \<open>RecomputeLiveBytes\<close> sums the sizes over \<open>LiveObjectRange<kAllLiveObjects>\<close>,
  the black and the grey objects of the page.
\<close>

definition RecomputeLiveBytes ::
  "evacuation_heap \<Rightarrow> page \<Rightarrow> 'a evacuation_state_scheme \<Rightarrow> 'a evacuation_state_scheme" where
  "RecomputeLiveBytes h chunk s =
     update_chunk chunk
       (\<lambda>c. c\<lparr>live_bytes :=
                sum_list (map (object_size h)
                  (filter (IsBlackOrGrey (bitmap s)) (objects_on h chunk)))\<rparr>) s"

subsection \<open>Evacuation: one page\<close>

definition ComputeEvacuationMode :: "memory_chunk \<Rightarrow> EvacuationMode" where
  "ComputeEvacuationMode chunk =
     (if IsFlagSet chunk PAGE_NEW_OLD_PROMOTION then kPageNewToOld
      else if IsFlagSet chunk PAGE_NEW_NEW_PROMOTION then kPageNewToNew
      else if InYoungGeneration chunk then kObjectsNewToOld
      else kObjectsOldToOld)"

definition ReportAbortedEvacuationCandidateDueToOOM ::
  "nat \<Rightarrow> page \<Rightarrow> 'a evacuation_state_scheme \<Rightarrow> 'a evacuation_state_scheme" where
  "ReportAbortedEvacuationCandidateDueToOOM failed_start p s =
     s\<lparr>aborted_evacuation_candidates_due_to_oom :=
          aborted_evacuation_candidates_due_to_oom s @ [(failed_start, p)]\<rparr>"

definition ReportAbortedEvacuationCandidateDueToFlags ::
  "nat \<Rightarrow> page \<Rightarrow> 'a evacuation_state_scheme \<Rightarrow> 'a evacuation_state_scheme" where
  "ReportAbortedEvacuationCandidateDueToFlags failed_start p s =
     s\<lparr>aborted_evacuation_candidates_due_to_flags :=
          aborted_evacuation_candidates_due_to_flags s @ [(failed_start, p)]\<rparr>"

text \<open>\<open>FullEvacuator::RawEvacuatePage\<close>; the evacuator is \<open>FullEvacuator\<close>.\<close>

definition RawEvacuatePage ::
  "evacuation_heap \<Rightarrow> page \<Rightarrow> 'a evacuation_state_scheme \<Rightarrow> gc_error + 'a evacuation_state_scheme" where
  "RawEvacuatePage h chunk s =
     (case ComputeEvacuationMode (chunks s chunk) of
        kObjectsNewToOld \<Rightarrow>
          VisitBlackObjectsNoFail h FullEvacuator chunk EvacuateNewSpaceVisitor kClearMarkbits s
      | kPageNewToOld \<Rightarrow>
          (case VisitBlackObjectsNoFail h FullEvacuator chunk
                  (EvacuateNewSpacePageVisitor NEW_TO_OLD) kKeepMarking s of
             Inl e \<Rightarrow> Inl e
           | Inr s1 \<Rightarrow>
               Inr (s1\<lparr>new_to_old_moved_bytes :=
                          new_to_old_moved_bytes s1 + live_bytes (chunks s1 chunk)\<rparr>))
      | kPageNewToNew \<Rightarrow>
          (case VisitBlackObjectsNoFail h FullEvacuator chunk
                  (EvacuateNewSpacePageVisitor NEW_TO_NEW) kKeepMarking s of
             Inl e \<Rightarrow> Inl e
           | Inr s1 \<Rightarrow>
               Inr (s1\<lparr>new_to_new_moved_bytes :=
                          new_to_new_moved_bytes s1 + live_bytes (chunks s1 chunk)\<rparr>))
      | kObjectsOldToOld \<Rightarrow>
          (case VisitBlackObjects h FullEvacuator chunk EvacuateOldSpaceVisitor kClearMarkbits s of
             Inl e \<Rightarrow> Inl e
           | Inr (success, failed_object, s1) \<Rightarrow>
               if \<not> success then
                 (if FLAG_crash_on_aborted_evacuation h then Inl FatalProcessOutOfMemory
                  else Inr (ReportAbortedEvacuationCandidateDueToOOM
                              (case failed_object of Some obj \<Rightarrow> obj | None \<Rightarrow> 0) chunk s1))
               else Inr s1))"

subsection \<open>Evacuation: choosing the pages (EvacuatePagesInParallel)\<close>

text \<open>
  The threshold is computed in \<open>size_t\<close> (the flag is converted) and returned as
  \<open>intptr_t\<close>.
\<close>

definition intptr_t_of_size_t :: "nat \<Rightarrow> int" where
  "intptr_t_of_size_t n =
     (let m = int (n mod 2 ^ 64) in if m < 2 ^ 63 then m else m - 2 ^ 64)"

definition NewSpacePageEvacuationThreshold :: "evacuation_heap \<Rightarrow> int" where
  "NewSpacePageEvacuationThreshold h =
     (if FLAG_page_promotion h then
        intptr_t_of_size_t
          (((size_t_of_int (FLAG_page_promotion_threshold h) * AllocatableMemoryInDataPage h)
              mod 2 ^ 64) div 100)
      else intptr_t_of_size_t (size_t_add (AllocatableMemoryInDataPage h) (kTaggedSize h)))"

definition ShouldMovePage ::
  "evacuation_heap \<Rightarrow> page \<Rightarrow> memory_chunk \<Rightarrow> int \<Rightarrow> AlwaysPromoteYoung \<Rightarrow> bool" where
  "ShouldMovePage h p chunk live always_promote =
     (\<not> heap_ShouldReduceMemory h \<and> \<not> NeverEvacuate chunk
      \<and> live > NewSpacePageEvacuationThreshold h
      \<and> (always_promote = kYes \<or> \<not> Contains_age_mark h p)
      \<and> CanExpandOldGeneration h live)"

text \<open>
  The first loop of \<open>MarkCompactCollector::EvacuatePagesInParallel\<close> over the nursery
  pages.  It returns the evacuation items.  The adjustment of the old space's allocated
  bytes after a move is accounting that the model does not keep.
\<close>

fun collect_new_space_items ::
  "evacuation_heap \<Rightarrow> page list \<Rightarrow> page list \<Rightarrow> 'a evacuation_state_scheme \<Rightarrow>
   page list \<times> 'a evacuation_state_scheme" where
  "collect_new_space_items h [] evacuation_items s = (evacuation_items, s)"
| "collect_new_space_items h (p # rest) evacuation_items s =
     (let live_bytes_on_page = live_bytes (chunks s p) in
      if live_bytes_on_page = 0 then collect_new_space_items h rest evacuation_items s
      else
        collect_new_space_items h rest (evacuation_items @ [p])
          (if ShouldMovePage h p (chunks s p) live_bytes_on_page kYes
           then Move NEW_TO_OLD p s else s))"

text \<open>
  The same loop of \<open>MinorMarkCompactCollector::EvacuatePagesInParallel\<close>, which also
  moves pages within new space.
\<close>

fun minor_collect_new_space_items ::
  "evacuation_heap \<Rightarrow> page list \<Rightarrow> page list \<Rightarrow> 'a evacuation_state_scheme \<Rightarrow>
   page list \<times> 'a evacuation_state_scheme" where
  "minor_collect_new_space_items h [] evacuation_items s = (evacuation_items, s)"
| "minor_collect_new_space_items h (p # rest) evacuation_items s =
     (let live_bytes_on_page = live_bytes (chunks s p) in
      if live_bytes_on_page = 0 then minor_collect_new_space_items h rest evacuation_items s
      else
        minor_collect_new_space_items h rest (evacuation_items @ [p])
          (if FLAG_minor_mc_sweeping h \<or> ShouldMovePage h p (chunks s p) live_bytes_on_page kNo
           then (if IsFlagSet (chunks s p) NEW_SPACE_BELOW_AGE_MARK
                 then Move NEW_TO_OLD p s else Move NEW_TO_NEW p s)
           else s))"

text \<open>The candidates that the stack policy does not allow to be compacted are aborted
  before any copying.\<close>

definition abort_candidates_due_to_flags ::
  "evacuation_heap \<Rightarrow> 'a evacuation_state_scheme \<Rightarrow> 'a evacuation_state_scheme" where
  "abort_candidates_due_to_flags h s =
     (if \<not> IsGCWithoutStack h
         \<and> (\<not> FLAG_compact_with_stack h \<or> \<not> FLAG_compact_code_space_with_stack h) then
        fold (\<lambda>p s'.
                if \<not> FLAG_compact_with_stack h \<or> owner_identity (chunks s' p) = CODE_SPACE then
                  update_chunk p (SetFlag COMPACTION_WAS_ABORTED)
                    (ReportAbortedEvacuationCandidateDueToFlags (area_start (chunks s' p)) p s')
                else s')
          (old_space_evacuation_pages s) s
      else s)"

definition collect_old_space_items :: "'a evacuation_state_scheme \<Rightarrow> page list" where
  "collect_old_space_items s =
     filter (\<lambda>p. \<not> IsFlagSet (chunks s p) COMPACTION_WAS_ABORTED) (old_space_evacuation_pages s)"

text \<open>
  Young large objects that are black are promoted with their page.
  \<open>PromoteNewLargeObject\<close> is modelled from the spec (only the page ownership flips).
\<close>

definition PromoteNewLargeObject ::
  "page \<Rightarrow> 'a evacuation_state_scheme \<Rightarrow> 'a evacuation_state_scheme" where
  "PromoteNewLargeObject p s =
     update_chunk p (\<lambda>c. (ClearFlag TO_PAGE (ClearFlag FROM_PAGE c))\<lparr>owner_identity := LO_SPACE\<rparr>)
       (s\<lparr>new_lo_space := remove1 p (new_lo_space s)\<rparr>)"

fun promote_large_objects ::
  "evacuation_heap \<Rightarrow> page list \<Rightarrow> page list \<Rightarrow> 'a evacuation_state_scheme \<Rightarrow>
   page list \<times> 'a evacuation_state_scheme" where
  "promote_large_objects h [] evacuation_items s = (evacuation_items, s)"
| "promote_large_objects h (current # rest) evacuation_items s =
     (case objects_on h current of
        obj # others \<Rightarrow>
          if IsBlack (bitmap s) obj then
            promote_large_objects h rest (evacuation_items @ [current])
              ((update_chunk current (SetFlag PAGE_NEW_OLD_PROMOTION) (PromoteNewLargeObject current s))
                 \<lparr>promoted_large_pages := promoted_large_pages s @ [current]\<rparr>)
          else promote_large_objects h rest evacuation_items s
      | [] \<Rightarrow> promote_large_objects h rest evacuation_items s)"

text \<open>
  \<open>CreateAndExecuteEvacuationTasks\<close>: every item is evacuated once.  The model runs
  the items in order with one evacuator.
\<close>

fun evacuate_items ::
  "evacuation_heap \<Rightarrow> page list \<Rightarrow> 'a evacuation_state_scheme \<Rightarrow> gc_error + 'a evacuation_state_scheme" where
  "evacuate_items h [] s = Inr s"
| "evacuate_items h (chunk # rest) s =
     (case RawEvacuatePage h chunk s of
        Inl e \<Rightarrow> Inl e
      | Inr s1 \<Rightarrow> evacuate_items h rest s1)"

subsection \<open>Evacuation: aborted pages\<close>

text \<open>
  \<open>ReRecordPage\<close>.  \<open>page->address()\<close> is the address of the chunk, which names
  the page in this model.  Visiting with the record-only visitor cannot fail.
\<close>

definition ReRecordPage ::
  "evacuation_heap \<Rightarrow> nat \<Rightarrow> page \<Rightarrow> 'a evacuation_state_scheme \<Rightarrow> gc_error + 'a evacuation_state_scheme" where
  "ReRecordPage h failed_start p s =
     (let s1 = update_chunk p (SetFlag COMPACTION_WAS_ABORTED) s;
          s2 = RememberedSet_RemoveRangeTyped OLD_TO_NEW p p failed_start
                 (RememberedSet_RemoveRange OLD_TO_NEW p p failed_start s1);
          s3 = RememberedSet_RemoveRangeTyped OLD_TO_SHARED p p failed_start
                 (RememberedSet_RemoveRange OLD_TO_SHARED p p failed_start s2);
          s4 = (if failed_start > area_start (chunks s3 p) then
                  InvalidatedSlotsCleanup_Free OLD_TO_SHARED p (area_start (chunks s3 p)) failed_start
                    (InvalidatedSlotsCleanup_Free OLD_TO_NEW p (area_start (chunks s3 p)) failed_start s3)
                else s3);
          s5 = RecomputeLiveBytes h p s4
      in VisitBlackObjectsNoFail h FullEvacuator p EvacuateRecordOnlyVisitor kKeepMarking s5)"

fun ReRecordPages ::
  "evacuation_heap \<Rightarrow> (nat \<times> page) list \<Rightarrow> 'a evacuation_state_scheme \<Rightarrow>
   gc_error + 'a evacuation_state_scheme" where
  "ReRecordPages h [] s = Inr s"
| "ReRecordPages h ((failed_start, p) # rest) s =
     (case ReRecordPage h failed_start p s of
        Inl e \<Rightarrow> Inl e
      | Inr s1 \<Rightarrow> ReRecordPages h rest s1)"

text \<open>
  \<open>PostProcessEvacuationCandidates\<close>.  An aborted page stops being an evacuation
  candidate; every other candidate is taken off its owner's chunk list.  The result
  carries the number of aborted pages.
\<close>

definition ClearEvacuationCandidate :: "memory_chunk \<Rightarrow> memory_chunk" where
  "ClearEvacuationCandidate c = ClearFlag EVACUATION_CANDIDATE c"

definition PostProcessEvacuationCandidates ::
  "evacuation_heap \<Rightarrow> 'a evacuation_state_scheme \<Rightarrow> gc_error + nat \<times> 'a evacuation_state_scheme" where
  "PostProcessEvacuationCandidates h s =
     (if FLAG_crash_on_aborted_evacuation h \<and> aborted_evacuation_candidates_due_to_oom s \<noteq> []
      then Inl CheckFailed
      else
        case ReRecordPages h (aborted_evacuation_candidates_due_to_oom s) s of
          Inl e \<Rightarrow> Inl e
        | Inr s1 \<Rightarrow>
            (case ReRecordPages h (aborted_evacuation_candidates_due_to_flags s1) s1 of
               Inl e \<Rightarrow> Inl e
             | Inr s2 \<Rightarrow>
                 Inr (length (aborted_evacuation_candidates_due_to_oom s2)
                        + length (aborted_evacuation_candidates_due_to_flags s2),
                      fold (\<lambda>p s'.
                              if IsFlagSet (chunks s' p) COMPACTION_WAS_ABORTED
                              then update_chunk p ClearEvacuationCandidate s'
                              else s'\<lparr>owner_memory_chunk_list := (owner_memory_chunk_list s')
                                       (owner_identity (chunks s' p) :=
                                          remove1 p (owner_memory_chunk_list s'
                                                       (owner_identity (chunks s' p))))\<rparr>)
                        (old_space_evacuation_pages s2) s2)))"

definition EvacuatePagesInParallel ::
  "evacuation_heap \<Rightarrow> 'a evacuation_state_scheme \<Rightarrow> gc_error + 'a evacuation_state_scheme" where
  "EvacuatePagesInParallel h s =
     (let (items1, s1) = collect_new_space_items h (new_space_evacuation_pages s) [] s;
          s2 = abort_candidates_due_to_flags h s1;
          items2 = items1 @ collect_old_space_items s2;
          (evacuation_items, s3) = promote_large_objects h (new_lo_space s2) items2 s2
      in case evacuate_items h evacuation_items s3 of
           Inl e \<Rightarrow> Inl e
         | Inr s4 \<Rightarrow> map_sum id snd (PostProcessEvacuationCandidates h s4))"

subsection \<open>Evacuation: what a visit can change\<close>

text \<open>
  Two frame relations.  Recording slots changes the slot sets and the pretenuring
  feedback and nothing else; copying objects changes, besides those, the map words, the
  slots and the memory, the allocation answers left, and the two size counters.  In
  particular no visit changes a chunk header, a mark bit or a list of the collector.
\<close>

definition only_recorded ::
  "'a evacuation_state_scheme \<Rightarrow> 'a evacuation_state_scheme \<Rightarrow> bool" where
  "only_recorded s s' = (\<exists>ss pf. s' = s\<lparr>slot_set := ss, pretenuring_feedback := pf\<rparr>)"

definition only_copied ::
  "'a evacuation_state_scheme \<Rightarrow> 'a evacuation_state_scheme \<Rightarrow> bool" where
  "only_copied s s' =
     (\<exists>mw os mem ss aa pf ps sc.
        s' = s\<lparr>map_words := mw, object_slots := os, memory := mem, slot_set := ss,
               allocation_answers := aa, pretenuring_feedback := pf, promoted_size := ps,
               semispace_copied_size := sc\<rparr>)"

lemma only_recorded_refl [simp]: "only_recorded s s"
  unfolding only_recorded_def
  by (rule exI[of _ "slot_set s"], rule exI[of _ "pretenuring_feedback s"]) simp

lemma only_recorded_trans:
  "only_recorded s s1 \<Longrightarrow> only_recorded s1 s2 \<Longrightarrow> only_recorded s s2"
  unfolding only_recorded_def by (elim exE, simp) blast

lemma only_recorded_copied: "only_recorded s s' \<Longrightarrow> only_copied s s'"
  unfolding only_recorded_def only_copied_def
  apply clarify
  subgoal for ss pf
    apply (rule exI[of _ "map_words s"], rule exI[of _ "object_slots s"], rule exI[of _ "memory s"],
        rule exI[of _ ss], rule exI[of _ "allocation_answers s"], rule exI[of _ pf],
        rule exI[of _ "promoted_size s"], rule exI[of _ "semispace_copied_size s"])
    apply simp
    done
  done

lemma only_copied_refl [simp]: "only_copied s s"
  by (rule only_recorded_copied) simp

lemma only_copied_trans:
  "only_copied s s1 \<Longrightarrow> only_copied s1 s2 \<Longrightarrow> only_copied s s2"
  unfolding only_copied_def by (elim exE, simp) blast

lemma only_copied_fields:
  assumes "only_copied s s'"
  shows "chunks s' = chunks s" "bitmap s' = bitmap s"
    "evacuation_candidates s' = evacuation_candidates s"
    "typed_slot_set s' = typed_slot_set s" "invalidated_slots s' = invalidated_slots s"
    "new_space_evacuation_pages s' = new_space_evacuation_pages s"
    "old_space_evacuation_pages s' = old_space_evacuation_pages s"
    "new_lo_space s' = new_lo_space s" "promoted_large_pages s' = promoted_large_pages s"
    "aborted_evacuation_candidates_due_to_oom s' = aborted_evacuation_candidates_due_to_oom s"
    "aborted_evacuation_candidates_due_to_flags s' = aborted_evacuation_candidates_due_to_flags s"
    "sweeper_added s' = sweeper_added s" "ReleasePage_calls s' = ReleasePage_calls s"
    "owner_memory_chunk_list s' = owner_memory_chunk_list s"
    "new_to_old_moved_bytes s' = new_to_old_moved_bytes s"
    "new_to_new_moved_bytes s' = new_to_new_moved_bytes s"
  using assms unfolding only_copied_def by auto

lemma only_recorded_fields:
  assumes "only_recorded s s'"
  shows "map_words s' = map_words s" "object_slots s' = object_slots s" "memory s' = memory s"
    "allocation_answers s' = allocation_answers s" "promoted_size s' = promoted_size s"
    "semispace_copied_size s' = semispace_copied_size s"
  using assms unfolding only_recorded_def by auto

lemma only_recordedI:
  "s' = s\<lparr>slot_set := ss, pretenuring_feedback := pf\<rparr> \<Longrightarrow> only_recorded s s'"
  unfolding only_recorded_def by blast

lemma RememberedSet_Insert_only_recorded [simp]:
  "only_recorded s (RememberedSet_Insert t chunk slot s)"
  by (rule only_recordedI[where pf = "pretenuring_feedback s"]) (simp add: RememberedSet_Insert_def)

lemma RecordMigratedSlot_only_recorded [simp]:
  "only_recorded s (RecordMigratedSlot h rv host v slot s)"
  by (simp add: RecordMigratedSlot_def RecordMigratedSlot_target_def Let_def split: tagged.splits)

lemma fold_RecordMigratedSlot_only_recorded:
  "only_recorded s (fold (\<lambda>slot s'. RecordMigratedSlot h rv obj (memory s' slot) slot s') slots s)"
proof (induction slots arbitrary: s)
  case Nil then show ?case by simp
next
  case (Cons a slots)
  show ?case
    using only_recorded_trans[OF RecordMigratedSlot_only_recorded Cons.IH] by simp
qed

lemma IterateBodyFast_only_recorded [simp]: "only_recorded s (IterateBodyFast h rv obj s)"
  by (simp add: IterateBodyFast_def fold_RecordMigratedSlot_only_recorded)

lemma IterateFast_only_recorded [simp]: "only_recorded s (IterateFast h rv obj s)"
  unfolding IterateFast_def
  by (cases "map_words s obj")
     (auto intro: only_recorded_trans[OF RecordMigratedSlot_only_recorded IterateBodyFast_only_recorded])

lemma UpdateAllocationSite_only_recorded [simp]: "only_recorded s (UpdateAllocationSite obj s)"
  by (rule only_recordedI[where ss = "slot_set s"]) (simp add: UpdateAllocationSite_def)


lemma only_copiedI:
  "s' = s\<lparr>map_words := mw, object_slots := os, memory := mem, slot_set := ss,
            allocation_answers := aa, pretenuring_feedback := pf, promoted_size := ps,
            semispace_copied_size := sc\<rparr> \<Longrightarrow> only_copied s s'"
  unfolding only_copied_def by blast

lemma CopyBlock_only_copied [simp]: "only_copied s (CopyBlock dst src s)"
  by (rule only_copiedI[where ss = "slot_set s" and aa = "allocation_answers s"
        and pf = "pretenuring_feedback s" and ps = "promoted_size s"
        and sc = "semispace_copied_size s"])
     (simp add: CopyBlock_def Let_def)

lemma set_map_word_only_copied [simp]:
  "only_copied s (s\<lparr>map_words := mw\<rparr>)"
  by (rule only_copiedI[where ss = "slot_set s" and aa = "allocation_answers s"
        and pf = "pretenuring_feedback s" and ps = "promoted_size s"
        and sc = "semispace_copied_size s" and os = "object_slots s" and mem = "memory s"])
     simp

lemma set_promoted_size_only_copied [simp]:
  "only_copied s (s\<lparr>promoted_size := n\<rparr>)"
  by (rule only_copiedI[where ss = "slot_set s" and aa = "allocation_answers s"
        and pf = "pretenuring_feedback s" and mw = "map_words s"
        and sc = "semispace_copied_size s" and os = "object_slots s" and mem = "memory s"])
     simp

lemma set_semispace_copied_size_only_copied [simp]:
  "only_copied s (s\<lparr>semispace_copied_size := n\<rparr>)"
  by (rule only_copiedI[where ss = "slot_set s" and aa = "allocation_answers s"
        and pf = "pretenuring_feedback s" and mw = "map_words s"
        and ps = "promoted_size s" and os = "object_slots s" and mem = "memory s"])
     simp

lemma set_allocation_answers_only_copied [simp]:
  "only_copied s (s\<lparr>allocation_answers := a\<rparr>)"
  by (rule only_copiedI[where ss = "slot_set s" and sc = "semispace_copied_size s"
        and pf = "pretenuring_feedback s" and mw = "map_words s"
        and ps = "promoted_size s" and os = "object_slots s" and mem = "memory s"])
     simp

lemma MigrateObject_only_copied [simp]:
  "only_copied s (MigrateObject h rv dst src sz dest s)"
  unfolding MigrateObject_def Let_def
  by (intro only_copied_trans[OF _ set_map_word_only_copied])
     (auto intro: only_copied_trans[OF CopyBlock_only_copied only_recorded_copied[OF IterateFast_only_recorded]])

lemma Allocate_only_copied [simp]: "only_copied s (snd (Allocate s))"
  by (simp add: Allocate_def split: list.splits)

lemma TryEvacuateObject_only_copied [simp]:
  "only_copied s (snd (TryEvacuateObject h rv space obj sz s))"
proof -
  obtain a s1 where a: "Allocate s = (a, s1)" by (cases "Allocate s")
  then have s1: "only_copied s s1" using Allocate_only_copied[of s] by simp
  show ?thesis
    using a s1 only_copied_trans[OF s1 MigrateObject_only_copied]
    by (cases a) (simp_all add: TryEvacuateObject_def)
qed

lemma TryEvacuateWithoutCopy_only_copied [simp]:
  "only_copied s (snd (TryEvacuateWithoutCopy h obj s))"
  by (simp add: TryEvacuateWithoutCopy_def Let_def)

lemma AllocateTargetObject_only_copied:
  "AllocateTargetObject s = Inr (r, s') \<Longrightarrow> only_copied s s'"
  by (auto simp: AllocateTargetObject_def Allocate_def split: list.splits option.splits)

lemma semispace_copy_only_copied:
  assumes "semispace_copy h ev obj sz s = Inr (r, s')"
  shows "only_copied s s'"
proof -
  obtain space target s1 where
    a: "AllocateTargetObject (UpdateAllocationSite obj s) = Inr ((space, target), s1)"
    using assms by (auto simp: semispace_copy_def split: sum.splits)
  have "only_copied s (UpdateAllocationSite obj s)"
    by (rule only_recorded_copied) simp
  then have s1: "only_copied s s1"
    using only_copied_trans AllocateTargetObject_only_copied[OF a] by blast
  let ?s2 = "MigrateObject h (the_record_visitor ev) target obj sz space s1"
  have "only_copied s ?s2" using only_copied_trans[OF s1 MigrateObject_only_copied] .
  then have "only_copied s (?s2\<lparr>semispace_copied_size := semispace_copied_size ?s2 + sz\<rparr>)"
    using only_copied_trans[OF _ set_semispace_copied_size_only_copied] by blast
  then show ?thesis using assms a by (simp add: semispace_copy_def Let_def)
qed

lemma EvacuateNewSpaceVisitor_Visit_only_copied:
  assumes "EvacuateNewSpaceVisitor_Visit h ev obj sz s = Inr (r, s')"
  shows "only_copied s s'"
proof -
  obtain b s0 where w: "TryEvacuateWithoutCopy h obj s = (b, s0)"
    by (cases "TryEvacuateWithoutCopy h obj s")
  then have s0: "only_copied s s0" using TryEvacuateWithoutCopy_only_copied[of s h obj] by simp
  show ?thesis
  proof (cases b)
    case True
    then show ?thesis using assms w s0 by (simp add: EvacuateNewSpaceVisitor_Visit_def)
  next
    case False
    note nb = False
    show ?thesis
    proof (cases "always_promote_young ev = kYes")
      case True
      let ?u = "UpdateAllocationSite obj s0"
      obtain t s1 where t: "TryEvacuateObject h (the_record_visitor ev) OLD_SPACE obj sz ?u = (t, s1)"
        by (cases "TryEvacuateObject h (the_record_visitor ev) OLD_SPACE obj sz ?u")
      have "only_copied s0 ?u" by (rule only_recorded_copied) simp
      moreover have "only_copied ?u s1"
        using TryEvacuateObject_only_copied[of ?u h "the_record_visitor ev" OLD_SPACE obj sz] t by simp
      ultimately have "only_copied s s1" using s0 only_copied_trans by blast
      then have "only_copied s (s1\<lparr>promoted_size := promoted_size s1 + sz\<rparr>)"
        using only_copied_trans[OF _ set_promoted_size_only_copied] by blast
      then show ?thesis using assms w nb True t
        by (cases t) (simp_all add: EvacuateNewSpaceVisitor_Visit_def)
    next
      case False
      note ny = False
      show ?thesis
      proof (cases "ShouldBePromoted h obj")
        case True
        obtain t s1 where t: "TryEvacuateObject h (the_record_visitor ev) OLD_SPACE obj sz s0 = (t, s1)"
          by (cases "TryEvacuateObject h (the_record_visitor ev) OLD_SPACE obj sz s0")
        have "only_copied s0 s1"
          using TryEvacuateObject_only_copied[of s0 h "the_record_visitor ev" OLD_SPACE obj sz] t by simp
        then have s1: "only_copied s s1" using s0 only_copied_trans by blast
        show ?thesis
        proof (cases t)
          case True
          have "only_copied s (s1\<lparr>promoted_size := promoted_size s1 + sz\<rparr>)"
            using only_copied_trans[OF s1 set_promoted_size_only_copied] .
          then show ?thesis using assms w nb ny \<open>ShouldBePromoted h obj\<close> t True
            by (simp add: EvacuateNewSpaceVisitor_Visit_def)
        next
          case False
          then have "semispace_copy h ev obj sz s1 = Inr (r, s')"
            using assms w nb ny \<open>ShouldBePromoted h obj\<close> t
            by (simp add: EvacuateNewSpaceVisitor_Visit_def)
          from semispace_copy_only_copied[OF this] show ?thesis
            using s1 only_copied_trans by blast
        qed
      next
        case False
        then have "semispace_copy h ev obj sz s0 = Inr (r, s')"
          using assms w nb ny by (simp add: EvacuateNewSpaceVisitor_Visit_def)
        from semispace_copy_only_copied[OF this] show ?thesis
          using s0 only_copied_trans by blast
      qed
    qed
  qed
qed

lemma EvacuateNewSpacePageVisitor_Visit_only_recorded:
  "EvacuateNewSpacePageVisitor_Visit h ev mode obj sz s = Inr (r, s') \<Longrightarrow> only_recorded s s'"
  by (cases mode) (auto simp: EvacuateNewSpacePageVisitor_Visit_def)

lemma EvacuateRecordOnlyVisitor_Visit_only_recorded:
  "EvacuateRecordOnlyVisitor_Visit h obj sz s = Inr (r, s') \<Longrightarrow> only_recorded s s'"
  by (auto simp: EvacuateRecordOnlyVisitor_Visit_def)

lemma EvacuateOldSpaceVisitor_Visit_only_copied:
  "EvacuateOldSpaceVisitor_Visit h ev obj sz s = Inr (r, s') \<Longrightarrow> only_copied s s'"
  using TryEvacuateObject_only_copied[of s h "the_record_visitor ev"
      "owner_identity (chunks s (page_of h obj))" obj sz]
  by (auto simp: EvacuateOldSpaceVisitor_Visit_def)

lemma Visit_only_copied:
  "Visit h ev v obj sz s = Inr (r, s') \<Longrightarrow> only_copied s s'"
  by (cases v)
     (auto simp: Visit_def
        dest: EvacuateNewSpaceVisitor_Visit_only_copied EvacuateOldSpaceVisitor_Visit_only_copied
          only_recorded_copied[OF EvacuateNewSpacePageVisitor_Visit_only_recorded]
          only_recorded_copied[OF EvacuateRecordOnlyVisitor_Visit_only_recorded])

lemma Visit_only_recorded:
  "v = EvacuateNewSpacePageVisitor mode \<or> v = EvacuateRecordOnlyVisitor \<Longrightarrow>
   Visit h ev v obj sz s = Inr (r, s') \<Longrightarrow> only_recorded s s'"
  by (auto simp: Visit_def
        dest: EvacuateNewSpacePageVisitor_Visit_only_recorded
          EvacuateRecordOnlyVisitor_Visit_only_recorded)

lemma Visit_recording_total:
  "v = EvacuateNewSpacePageVisitor mode \<or> v = EvacuateRecordOnlyVisitor \<Longrightarrow>
   \<exists>s'. Visit h ev v obj sz s = Inr (True, s')"
  by (cases mode)
     (auto simp: Visit_def EvacuateNewSpacePageVisitor_Visit_def EvacuateRecordOnlyVisitor_Visit_def)

lemma VisitBlackObjectsNoFail_loop_only_copied:
  "VisitBlackObjectsNoFail_loop h ev v objs s = Inr s' \<Longrightarrow> only_copied s s'"
proof (induction objs arbitrary: s)
  case Nil then show ?case by simp
next
  case (Cons obj rest)
  show ?case
  proof (cases "IsBlack (bitmap s) obj")
    case False
    then show ?thesis using Cons by simp
  next
    case True
    then obtain r s1 where v: "Visit h ev v obj (object_size h obj) s = Inr (r, s1)"
      and l: "VisitBlackObjectsNoFail_loop h ev v rest s1 = Inr s'"
      using Cons.prems by (auto split: sum.splits)
    show ?thesis using only_copied_trans[OF Visit_only_copied[OF v] Cons.IH[OF l]] .
  qed
qed

lemma VisitBlackObjectsNoFail_loop_only_recorded:
  assumes "v = EvacuateNewSpacePageVisitor mode \<or> v = EvacuateRecordOnlyVisitor"
  shows "\<exists>s'. VisitBlackObjectsNoFail_loop h ev v objs s = Inr s' \<and> only_recorded s s'"
proof (induction objs arbitrary: s)
  case Nil then show ?case by simp
next
  case (Cons obj rest)
  show ?case
  proof (cases "IsBlack (bitmap s) obj")
    case False
    then show ?thesis using Cons.IH[of s] by simp
  next
    case True
    obtain s1 where v: "Visit h ev v obj (object_size h obj) s = Inr (True, s1)"
      using Visit_recording_total[OF assms] by blast
    obtain s' where l: "VisitBlackObjectsNoFail_loop h ev v rest s1 = Inr s'"
      and r: "only_recorded s1 s'" using Cons.IH[of s1] by blast
    have "only_recorded s s'"
      using only_recorded_trans[OF Visit_only_recorded[OF assms v] r] .
    then show ?thesis using True v l by simp
  qed
qed

lemma VisitBlackObjects_loop_only_copied:
  "VisitBlackObjects_loop h ev v objs s = Inr (f, s') \<Longrightarrow> only_copied s s'"
proof (induction objs arbitrary: s)
  case Nil then show ?case by simp
next
  case (Cons obj rest)
  show ?case
  proof (cases "IsBlack (bitmap s) obj")
    case False
    then show ?thesis using Cons by simp
  next
    case True
    then obtain r s1 where v: "Visit h ev v obj (object_size h obj) s = Inr (r, s1)"
      using Cons.prems by (auto split: sum.splits)
    show ?thesis
    proof (cases r)
      case True
      then have "VisitBlackObjects_loop h ev v rest s1 = Inr (f, s')"
        using Cons.prems v \<open>IsBlack (bitmap s) obj\<close> by simp
      from only_copied_trans[OF Visit_only_copied[OF v] Cons.IH[OF this]] show ?thesis .
    next
      case False
      then have "s' = s1" using Cons.prems v \<open>IsBlack (bitmap s) obj\<close> by simp
      then show ?thesis using Visit_only_copied[OF v] by simp
    qed
  qed
qed

subsection \<open>Evacuation: recorded slots\<close>

text \<open>
  What it means for a slot of a host object to be recorded: if it refers to an object in
  the young generation it is in the \<open>OLD_TO_NEW\<close> set of the host's chunk, and if
  it refers to an object on an evacuation candidate it is in the \<open>OLD_TO_OLD\<close> set
  (\<open>OLD_TO_CODE\<close> for an executable target when code has its own space).
\<close>

definition in_slot_set ::
  "'a evacuation_state_scheme \<Rightarrow> page \<Rightarrow> RememberedSetType \<Rightarrow> nat \<Rightarrow> bool" where
  "in_slot_set s chunk t slot =
     (case slot_set s chunk t of None \<Rightarrow> False | Some slots \<Rightarrow> slot \<in> set slots)"

definition target_is_recorded ::
  "evacuation_heap \<Rightarrow> 'a evacuation_state_scheme \<Rightarrow> heap_object \<Rightarrow> heap_object \<Rightarrow> nat \<Rightarrow> bool" where
  "target_is_recorded h s host target slot =
     (let p = chunks s (page_of h target) in
      if InYoungGeneration p then in_slot_set s (page_of h host) OLD_TO_NEW slot
      else if IsEvacuationCandidate p then
        (if V8_EXTERNAL_CODE_SPACE_BOOL h \<and> IsFlagSet p IS_EXECUTABLE
         then in_slot_set s (page_of h host) OLD_TO_CODE slot
         else in_slot_set s (page_of h host) OLD_TO_OLD slot)
      else True)"

definition slot_is_recorded ::
  "evacuation_heap \<Rightarrow> 'a evacuation_state_scheme \<Rightarrow> heap_object \<Rightarrow> nat \<Rightarrow> bool" where
  "slot_is_recorded h s host slot =
     (case memory s slot of
        StrongRef target \<Rightarrow> target_is_recorded h s host target slot
      | WeakRef target \<Rightarrow> target_is_recorded h s host target slot
      | _ \<Rightarrow> True)"

definition recorded_more ::
  "'a evacuation_state_scheme \<Rightarrow> 'a evacuation_state_scheme \<Rightarrow> bool" where
  "recorded_more s s' =
     (only_recorded s s' \<and> (\<forall>c t a. in_slot_set s c t a \<longrightarrow> in_slot_set s' c t a))"

lemma recorded_more_refl [simp]: "recorded_more s s"
  by (simp add: recorded_more_def)

lemma recorded_more_trans:
  "recorded_more s s1 \<Longrightarrow> recorded_more s1 s2 \<Longrightarrow> recorded_more s s2"
  unfolding recorded_more_def using only_recorded_trans by blast

lemma recorded_more_only_recorded: "recorded_more s s' \<Longrightarrow> only_recorded s s'"
  by (simp add: recorded_more_def)

lemma in_slot_set_Insert:
  "in_slot_set (RememberedSet_Insert t chunk slot s) c t' a \<longleftrightarrow>
     in_slot_set s c t' a \<or> (c = chunk \<and> t' = t \<and> a = slot)"
  by (auto simp: in_slot_set_def RememberedSet_Insert_def split: option.splits)

lemma RememberedSet_Insert_recorded_more [simp]:
  "recorded_more s (RememberedSet_Insert t chunk slot s)"
  by (simp add: recorded_more_def in_slot_set_Insert)

lemma RecordMigratedSlot_recorded_more [simp]:
  "recorded_more s (RecordMigratedSlot h rv host v slot s)"
  by (simp add: RecordMigratedSlot_def RecordMigratedSlot_target_def Let_def split: tagged.splits)

lemma slot_is_recorded_mono:
  assumes "recorded_more s s'" and "slot_is_recorded h s host slot"
  shows "slot_is_recorded h s' host slot"
proof -
  have m: "memory s' = memory s" and c: "chunks s' = chunks s"
    using assms(1) only_recorded_fields(3) only_copied_fields(1) only_recorded_copied
    unfolding recorded_more_def by blast+
  have g: "\<And>c t a. in_slot_set s c t a \<Longrightarrow> in_slot_set s' c t a"
    using assms(1) unfolding recorded_more_def by blast
  show ?thesis
    using assms(2) g unfolding slot_is_recorded_def target_is_recorded_def m c Let_def
    by (auto split: tagged.splits if_splits)
qed

lemma RecordMigratedSlot_records:
  "slot_is_recorded h (RecordMigratedSlot h RecordMigratedSlotVisitor host (memory s slot) slot s)
     host slot"
proof -
  let ?s' = "RecordMigratedSlot h RecordMigratedSlotVisitor host (memory s slot) slot s"
  have r: "only_recorded s ?s'" by simp
  have m: "memory ?s' = memory s" and c: "chunks ?s' = chunks s"
    using only_recorded_fields(3)[OF r] only_copied_fields(1)[OF only_recorded_copied[OF r]] by auto
  show ?thesis
    unfolding slot_is_recorded_def target_is_recorded_def m c Let_def
    by (cases "memory s slot")
       (simp_all add: RecordMigratedSlot_def RecordMigratedSlot_target_def Let_def in_slot_set_Insert)
qed

lemma fold_RecordMigratedSlot_recorded_more:
  "recorded_more s (fold (\<lambda>slot s'. RecordMigratedSlot h rv obj (memory s' slot) slot s') slots s)"
proof (induction slots arbitrary: s)
  case Nil then show ?case by simp
next
  case (Cons a slots)
  show ?case
    using recorded_more_trans[OF RecordMigratedSlot_recorded_more Cons.IH] by simp
qed

lemma fold_RecordMigratedSlot_records:
  "slot \<in> set slots \<Longrightarrow>
   slot_is_recorded h
     (fold (\<lambda>slot s'. RecordMigratedSlot h RecordMigratedSlotVisitor obj (memory s' slot) slot s')
        slots s) obj slot"
proof (induction slots arbitrary: s)
  case Nil then show ?case by simp
next
  case (Cons a slots)
  let ?s1 = "RecordMigratedSlot h RecordMigratedSlotVisitor obj (memory s a) a s"
  show ?case
  proof (cases "slot \<in> set slots")
    case True
    then show ?thesis using Cons.IH[of ?s1] by simp
  next
    case False
    then have "slot = a" using Cons.prems by simp
    then have "slot_is_recorded h ?s1 obj slot" using RecordMigratedSlot_records by simp
    then show ?thesis
      using slot_is_recorded_mono[OF fold_RecordMigratedSlot_recorded_more] by simp
  qed
qed

lemma IterateBodyFast_recorded_more [simp]: "recorded_more s (IterateBodyFast h rv obj s)"
  by (simp add: IterateBodyFast_def fold_RecordMigratedSlot_recorded_more)

lemma IterateBodyFast_records:
  "slot \<in> set (object_slots s obj) \<Longrightarrow>
   slot_is_recorded h (IterateBodyFast h RecordMigratedSlotVisitor obj s) obj slot"
  by (simp add: IterateBodyFast_def fold_RecordMigratedSlot_records)

lemma IterateFast_recorded_more [simp]: "recorded_more s (IterateFast h rv obj s)"
  unfolding IterateFast_def
  by (cases "map_words s obj")
     (auto intro: recorded_more_trans[OF RecordMigratedSlot_recorded_more IterateBodyFast_recorded_more])

lemma IterateFast_records:
  assumes "slot \<in> set (object_slots s obj)"
  shows "slot_is_recorded h (IterateFast h RecordMigratedSlotVisitor obj s) obj slot"
proof -
  define s0 where "s0 = (case map_words s obj of
          MapPointer m \<Rightarrow> RecordMigratedSlot h RecordMigratedSlotVisitor obj (StrongRef m) obj s
        | ForwardingAddress a \<Rightarrow> s)"
  have "only_recorded s s0" unfolding s0_def by (cases "map_words s obj") simp_all
  then have "object_slots s0 = object_slots s" by (rule only_recorded_fields)
  then have "slot \<in> set (object_slots s0 obj)" using assms by simp
  then have "slot_is_recorded h (IterateBodyFast h RecordMigratedSlotVisitor obj s0) obj slot"
    by (rule IterateBodyFast_records)
  then show ?thesis by (simp add: IterateFast_def s0_def)
qed

lemma VisitBlackObjectsNoFail_loop_records:
  assumes v: "v = EvacuateRecordOnlyVisitor \<or> v = EvacuateNewSpacePageVisitor NEW_TO_OLD"
    and rv: "the_record_visitor ev = RecordMigratedSlotVisitor"
    and l: "VisitBlackObjectsNoFail_loop h ev v objs s = Inr s'"
  shows "recorded_more s s'
       \<and> (\<forall>obj \<in> set objs. IsBlack (bitmap s) obj \<longrightarrow>
            (\<forall>slot \<in> set (object_slots s obj). slot_is_recorded h s' obj slot))"
  using l
proof (induction objs arbitrary: s)
  case Nil then show ?case by simp
next
  case (Cons obj rest)
  show ?case
  proof (cases "IsBlack (bitmap s) obj")
    case False
    then show ?thesis using Cons by simp
  next
    case True
    define s1 where "s1 = (if v = EvacuateRecordOnlyVisitor
                           then IterateBodyFast h RecordMigratedSlotVisitor obj s
                           else IterateFast h RecordMigratedSlotVisitor obj s)"
    have vis: "Visit h ev v obj (object_size h obj) s = Inr (True, s1)"
      using v rv by (auto simp: s1_def Visit_def EvacuateNewSpacePageVisitor_Visit_def
          EvacuateRecordOnlyVisitor_Visit_def)
    then have l1: "VisitBlackObjectsNoFail_loop h ev v rest s1 = Inr s'"
      using Cons.prems True by simp
    have m1: "recorded_more s s1" by (simp add: s1_def)
    have r1: "\<forall>slot \<in> set (object_slots s obj). slot_is_recorded h s1 obj slot"
      by (simp add: s1_def IterateBodyFast_records IterateFast_records)
    from Cons.IH[OF l1]
    have m2: "recorded_more s1 s'"
      and r2: "\<forall>o' \<in> set rest. IsBlack (bitmap s1) o' \<longrightarrow>
            (\<forall>slot \<in> set (object_slots s1 o'). slot_is_recorded h s' o' slot)" by auto
    have eq: "bitmap s1 = bitmap s" "object_slots s1 = object_slots s"
      using only_copied_fields(2)[OF only_recorded_copied[OF recorded_more_only_recorded[OF m1]]]
        only_recorded_fields(2)[OF recorded_more_only_recorded[OF m1]] by auto
    have "\<forall>slot \<in> set (object_slots s obj). slot_is_recorded h s' obj slot"
      using r1 slot_is_recorded_mono[OF m2] by blast
    then show ?thesis
      using recorded_more_trans[OF m1 m2] r2 unfolding eq by auto
  qed
qed

definition only_feedback ::
  "'a evacuation_state_scheme \<Rightarrow> 'a evacuation_state_scheme \<Rightarrow> bool" where
  "only_feedback s s' = (\<exists>pf. s' = s\<lparr>pretenuring_feedback := pf\<rparr>)"

lemma only_feedback_refl [simp]: "only_feedback s s"
  unfolding only_feedback_def by (rule exI[of _ "pretenuring_feedback s"]) simp

lemma only_feedback_trans:
  "only_feedback s s1 \<Longrightarrow> only_feedback s1 s2 \<Longrightarrow> only_feedback s s2"
  unfolding only_feedback_def by (elim exE, simp) blast

lemma only_feedback_slot_set: "only_feedback s s' \<Longrightarrow> slot_set s' = slot_set s"
  unfolding only_feedback_def by auto

lemma only_feedback_only_recorded: "only_feedback s s' \<Longrightarrow> only_recorded s s'"
  unfolding only_feedback_def only_recorded_def
  by (elim exE) (rule exI[of _ "slot_set s"], simp, blast)

lemma VisitBlackObjectsNoFail_loop_only_feedback:
  "\<exists>s'. VisitBlackObjectsNoFail_loop h ev (EvacuateNewSpacePageVisitor NEW_TO_NEW) objs s = Inr s'
        \<and> only_feedback s s'"
proof (induction objs arbitrary: s)
  case Nil then show ?case by simp
next
  case (Cons obj rest)
  show ?case
  proof (cases "IsBlack (bitmap s) obj")
    case False
    then show ?thesis using Cons.IH[of s] by simp
  next
    case True
    have vis: "Visit h ev (EvacuateNewSpacePageVisitor NEW_TO_NEW) obj (object_size h obj) s
                 = Inr (True, UpdateAllocationSite obj s)"
      by (simp add: Visit_def EvacuateNewSpacePageVisitor_Visit_def)
    have f: "only_feedback s (UpdateAllocationSite obj s)"
      unfolding only_feedback_def UpdateAllocationSite_def by blast
    obtain s' where l: "VisitBlackObjectsNoFail_loop h ev (EvacuateNewSpacePageVisitor NEW_TO_NEW) rest
                         (UpdateAllocationSite obj s) = Inr s'"
      and r: "only_feedback (UpdateAllocationSite obj s) s'"
      using Cons.IH[of "UpdateAllocationSite obj s"] by blast
    show ?thesis using True vis l only_feedback_trans[OF f r] by simp
  qed
qed


subsection \<open>Evacuation: an example heap\<close>

text \<open>
  Pages are 1000 addresses long.  Page 1 is a nursery page with the black objects 1010
  and 1020.  Page 2 is an old-space evacuation candidate with the black objects 2010,
  2020 and 2030, of which the first and the last hold a reference into the nursery; both
  slots are in the page's \<open>OLD_TO_NEW\<close> set.  Every object has 16 bytes.  Page
  promotion is on with a threshold of 70 percent of 1000 allocatable bytes.
\<close>

definition evacuation_example_heap :: evacuation_heap where
  "evacuation_example_heap =
     \<lparr>page_of = (\<lambda>a. a div 1000),
      objects_on = (\<lambda>p. if p = 1 then [1010, 1020] else if p = 2 then [2010, 2020, 2030] else []),
      object_size = (\<lambda>obj. 16),
      IsThinString = (\<lambda>obj. False),
      ThinString_actual = (\<lambda>obj. obj),
      IsInPlaceInternalizable = (\<lambda>obj. False),
      ShouldBePromoted = (\<lambda>obj. True),
      heap_ShouldReduceMemory = False,
      CanExpandOldGeneration = (\<lambda>n. True),
      Contains_age_mark = (\<lambda>p. False),
      AllocatableMemoryInDataPage = 1000,
      kTaggedSize = 8,
      IsGCWithoutStack = True,
      Rebalance_succeeds = True,
      V8_EXTERNAL_CODE_SPACE_BOOL = False,
      is_incremental_marking = False,
      shared_string_table = False,
      FLAG_page_promotion = True,
      FLAG_page_promotion_threshold = 70,
      FLAG_crash_on_aborted_evacuation = False,
      FLAG_compact_with_stack = True,
      FLAG_compact_code_space_with_stack = True,
      FLAG_minor_mc = False,
      FLAG_minor_mc_sweeping = False\<rparr>"

definition evacuation_example_state :: evacuation_state where
  "evacuation_example_state =
     \<lparr>chunks = (\<lambda>p. if p = 1 then empty_chunk\<lparr>flags := {FROM_PAGE}, live_bytes := 32,
                                 area_start := 1000, owner_identity := NEW_SPACE\<rparr>
                    else if p = 2 then empty_chunk\<lparr>flags := {EVACUATION_CANDIDATE}, live_bytes := 48,
                                 area_start := 2000\<rparr>
                    else empty_chunk\<lparr>area_start := p * 1000\<rparr>),
      evacuation_candidates = [],
      bitmap = (\<lambda>obj. if obj \<in> {1010, 1020, 2010, 2020, 2030} then Black else White),
      map_words = (\<lambda>obj. MapPointer 9000),
      object_slots = (\<lambda>obj. if obj = 2010 then [2018] else if obj = 2030 then [2038] else []),
      memory = (\<lambda>a. if a = 2018 then StrongRef 1010 else if a = 2038 then StrongRef 1020 else Smi),
      slot_set = (\<lambda>p t. if p = 2 \<and> t = OLD_TO_NEW then Some [2018, 2038] else None),
      typed_slot_set = (\<lambda>p t. None),
      invalidated_slots = (\<lambda>p t. None),
      allocation_answers = [],
      pretenuring_feedback = [],
      promoted_size = 0,
      semispace_copied_size = 0,
      new_to_old_moved_bytes = 0,
      new_to_new_moved_bytes = 0,
      new_space_evacuation_pages = [1],
      old_space_evacuation_pages = [2],
      new_lo_space = [],
      promoted_large_pages = [],
      aborted_evacuation_candidates_due_to_oom = [],
      aborted_evacuation_candidates_due_to_flags = [],
      sweeper_added = [],
      ReleasePage_calls = [],
      owner_memory_chunk_list = (\<lambda>space. if space = NEW_SPACE then [1]
                                         else if space = OLD_SPACE then [2, 3] else [])\<rparr>"

lemma evacuation_example_heap_fields [simp]:
  "page_of evacuation_example_heap a = a div 1000"
  "objects_on evacuation_example_heap p =
     (if p = 1 then [1010, 1020] else if p = 2 then [2010, 2020, 2030] else [])"
  "object_size evacuation_example_heap obj = 16"
  "IsThinString evacuation_example_heap obj = False"
  "IsInPlaceInternalizable evacuation_example_heap obj = False"
  "ShouldBePromoted evacuation_example_heap obj = True"
  "heap_ShouldReduceMemory evacuation_example_heap = False"
  "CanExpandOldGeneration evacuation_example_heap n = True"
  "Contains_age_mark evacuation_example_heap p = False"
  "AllocatableMemoryInDataPage evacuation_example_heap = 1000"
  "kTaggedSize evacuation_example_heap = 8"
  "IsGCWithoutStack evacuation_example_heap = True"
  "Rebalance_succeeds evacuation_example_heap = True"
  "V8_EXTERNAL_CODE_SPACE_BOOL evacuation_example_heap = False"
  "is_incremental_marking evacuation_example_heap = False"
  "shared_string_table evacuation_example_heap = False"
  "FLAG_page_promotion evacuation_example_heap = True"
  "FLAG_page_promotion_threshold evacuation_example_heap = 70"
  "FLAG_crash_on_aborted_evacuation evacuation_example_heap = False"
  "FLAG_compact_with_stack evacuation_example_heap = True"
  "FLAG_compact_code_space_with_stack evacuation_example_heap = True"
  "FLAG_minor_mc evacuation_example_heap = False"
  "FLAG_minor_mc_sweeping evacuation_example_heap = False"
  by (simp_all add: evacuation_example_heap_def)

lemma evacuation_example_state_fields [simp]:
  "chunks evacuation_example_state p =
     (if p = 1 then empty_chunk\<lparr>flags := {FROM_PAGE}, live_bytes := 32,
                                 area_start := 1000, owner_identity := NEW_SPACE\<rparr>
      else if p = 2 then empty_chunk\<lparr>flags := {EVACUATION_CANDIDATE}, live_bytes := 48,
                                 area_start := 2000\<rparr>
      else empty_chunk\<lparr>area_start := p * 1000\<rparr>)"
  "evacuation_candidates evacuation_example_state = []"
  "bitmap evacuation_example_state obj =
     (if obj \<in> {1010, 1020, 2010, 2020, 2030} then Black else White)"
  "map_words evacuation_example_state obj = MapPointer 9000"
  "object_slots evacuation_example_state obj =
     (if obj = 2010 then [2018] else if obj = 2030 then [2038] else [])"
  "memory evacuation_example_state a =
     (if a = 2018 then StrongRef 1010 else if a = 2038 then StrongRef 1020 else Smi)"
  "slot_set evacuation_example_state p t =
     (if p = 2 \<and> t = OLD_TO_NEW then Some [2018, 2038] else None)"
  "typed_slot_set evacuation_example_state p t = None"
  "invalidated_slots evacuation_example_state p t = None"
  "allocation_answers evacuation_example_state = []"
  "pretenuring_feedback evacuation_example_state = []"
  "promoted_size evacuation_example_state = 0"
  "semispace_copied_size evacuation_example_state = 0"
  "new_to_old_moved_bytes evacuation_example_state = 0"
  "new_to_new_moved_bytes evacuation_example_state = 0"
  "new_space_evacuation_pages evacuation_example_state = [1]"
  "old_space_evacuation_pages evacuation_example_state = [2]"
  "new_lo_space evacuation_example_state = []"
  "promoted_large_pages evacuation_example_state = []"
  "aborted_evacuation_candidates_due_to_oom evacuation_example_state = []"
  "aborted_evacuation_candidates_due_to_flags evacuation_example_state = []"
  "sweeper_added evacuation_example_state = []"
  "ReleasePage_calls evacuation_example_state = []"
  "owner_memory_chunk_list evacuation_example_state space =
     (if space = NEW_SPACE then [1] else if space = OLD_SPACE then [2, 3] else [])"
  by (simp_all add: evacuation_example_state_def)

subsection \<open>Evacuation: promotion of a young object that cannot be allocated\<close>

text \<open>The next allocation request fails.\<close>

definition allocation_fails :: "'a evacuation_state_scheme \<Rightarrow> bool" where
  "allocation_fails s = (fst (Allocate s) = None)"

lemma TryEvacuateObject_fails:
  "allocation_fails s \<Longrightarrow> fst (TryEvacuateObject h rv space obj sz s) = False"
  by (auto simp: allocation_fails_def TryEvacuateObject_def split: prod.splits option.splits)

lemma TryEvacuateObject_fails_iff:
  "fst (TryEvacuateObject h rv space obj sz s) = False \<longleftrightarrow> allocation_fails s"
  by (auto simp: allocation_fails_def TryEvacuateObject_def split: prod.splits option.splits)

lemma TryEvacuateObject_failed_state:
  "TryEvacuateObject h rv space obj sz s = (False, s1) \<Longrightarrow> s1 = snd (Allocate s)"
  by (auto simp: TryEvacuateObject_def split: prod.splits option.splits)

lemma semispace_copy_never_false:
  "semispace_copy h ev obj sz s \<noteq> Inr (False, s')"
  by (auto simp: semispace_copy_def Let_def split: sum.splits prod.splits)

lemma semispace_copy_fatal_iff:
  "semispace_copy h ev obj sz s = Inl e \<longleftrightarrow>
     e = FatalProcessOutOfMemory \<and> allocation_fails s \<and> allocation_fails (snd (Allocate s))"
  by (auto simp: semispace_copy_def AllocateTargetObject_def UpdateAllocationSite_def Allocate_def
      allocation_fails_def Let_def split: sum.splits prod.splits option.splits list.splits)

lemma TryEvacuateWithoutCopy_answers:
  "allocation_answers (snd (TryEvacuateWithoutCopy h obj s)) = allocation_answers s"
  by (simp add: TryEvacuateWithoutCopy_def Let_def)

text \<open>
  Claim C7, as the code has it.  For a young object that is not forwarded without a copy:
  with \<open>AlwaysPromoteYoung::kYes\<close> (the full collector) a failed allocation in old
  space ends in \<open>FatalProcessOutOfMemory\<close>.  With \<open>kNo\<close> (the young-generation
  collector) a failed promotion falls back to a copy within new space and then to old
  space, and the process dies exactly when every one of these allocations fails.  In
  both cases the visit never returns \<open>false\<close>: evacuation of a nursery page is never
  aborted.
\<close>

theorem EvacuateNewSpaceVisitor_promotion_failure:
  assumes "TryEvacuateWithoutCopy h obj s = (False, s0)"
  shows "(always_promote_young ev = kYes \<and> allocation_fails s \<longrightarrow>
            EvacuateNewSpaceVisitor_Visit h ev obj sz s = Inl FatalProcessOutOfMemory)
       \<and> (always_promote_young ev = kNo \<longrightarrow>
            (EvacuateNewSpaceVisitor_Visit h ev obj sz s = Inl FatalProcessOutOfMemory \<longleftrightarrow>
               (if ShouldBePromoted h obj
                then allocation_fails s \<and> allocation_fails (snd (Allocate s))
                     \<and> allocation_fails (snd (Allocate (snd (Allocate s))))
                else allocation_fails s \<and> allocation_fails (snd (Allocate s)))))
       \<and> (\<forall>s'. EvacuateNewSpaceVisitor_Visit h ev obj sz s \<noteq> Inr (False, s'))"
proof -
  have s0: "s0 = s" using assms
    by (auto simp: TryEvacuateWithoutCopy_def Let_def split: if_splits)
  have a: "always_promote_young ev = kYes \<Longrightarrow> allocation_fails s \<Longrightarrow>
            EvacuateNewSpaceVisitor_Visit h ev obj sz s = Inl FatalProcessOutOfMemory"
  proof -
    assume y: "always_promote_young ev = kYes" and f: "allocation_fails s"
    have "allocation_fails (UpdateAllocationSite obj s)"
      using f by (auto simp: allocation_fails_def Allocate_def UpdateAllocationSite_def split: list.splits)
    then have "fst (TryEvacuateObject h (the_record_visitor ev) OLD_SPACE obj sz (UpdateAllocationSite obj s)) = False"
      by (rule TryEvacuateObject_fails)
    then show ?thesis using y assms s0
      by (auto simp: EvacuateNewSpaceVisitor_Visit_def split: prod.splits)
  qed
  have b: "always_promote_young ev = kNo \<Longrightarrow>
            (EvacuateNewSpaceVisitor_Visit h ev obj sz s = Inl FatalProcessOutOfMemory \<longleftrightarrow>
               (if ShouldBePromoted h obj
                then allocation_fails s \<and> allocation_fails (snd (Allocate s))
                     \<and> allocation_fails (snd (Allocate (snd (Allocate s))))
                else allocation_fails s \<and> allocation_fails (snd (Allocate s))))"
  proof -
    assume n: "always_promote_young ev = kNo"
    show ?thesis
    proof (cases "ShouldBePromoted h obj")
      case False
      then show ?thesis using n assms s0
        by (simp add: EvacuateNewSpaceVisitor_Visit_def semispace_copy_fatal_iff)
    next
      case True
      obtain r s1 where t: "TryEvacuateObject h (the_record_visitor ev) OLD_SPACE obj sz s = (r, s1)"
        by (cases "TryEvacuateObject h (the_record_visitor ev) OLD_SPACE obj sz s")
      show ?thesis
      proof (cases r)
        case True
        then have "\<not> allocation_fails s" using t TryEvacuateObject_fails_iff[of h "the_record_visitor ev" OLD_SPACE obj sz s] by simp
        then show ?thesis using n assms s0 t True \<open>ShouldBePromoted h obj\<close>
          by (simp add: EvacuateNewSpaceVisitor_Visit_def)
      next
        case False
        then have f: "allocation_fails s" using t TryEvacuateObject_fails_iff[of h "the_record_visitor ev" OLD_SPACE obj sz s] by simp
        have "TryEvacuateObject h (the_record_visitor ev) OLD_SPACE obj sz s = (False, s1)"
          using t False by simp
        then have s1: "s1 = snd (Allocate s)" by (rule TryEvacuateObject_failed_state)
        show ?thesis using n assms s0 t False f s1 \<open>ShouldBePromoted h obj\<close>
          by (simp add: EvacuateNewSpaceVisitor_Visit_def semispace_copy_fatal_iff)
      qed
    qed
  qed
  have c: "\<And>s'. EvacuateNewSpaceVisitor_Visit h ev obj sz s \<noteq> Inr (False, s')"
    by (auto simp: EvacuateNewSpaceVisitor_Visit_def semispace_copy_never_false
        split: prod.splits bool.splits if_splits)
  show ?thesis using a b c by blast
qed


lemma example_without_copy:
  "TryEvacuateWithoutCopy evacuation_example_heap 1010 (evacuation_example_state\<lparr>allocation_answers := a\<rparr>)
     = (False, evacuation_example_state\<lparr>allocation_answers := a\<rparr>)"
  by (simp add: TryEvacuateWithoutCopy_def)

theorem EvacuateNewSpaceVisitor_promotion_failure_witness:
  "TryEvacuateWithoutCopy evacuation_example_heap 1010 (evacuation_example_state\<lparr>allocation_answers := []\<rparr>)
     = (False, evacuation_example_state\<lparr>allocation_answers := []\<rparr>)
   \<and> always_promote_young FullEvacuator = kYes
   \<and> allocation_fails (evacuation_example_state\<lparr>allocation_answers := []\<rparr>)
   \<and> EvacuateNewSpaceVisitor_Visit evacuation_example_heap FullEvacuator 1010 16
         (evacuation_example_state\<lparr>allocation_answers := []\<rparr>) = Inl FatalProcessOutOfMemory"
  using EvacuateNewSpaceVisitor_promotion_failure[OF example_without_copy[of "[]"], of FullEvacuator 16]
  by (simp add: example_without_copy FullEvacuator_def allocation_fails_def Allocate_def)

text \<open>
  Claim C7 as written fails for the young-generation evacuator: the promotion of object
  1010 fails (the first allocation answer is a failure), the copy into new space succeeds
  (the second answer is address 4010), and the visit returns \<open>true\<close> with the object
  forwarded to 4010.
\<close>

theorem EvacuateNewSpaceVisitor_promotion_failure_counterexample:
  "fst (TryEvacuateObject evacuation_example_heap YoungGenerationRecordMigratedSlotVisitor OLD_SPACE 1010 16
          (evacuation_example_state\<lparr>allocation_answers := [None, Some 4010]\<rparr>)) = False
   \<and> EvacuateNewSpaceVisitor_Visit evacuation_example_heap YoungGenerationEvacuator 1010 16
         (evacuation_example_state\<lparr>allocation_answers := [None, Some 4010]\<rparr>)
       \<noteq> Inl FatalProcessOutOfMemory
   \<and> (case EvacuateNewSpaceVisitor_Visit evacuation_example_heap YoungGenerationEvacuator 1010 16
               (evacuation_example_state\<lparr>allocation_answers := [None, Some 4010]\<rparr>) of
         Inl e \<Rightarrow> False
       | Inr (r, s') \<Rightarrow> r \<and> map_words s' 1010 = ForwardingAddress 4010
                         \<and> semispace_copied_size s' = 16 \<and> promoted_size s' = 0)"
  by (simp add: EvacuateNewSpaceVisitor_Visit_def example_without_copy YoungGenerationEvacuator_def
      TryEvacuateObject_def Allocate_def semispace_copy_def
      AllocateTargetObject_def UpdateAllocationSite_def MigrateObject_def CopyBlock_def Let_def)

subsection \<open>Evacuation: promoting a nursery page as a whole\<close>

definition moved_chunk :: "PageEvacuationMode \<Rightarrow> memory_chunk \<Rightarrow> memory_chunk" where
  "moved_chunk mode c =
     (case mode of
        NEW_TO_NEW \<Rightarrow> SetFlag PAGE_NEW_NEW_PROMOTION (SetFlag TO_PAGE (ClearFlag FROM_PAGE c))
      | NEW_TO_OLD \<Rightarrow>
          SetFlag PAGE_NEW_OLD_PROMOTION
            ((ClearFlag TO_PAGE (ClearFlag FROM_PAGE c))\<lparr>owner_identity := OLD_SPACE\<rparr>))"

lemma Move_chunks:
  "chunks (Move mode p s) q = (if q = p then moved_chunk mode (chunks s p) else chunks s q)"
  by (cases mode) (simp_all add: Move_def update_chunk_def moved_chunk_def)

lemma moved_chunk_mode:
  "ComputeEvacuationMode (moved_chunk mode c) =
     (case mode of NEW_TO_OLD \<Rightarrow> kPageNewToOld
      | NEW_TO_NEW \<Rightarrow> if IsFlagSet c PAGE_NEW_OLD_PROMOTION then kPageNewToOld
                       else kPageNewToNew)"
  by (cases mode)
     (simp_all add: moved_chunk_def ComputeEvacuationMode_def IsFlagSet_def SetFlag_def
        ClearFlag_def)

lemma moved_chunk_owner: "owner_identity (moved_chunk NEW_TO_OLD c) = OLD_SPACE"
  by (simp add: moved_chunk_def SetFlag_def ClearFlag_def)

lemma Move_only_ownership:
  "\<exists>cs l. Move mode p s = s\<lparr>chunks := cs, owner_memory_chunk_list := l\<rparr>"
  apply (cases mode)
   apply (rule exI[of _ "chunks (Move mode p s)"], rule exI[of _ "owner_memory_chunk_list s"])
   apply (simp add: Move_def update_chunk_def)
  apply (rule exI[of _ "chunks (Move mode p s)"], rule exI[of _ "owner_memory_chunk_list (Move mode p s)"])
  apply (simp add: Move_def update_chunk_def)
  done

lemma collect_new_space_items_other:
  "q \<notin> set pages \<Longrightarrow>
   chunks (snd (collect_new_space_items h pages items s)) q = chunks s q"
  by (induction pages arbitrary: items s) (auto simp: Let_def Move_chunks)

lemma collect_new_space_items_chunk:
  assumes "distinct pages" and "p \<in> set pages"
  shows "chunks (snd (collect_new_space_items h pages items s)) p =
           (if live_bytes (chunks s p) \<noteq> 0
               \<and> ShouldMovePage h p (chunks s p) (live_bytes (chunks s p)) kYes
            then moved_chunk NEW_TO_OLD (chunks s p) else chunks s p)"
  using assms
proof (induction pages arbitrary: items s)
  case Nil then show ?case by simp
next
  case (Cons q pages)
  show ?case
  proof (cases "p = q")
    case True
    then have "p \<notin> set pages" using Cons.prems by simp
    then show ?thesis using True
      by (simp add: Let_def collect_new_space_items_other Move_chunks)
  next
    case False
    then have "p \<in> set pages" "distinct pages" using Cons.prems by auto
    then show ?thesis using False Cons.IH
      by (simp add: Let_def Move_chunks)
  qed
qed

lemma collect_new_space_items_items:
  assumes "distinct pages"
  shows "fst (collect_new_space_items h pages items s) =
     items @ filter (\<lambda>p. live_bytes (chunks s p) \<noteq> 0) pages"
  using assms
proof (induction pages arbitrary: items s)
  case Nil then show ?case by simp
next
  case (Cons q pages)
  have f: "filter (\<lambda>p. live_bytes (chunks (Move NEW_TO_OLD q s) p) \<noteq> 0) pages
         = filter (\<lambda>p. live_bytes (chunks s p) \<noteq> 0) pages"
    using Cons.prems by (intro filter_cong) (auto simp: Move_chunks)
  show ?case using Cons f by (simp add: Let_def)
qed


text \<open>
  The objects of a page that \<open>VisitBlackObjectsNoFail\<close> visits, and what it means
  that no object was copied: no map word (so no forwarding address), no slot and no
  memory changed, no allocation answer was taken, no mark bit changed and the counters
  of promoted and copied bytes stand still.
\<close>

definition visited_objects ::
  "evacuation_heap \<Rightarrow> 'a evacuation_state_scheme \<Rightarrow> page \<Rightarrow> heap_object list" where
  "visited_objects h s chunk =
     filter (IsBlack (bitmap s))
       (if IsLargePage (chunks s chunk) then take 1 (objects_on h chunk) else objects_on h chunk)"

definition no_object_copied ::
  "'a evacuation_state_scheme \<Rightarrow> 'a evacuation_state_scheme \<Rightarrow> bool" where
  "no_object_copied s s' =
     (map_words s' = map_words s \<and> memory s' = memory s \<and> object_slots s' = object_slots s
      \<and> allocation_answers s' = allocation_answers s \<and> bitmap s' = bitmap s
      \<and> promoted_size s' = promoted_size s
      \<and> semispace_copied_size s' = semispace_copied_size s)"

lemma only_recorded_no_object_copied: "only_recorded s s' \<Longrightarrow> no_object_copied s s'"
  unfolding no_object_copied_def
  using only_recorded_fields[of s s'] only_copied_fields(2)[OF only_recorded_copied, of s s']
  by simp

lemma slot_is_recorded_cong:
  "chunks s' = chunks s \<Longrightarrow> memory s' = memory s \<Longrightarrow> slot_set s' = slot_set s \<Longrightarrow>
   slot_is_recorded h s' host slot = slot_is_recorded h s host slot"
  by (simp add: slot_is_recorded_def target_is_recorded_def in_slot_set_def
      split: tagged.splits)

lemma RawEvacuatePage_kPageNewToOld:
  assumes "ComputeEvacuationMode (chunks s p) = kPageNewToOld"
  shows "\<exists>s'. RawEvacuatePage h p s = Inr s' \<and> no_object_copied s s' \<and> chunks s' = chunks s
           \<and> (\<forall>obj \<in> set (visited_objects h s p). \<forall>slot \<in> set (object_slots s obj).
                 slot_is_recorded h s' obj slot)"
proof -
  let ?objs = "if IsLargePage (chunks s p) then take 1 (objects_on h p) else objects_on h p"
  let ?v = "EvacuateNewSpacePageVisitor NEW_TO_OLD"
  obtain s1 where l: "VisitBlackObjectsNoFail_loop h FullEvacuator ?v ?objs s = Inr s1"
    and r: "only_recorded s s1"
    using VisitBlackObjectsNoFail_loop_only_recorded[of ?v NEW_TO_OLD h FullEvacuator ?objs s]
    by auto
  have rec: "\<forall>obj \<in> set ?objs. IsBlack (bitmap s) obj \<longrightarrow>
            (\<forall>slot \<in> set (object_slots s obj). slot_is_recorded h s1 obj slot)"
    using VisitBlackObjectsNoFail_loop_records[OF _ _ l] by (simp add: FullEvacuator_def)
  let ?s' = "s1\<lparr>new_to_old_moved_bytes := new_to_old_moved_bytes s1 + live_bytes (chunks s1 p)\<rparr>"
  have e: "RawEvacuatePage h p s = Inr ?s'"
    using assms l by (simp add: RawEvacuatePage_def VisitBlackObjectsNoFail_def)
  have n: "no_object_copied s ?s'"
    using only_recorded_no_object_copied[OF r] by (simp add: no_object_copied_def)
  have c: "chunks ?s' = chunks s"
    using only_copied_fields(1)[OF only_recorded_copied[OF r]] by simp
  have "\<And>obj slot. slot_is_recorded h ?s' obj slot = slot_is_recorded h s1 obj slot"
    by (rule slot_is_recorded_cong) simp_all
  then show ?thesis using e n c rec by (auto simp: visited_objects_def)
qed

lemma RawEvacuatePage_kPageNewToNew:
  assumes "ComputeEvacuationMode (chunks s p) = kPageNewToNew"
  shows "\<exists>s'. RawEvacuatePage h p s = Inr s' \<and> no_object_copied s s' \<and> chunks s' = chunks s
           \<and> slot_set s' = slot_set s"
proof -
  let ?objs = "if IsLargePage (chunks s p) then take 1 (objects_on h p) else objects_on h p"
  let ?v = "EvacuateNewSpacePageVisitor NEW_TO_NEW"
  obtain s1 where l: "VisitBlackObjectsNoFail_loop h FullEvacuator ?v ?objs s = Inr s1"
    and f: "only_feedback s s1"
    using VisitBlackObjectsNoFail_loop_only_feedback[of h FullEvacuator ?objs s] by auto
  have r: "only_recorded s s1" using f by (rule only_feedback_only_recorded)
  let ?s' = "s1\<lparr>new_to_new_moved_bytes := new_to_new_moved_bytes s1 + live_bytes (chunks s1 p)\<rparr>"
  have e: "RawEvacuatePage h p s = Inr ?s'"
    using assms l by (simp add: RawEvacuatePage_def VisitBlackObjectsNoFail_def)
  have n: "no_object_copied s ?s'"
    using only_recorded_no_object_copied[OF r] by (simp add: no_object_copied_def)
  have c: "chunks ?s' = chunks s"
    using only_copied_fields(1)[OF only_recorded_copied[OF r]] by simp
  have "slot_set ?s' = slot_set s" using only_feedback_slot_set[OF f] by simp
  then show ?thesis using e n c by blast
qed

lemma ShouldMovePage_threshold:
  "ShouldMovePage h p c live always \<Longrightarrow> live > NewSpacePageEvacuationThreshold h"
  by (simp add: ShouldMovePage_def)

text \<open>
  Claim C6, as the code has it.  Let \<open>p\<close> be a nursery page with live bytes that
  \<open>EvacuatePagesInParallel\<close> of the full collector considers.  After the loop over
  the nursery pages its evacuation mode is \<open>kPageNewToOld\<close> exactly when
  \<open>ShouldMovePage\<close> holds, that is when the heap is not reducing memory, the page is
  not flagged never-evacuate, its live bytes exceed the page-promotion threshold and the
  old generation can expand by the live bytes; the full collector never chooses
  \<open>kPageNewToNew\<close>.  A moved page belongs to old space.  Evacuating a page in mode
  \<open>kPageNewToOld\<close> copies no object, leaves the chunk headers alone and records the
  slots of the visited objects; in mode \<open>kPageNewToNew\<close> it copies no object and
  records no slot.
\<close>

theorem page_promotion_mode:
  assumes "distinct (new_space_evacuation_pages s)"
    and "p \<in> set (new_space_evacuation_pages s)"
    and "live_bytes (chunks s p) \<noteq> 0"
    and "ComputeEvacuationMode (chunks s p) = kObjectsNewToOld"
    and "s1 = snd (collect_new_space_items h (new_space_evacuation_pages s) [] s)"
  shows "(ComputeEvacuationMode (chunks s1 p) = kPageNewToOld \<longleftrightarrow>
            ShouldMovePage h p (chunks s p) (live_bytes (chunks s p)) kYes)
       \<and> (ShouldMovePage h p (chunks s p) (live_bytes (chunks s p)) kYes \<longleftrightarrow>
            \<not> heap_ShouldReduceMemory h \<and> \<not> NeverEvacuate (chunks s p)
            \<and> live_bytes (chunks s p) > NewSpacePageEvacuationThreshold h
            \<and> CanExpandOldGeneration h (live_bytes (chunks s p)))
       \<and> ComputeEvacuationMode (chunks s1 p) \<noteq> kPageNewToNew
       \<and> (ComputeEvacuationMode (chunks s1 p) = kPageNewToOld \<longrightarrow>
            owner_identity (chunks s1 p) = OLD_SPACE)
       \<and> (\<forall>s2. ComputeEvacuationMode (chunks s2 p) = kPageNewToOld \<longrightarrow>
            (\<exists>s3. RawEvacuatePage h p s2 = Inr s3 \<and> no_object_copied s2 s3
                  \<and> chunks s3 = chunks s2
                  \<and> (\<forall>obj \<in> set (visited_objects h s2 p). \<forall>slot \<in> set (object_slots s2 obj).
                        slot_is_recorded h s3 obj slot)))
       \<and> (\<forall>s2. ComputeEvacuationMode (chunks s2 p) = kPageNewToNew \<longrightarrow>
            (\<exists>s3. RawEvacuatePage h p s2 = Inr s3 \<and> no_object_copied s2 s3
                  \<and> chunks s3 = chunks s2 \<and> slot_set s3 = slot_set s2))"
proof -
  let ?move = "ShouldMovePage h p (chunks s p) (live_bytes (chunks s p)) kYes"
  have c: "chunks s1 p = (if ?move then moved_chunk NEW_TO_OLD (chunks s p) else chunks s p)"
    unfolding assms(5) collect_new_space_items_chunk[OF assms(1,2)] using assms(3) by simp
  have a: "ComputeEvacuationMode (chunks s1 p) = kPageNewToOld \<longleftrightarrow> ?move"
    using c assms(4) by (simp add: moved_chunk_mode)
  have b: "?move \<longleftrightarrow>
            \<not> heap_ShouldReduceMemory h \<and> \<not> NeverEvacuate (chunks s p)
            \<and> live_bytes (chunks s p) > NewSpacePageEvacuationThreshold h
            \<and> CanExpandOldGeneration h (live_bytes (chunks s p))"
    by (simp add: ShouldMovePage_def)
  have d: "ComputeEvacuationMode (chunks s1 p) \<noteq> kPageNewToNew"
    using c assms(4) by (simp add: moved_chunk_mode)
  have e: "ComputeEvacuationMode (chunks s1 p) = kPageNewToOld \<longrightarrow>
            owner_identity (chunks s1 p) = OLD_SPACE"
    using a c by (simp add: moved_chunk_owner)
  show ?thesis
    using a b d e RawEvacuatePage_kPageNewToOld[of _ p h] RawEvacuatePage_kPageNewToNew[of _ p h]
    by blast
qed

text \<open>The example heap with 900 live bytes on the nursery page.\<close>

definition promotion_example_state :: evacuation_state where
  "promotion_example_state =
     evacuation_example_state
       \<lparr>chunks := (chunks evacuation_example_state)
           (1 := (chunks evacuation_example_state 1)\<lparr>live_bytes := 900\<rparr>)\<rparr>"

lemma promotion_example_threshold:
  "NewSpacePageEvacuationThreshold evacuation_example_heap = 700"
  "NewSpacePageEvacuationThreshold (evacuation_example_heap\<lparr>heap_ShouldReduceMemory := True\<rparr>) = 700"
  by (simp_all add: NewSpacePageEvacuationThreshold_def size_t_of_int_def intptr_t_of_size_t_def)

lemma promotion_example_chunk:
  "chunks promotion_example_state 1 =
     empty_chunk\<lparr>flags := {FROM_PAGE}, live_bytes := 900, area_start := 1000,
                 owner_identity := NEW_SPACE\<rparr>"
  "chunks promotion_example_state (Suc 0) =
     empty_chunk\<lparr>flags := {FROM_PAGE}, live_bytes := 900, area_start := 1000,
                 owner_identity := NEW_SPACE\<rparr>"
  by (simp_all add: promotion_example_state_def)

theorem page_promotion_mode_witness:
  "distinct (new_space_evacuation_pages promotion_example_state)
   \<and> 1 \<in> set (new_space_evacuation_pages promotion_example_state)
   \<and> live_bytes (chunks promotion_example_state 1) \<noteq> 0
   \<and> ComputeEvacuationMode (chunks promotion_example_state 1) = kObjectsNewToOld
   \<and> ShouldMovePage evacuation_example_heap 1 (chunks promotion_example_state 1) 900 kYes
   \<and> ComputeEvacuationMode
        (chunks (snd (collect_new_space_items evacuation_example_heap
                        (new_space_evacuation_pages promotion_example_state) []
                        promotion_example_state)) 1) = kPageNewToOld
   \<and> owner_identity
        (chunks (snd (collect_new_space_items evacuation_example_heap
                        (new_space_evacuation_pages promotion_example_state) []
                        promotion_example_state)) 1) = OLD_SPACE"
proof -
  have p: "new_space_evacuation_pages promotion_example_state = [1]"
    by (simp add: promotion_example_state_def)
  have a: "distinct (new_space_evacuation_pages promotion_example_state)"
    and b: "1 \<in> set (new_space_evacuation_pages promotion_example_state)"
    using p by simp_all
  have c: "live_bytes (chunks promotion_example_state 1) \<noteq> 0"
    by (simp add: promotion_example_chunk)
  have d: "ComputeEvacuationMode (chunks promotion_example_state 1) = kObjectsNewToOld"
    by (simp add: promotion_example_chunk ComputeEvacuationMode_def IsFlagSet_def
        InYoungGeneration_def empty_chunk_def)
  have m: "ShouldMovePage evacuation_example_heap 1 (chunks promotion_example_state 1) 900 kYes"
    by (simp add: ShouldMovePage_def promotion_example_threshold promotion_example_chunk
        NeverEvacuate_def IsFlagSet_def empty_chunk_def)
  have l: "live_bytes (chunks promotion_example_state 1) = 900"
    by (simp add: promotion_example_chunk)
  let ?s1 = "snd (collect_new_space_items evacuation_example_heap
                        (new_space_evacuation_pages promotion_example_state) []
                        promotion_example_state)"
  note t = page_promotion_mode[OF a b c d refl, of evacuation_example_heap]
  from t have "ComputeEvacuationMode (chunks ?s1 1) = kPageNewToOld \<longleftrightarrow>
     ShouldMovePage evacuation_example_heap 1 (chunks promotion_example_state 1)
       (live_bytes (chunks promotion_example_state 1)) kYes"
    by (rule conjunct1)
  then have e: "ComputeEvacuationMode (chunks ?s1 1) = kPageNewToOld"
    using m unfolding l by blast
  from t have "ComputeEvacuationMode (chunks ?s1 1) = kPageNewToOld \<longrightarrow>
            owner_identity (chunks ?s1 1) = OLD_SPACE"
    by blast
  then have f: "owner_identity (chunks ?s1 1) = OLD_SPACE" using e by blast
  show ?thesis using a b c d m e f by blast
qed

text \<open>
  Claim C6 as written fails when the heap is reducing memory: the 900 live bytes of the
  page exceed the threshold of 700, but the page is not moved and its objects are copied
  one by one (mode \<open>kObjectsNewToOld\<close>).
\<close>

theorem page_promotion_mode_counterexample:
  "live_bytes (chunks promotion_example_state 1)
     > NewSpacePageEvacuationThreshold (evacuation_example_heap\<lparr>heap_ShouldReduceMemory := True\<rparr>)
   \<and> ComputeEvacuationMode
        (chunks (snd (collect_new_space_items
                        (evacuation_example_heap\<lparr>heap_ShouldReduceMemory := True\<rparr>)
                        [1] [] promotion_example_state)) 1) = kObjectsNewToOld"
  by (simp add: promotion_example_threshold promotion_example_chunk ShouldMovePage_def Let_def
      ComputeEvacuationMode_def IsFlagSet_def InYoungGeneration_def empty_chunk_def)

subsection \<open>Handing a paged space to the sweeper (StartSweepSpace)\<close>

text \<open>
  The locals and members the loop writes: the space's chunk list, the pages given to
  \<open>PagedSpace::ReleasePage\<close>, the pages given to \<open>Sweeper::AddPage\<close>, and the
  two locals \<open>will_be_swept\<close> and \<open>unused_page_present\<close>.
\<close>

record sweep_state =
  memory_chunk_list :: "page list"
  released_pages :: "page list"
  sweeper_pages :: "page list"
  will_be_swept :: int
  unused_page_present :: bool

text \<open>
  The body of the \<open>for\<close> loop.  The iterator is advanced before the body runs
  (\<open>Page* p = *(it++)\<close>), so removing \<open>p\<close> from the list does not disturb the
  traversal: the loop visits the pages the space had on entry, in order.
\<close>

fun StartSweepSpace_loop :: "chunk_store \<Rightarrow> page list \<Rightarrow> sweep_state \<Rightarrow> sweep_state" where
  "StartSweepSpace_loop cs [] s = s"
| "StartSweepSpace_loop cs (p # ps) s =
     (if IsEvacuationCandidate (cs p) then StartSweepSpace_loop cs ps s
      else if live_bytes (cs p) = 0 \<and> unused_page_present s then
        StartSweepSpace_loop cs ps
          (s\<lparr>memory_chunk_list := remove1 p (memory_chunk_list s),
             released_pages := released_pages s @ [p]\<rparr>)
      else
        StartSweepSpace_loop cs ps
          ((if live_bytes (cs p) = 0 then s\<lparr>unused_page_present := True\<rparr> else s)
             \<lparr>sweeper_pages := sweeper_pages s @ [p],
              will_be_swept := will_be_swept s + 1\<rparr>))"

definition StartSweepSpace :: "chunk_store \<Rightarrow> page list \<Rightarrow> sweep_state" where
  "StartSweepSpace cs space =
     StartSweepSpace_loop cs space
       \<lparr>memory_chunk_list = space, released_pages = [], sweeper_pages = [],
        will_be_swept = 0, unused_page_present = False\<rparr>"

text \<open>The unused pages of a space that are not evacuation candidates, in page order.\<close>

definition unused_pages :: "chunk_store \<Rightarrow> page list \<Rightarrow> page list" where
  "unused_pages cs space = filter (\<lambda>p. \<not> IsEvacuationCandidate (cs p) \<and> live_bytes (cs p) = 0) space"

text \<open>
  A space of four pages: page 0 is unused, page 1 is an unused evacuation candidate,
  page 2 has live objects and page 3 is unused.
\<close>

definition sweep_example_chunks :: chunk_store where
  "sweep_example_chunks p =
     (if p = 1 then empty_chunk\<lparr>flags := {EVACUATION_CANDIDATE}\<rparr>
      else if p = 2 then empty_chunk\<lparr>live_bytes := 48\<rparr>
      else empty_chunk)"

definition sweep_example :: "page list" where
  "sweep_example = [0, 1, 2, 3]"

lemma StartSweepSpace_loop_released:
  "released_pages (StartSweepSpace_loop cs ps s) =
     released_pages s @ (if unused_page_present s then unused_pages cs ps else drop 1 (unused_pages cs ps))"
  by (induction ps arbitrary: s) (auto simp: unused_pages_def)

lemma StartSweepSpace_loop_sweeper_unused:
  "filter (\<lambda>p. live_bytes (cs p) = 0) (sweeper_pages (StartSweepSpace_loop cs ps s)) =
     filter (\<lambda>p. live_bytes (cs p) = 0) (sweeper_pages s) @
       (if unused_page_present s then [] else take 1 (unused_pages cs ps))"
  by (induction ps arbitrary: s) (auto simp: unused_pages_def)

lemma StartSweepSpace_loop_sweeper_live:
  "filter (\<lambda>p. live_bytes (cs p) \<noteq> 0) (sweeper_pages (StartSweepSpace_loop cs ps s)) =
     filter (\<lambda>p. live_bytes (cs p) \<noteq> 0) (sweeper_pages s) @
       filter (\<lambda>p. \<not> IsEvacuationCandidate (cs p) \<and> live_bytes (cs p) \<noteq> 0) ps"
  by (induction ps arbitrary: s) (auto simp: unused_pages_def)

lemma StartSweepSpace_loop_mset:
  "mset (sweeper_pages (StartSweepSpace_loop cs ps s)) + mset (released_pages (StartSweepSpace_loop cs ps s)) =
     mset (sweeper_pages s) + mset (released_pages s) + mset (filter (\<lambda>p. \<not> IsEvacuationCandidate (cs p)) ps)"
  by (induction ps arbitrary: s) (auto simp: unused_pages_def)

lemma StartSweepSpace_loop_chunks:
  assumes "set ps \<subseteq> set (memory_chunk_list s)" and "distinct ps"
  shows "mset (memory_chunk_list (StartSweepSpace_loop cs ps s)) + mset (released_pages (StartSweepSpace_loop cs ps s))
   = mset (memory_chunk_list s) + mset (released_pages s)"
  using assms
proof (induction ps arbitrary: s)
  case Nil then show ?case by simp
next
  case (Cons p ps)
  show ?case
  proof (cases "\<not> IsEvacuationCandidate (cs p) \<and> live_bytes (cs p) = 0 \<and> unused_page_present s")
    case True
    let ?s = "s\<lparr>memory_chunk_list := remove1 p (memory_chunk_list s),
             released_pages := released_pages s @ [p]\<rparr>"
    have "set ps \<subseteq> set (memory_chunk_list ?s)"
    proof
      fix x assume x: "x \<in> set ps"
      then have "x \<noteq> p" using Cons.prems by auto
      moreover have "x \<in> set (memory_chunk_list s)" using x Cons.prems by auto
      ultimately show "x \<in> set (memory_chunk_list ?s)" by (simp add: in_set_remove1)
    qed
    from Cons.IH[OF this] Cons.prems True show ?thesis by simp
  next
    case False
    then show ?thesis using Cons by auto
  qed
qed

text \<open>
  Claim C9, as the code has it.  Among the pages of the space that are not evacuation
  candidates, the first one with zero live bytes is the only page with zero live bytes
  that is given to the sweeper, and every later one is released (and taken off the
  space's chunk list) and is not given to the sweeper.  When the space has no such page,
  none is kept.  Evacuation candidates are skipped before the test, so they are neither
  queued nor released here, whatever their live bytes, and stay on the chunk list: the
  pages queued and the pages released are, taken together, exactly the pages that are not
  evacuation candidates, each once, and the pages with live bytes that are queued are
  exactly the pages with live bytes that are not evacuation candidates, in page order.
\<close>

theorem StartSweepSpace_keeps_first_unused_page:
  assumes "distinct space"
  shows "filter (\<lambda>p. live_bytes (cs p) = 0) (sweeper_pages (StartSweepSpace cs space)) = take 1 (unused_pages cs space)
       \<and> released_pages (StartSweepSpace cs space) = drop 1 (unused_pages cs space)
       \<and> set (released_pages (StartSweepSpace cs space)) \<inter> set (sweeper_pages (StartSweepSpace cs space)) = {}
       \<and> set (memory_chunk_list (StartSweepSpace cs space)) = set space - set (released_pages (StartSweepSpace cs space))
       \<and> mset (sweeper_pages (StartSweepSpace cs space)) + mset (released_pages (StartSweepSpace cs space))
           = mset (filter (\<lambda>p. \<not> IsEvacuationCandidate (cs p)) space)
       \<and> (\<forall>p. IsEvacuationCandidate (cs p) \<longrightarrow>
              p \<notin> set (sweeper_pages (StartSweepSpace cs space)) \<and>
              p \<notin> set (released_pages (StartSweepSpace cs space)) \<and>
              (p \<in> set space \<longrightarrow> p \<in> set (memory_chunk_list (StartSweepSpace cs space))))
       \<and> filter (\<lambda>p. live_bytes (cs p) \<noteq> 0) (sweeper_pages (StartSweepSpace cs space))
           = filter (\<lambda>p. \<not> IsEvacuationCandidate (cs p) \<and> live_bytes (cs p) \<noteq> 0) space"
proof -
  let ?r = "StartSweepSpace cs space"
  have a: "filter (\<lambda>p. live_bytes (cs p) = 0) (sweeper_pages ?r) = take 1 (unused_pages cs space)"
    by (simp add: StartSweepSpace_def StartSweepSpace_loop_sweeper_unused)
  have b: "released_pages ?r = drop 1 (unused_pages cs space)"
    by (simp add: StartSweepSpace_def StartSweepSpace_loop_released)
  have m: "mset (sweeper_pages ?r) + mset (released_pages ?r) = mset (filter (\<lambda>p. \<not> IsEvacuationCandidate (cs p)) space)"
    by (simp add: StartSweepSpace_def StartSweepSpace_loop_mset)
  have "distinct (filter (\<lambda>p. \<not> IsEvacuationCandidate (cs p)) space)" using assms by simp
  moreover have "mset (sweeper_pages ?r @ released_pages ?r) = mset (filter (\<lambda>p. \<not> IsEvacuationCandidate (cs p)) space)"
    using m by simp
  ultimately have "distinct (sweeper_pages ?r @ released_pages ?r)"
    using mset_eq_imp_distinct_iff by blast
  then have c: "set (released_pages ?r) \<inter> set (sweeper_pages ?r) = {}" by auto
  have k: "mset (memory_chunk_list ?r) + mset (released_pages ?r) = mset space"
    using StartSweepSpace_loop_chunks[of space "\<lparr>memory_chunk_list = space, released_pages = [], sweeper_pages = [],
        will_be_swept = 0, unused_page_present = False\<rparr>"] assms
    by (simp add: StartSweepSpace_def)
  then have k': "mset (memory_chunk_list ?r @ released_pages ?r) = mset space" by simp
  then have "distinct (memory_chunk_list ?r @ released_pages ?r)"
    using assms mset_eq_imp_distinct_iff by blast
  moreover have "set (memory_chunk_list ?r) \<union> set (released_pages ?r) = set space"
    using mset_eq_setD[OF k'] by simp
  ultimately have d: "set (memory_chunk_list ?r) = set space - set (released_pages ?r)" by auto
  have "set (sweeper_pages ?r) \<union> set (released_pages ?r)
          = set (filter (\<lambda>p. \<not> IsEvacuationCandidate (cs p)) space)"
    using mset_eq_setD [OF \<open>mset (sweeper_pages ?r @ released_pages ?r) = mset (filter (\<lambda>p. \<not> IsEvacuationCandidate (cs p)) space)\<close>]
    by simp
  then have e: "\<forall>p. IsEvacuationCandidate (cs p) \<longrightarrow>
              p \<notin> set (sweeper_pages ?r) \<and> p \<notin> set (released_pages ?r) \<and>
              (p \<in> set space \<longrightarrow> p \<in> set (memory_chunk_list ?r))"
    using d by auto
  have f: "filter (\<lambda>p. live_bytes (cs p) \<noteq> 0) (sweeper_pages ?r)
           = filter (\<lambda>p. \<not> IsEvacuationCandidate (cs p) \<and> live_bytes (cs p) \<noteq> 0) space"
    by (simp add: StartSweepSpace_def StartSweepSpace_loop_sweeper_live)
  show ?thesis using a b c d m e f by blast
qed

theorem StartSweepSpace_keeps_first_unused_page_witness:
  "distinct sweep_example
   \<and> sweeper_pages (StartSweepSpace sweep_example_chunks sweep_example) = [0, 2]
   \<and> released_pages (StartSweepSpace sweep_example_chunks sweep_example) = [3]
   \<and> filter (\<lambda>p. live_bytes (sweep_example_chunks p) = 0)
         (sweeper_pages (StartSweepSpace sweep_example_chunks sweep_example))
       = take 1 (unused_pages sweep_example_chunks sweep_example)
   \<and> set (released_pages (StartSweepSpace sweep_example_chunks sweep_example))
       \<inter> set (sweeper_pages (StartSweepSpace sweep_example_chunks sweep_example)) = {}
   \<and> IsEvacuationCandidate (sweep_example_chunks 1)
   \<and> 1 \<notin> set (sweeper_pages (StartSweepSpace sweep_example_chunks sweep_example))
   \<and> 1 \<notin> set (released_pages (StartSweepSpace sweep_example_chunks sweep_example))
   \<and> 1 \<in> set (memory_chunk_list (StartSweepSpace sweep_example_chunks sweep_example))"
  using StartSweepSpace_keeps_first_unused_page[of sweep_example sweep_example_chunks]
  by (simp add: sweep_example_def sweep_example_chunks_def StartSweepSpace_def unused_pages_def
      IsEvacuationCandidate_def IsFlagSet_def empty_chunk_def)

text \<open>
  Claim C9 as written says that every further page with zero live bytes is released.
  Page 1 of the example has zero live bytes and comes after the kept page 0, but it is
  an evacuation candidate: the loop leaves it on the chunk list and does not release it.
\<close>

theorem StartSweepSpace_unused_candidate_counterexample:
  "live_bytes (sweep_example_chunks 0) = 0
   \<and> 0 \<in> set (sweeper_pages (StartSweepSpace sweep_example_chunks sweep_example))
   \<and> 1 \<in> set sweep_example
   \<and> live_bytes (sweep_example_chunks 1) = 0
   \<and> 1 \<notin> set (released_pages (StartSweepSpace sweep_example_chunks sweep_example))
   \<and> 1 \<in> set (memory_chunk_list (StartSweepSpace sweep_example_chunks sweep_example))"
  by (simp add: sweep_example_def sweep_example_chunks_def StartSweepSpace_def
      IsEvacuationCandidate_def IsFlagSet_def empty_chunk_def)

end
